theory Spec2Isabelle
  imports Complex_Main
begin

section \<open>JavaScript library functions used by the module\<close>

text \<open>
  \<open>Array.prototype.sort(compareFn)\<close> is a stable sort. It is modelled as a stable
  insertion sort driven by the comparator: the elements are taken in array order, and
  each is put before the first element already placed that compares greater than it
  (\<open>compareFn(y, x) > 0\<close>), behind all the others. For a consistent comparator
  every stable sort gives this result; for the one inconsistent comparator of the module
  (the svg-first comparator of \<open>getFormatsArray\<close>, which answers \<open>-1\<close> for two svg
  entries) the elements it orders wrongly are equal strings.
\<close>

fun js_insert :: "('a \<Rightarrow> 'a \<Rightarrow> int) \<Rightarrow> 'a \<Rightarrow> 'a list \<Rightarrow> 'a list" where
  "js_insert cmp x [] = [x]"
| "js_insert cmp x (y # ys) = (if cmp y x > 0 then x # y # ys else y # js_insert cmp x ys)"

definition js_sort :: "('a \<Rightarrow> 'a \<Rightarrow> int) \<Rightarrow> 'a list \<Rightarrow> 'a list" where
  "js_sort cmp xs = foldl (\<lambda>sorted x. js_insert cmp x sorted) [] xs"

text \<open>\<open>[...new Set(xs)]\<close>: duplicates removed, the first occurrence of each value kept.\<close>

fun js_unique :: "'a list \<Rightarrow> 'a list \<Rightarrow> 'a list" where
  "js_unique seen [] = []"
| "js_unique seen (x # xs) =
     (if x \<in> set seen then js_unique seen xs else x # js_unique (x # seen) xs)"

definition new_Set :: "'a list \<Rightarrow> 'a list" where
  "new_Set xs = js_unique [] xs"

text \<open>\<open>String.prototype.split(",")\<close>.\<close>

fun split_comma :: "string \<Rightarrow> string \<Rightarrow> string list" where
  "split_comma cur [] = [rev cur]"
| "split_comma cur (c # cs) =
     (if c = CHR '','' then rev cur # split_comma [] cs else split_comma (c # cur) cs)"

section \<open>Width and format policy\<close>

text \<open>
  An entry of \<open>options.widths\<close>: a falsy value (\<open>null\<close>, \<open>undefined\<close>), the string
  \<open>"auto"\<close>, or an integer (\<open>WNum n\<close> also stands for a numeric string that
  \<open>parseInt(_, 10)\<close> reads as \<open>n\<close>). The number \<open>0\<close> is falsy.
\<close>

datatype width_req = WNull | WAuto | WNum int

fun width_or_original :: "int \<Rightarrow> width_req \<Rightarrow> int" where
  "width_or_original originalWidth WNull = originalWidth"
| "width_or_original originalWidth WAuto = originalWidth"
| "width_or_original originalWidth (WNum n) = (if n = 0 then originalWidth else n)"

text \<open>
  A JavaScript number is a double. The model keeps the value of a finite double as a
  rational, and \<open>double_round\<close> is the rounding that an arithmetic operation applies to
  its exact result: to the nearest double, a tie to the even significand, with 53
  significant bits from \<open>2^-1022\<close> on and the multiples of \<open>2^-1074\<close> below. The
  numeric literal \<open>1.15\<close> is \<open>double_round (115 / 100)\<close>; \<open>1.25\<close> is \<open>5 / 4\<close> itself.
  The exponent has no upper bound here: where JavaScript has \<open>Infinity\<close> the model has a
  rational of magnitude \<open>2^1024\<close> or more, and a comparison with a finite number, the one
  use made of it below, comes out the same.
\<close>

fun floor_log2 :: "nat \<Rightarrow> nat" where
  "floor_log2 n = (if n < 2 then 0 else Suc (floor_log2 (n div 2)))"

declare floor_log2.simps [simp del]

text \<open>The exponent \<open>e\<close> of a positive rational: \<open>2^e \<le> a < 2^(e + 1)\<close>.\<close>

definition binary_exponent :: "rat \<Rightarrow> int" where
  "binary_exponent a =
     (if a \<ge> 1 then int (floor_log2 (nat \<lfloor>a\<rfloor>))
      else (let k = floor_log2 (nat \<lfloor>1 / a\<rfloor>)
            in if a * 2 ^ k = 1 then - int k else - int k - 1))"

definition pow2 :: "int \<Rightarrow> rat" where
  "pow2 k = (if k \<ge> 0 then 2 ^ nat k else 1 / 2 ^ nat (- k))"

definition round_half_even :: "rat \<Rightarrow> int" where
  "round_half_even q =
     (let n = \<lfloor>q\<rfloor>; r = q - of_int n
      in if r < 1 / 2 then n else if r > 1 / 2 then n + 1 else if even n then n else n + 1)"

definition double_round :: "rat \<Rightarrow> rat" where
  "double_round v =
     (if v = 0 then 0
      else let ulp = pow2 (max (binary_exponent \<bar>v\<bar>) (- 1022) - 52)
           in sgn v * of_int (round_half_even (\<bar>v\<bar> / ulp)) * ulp)"

text \<open>
  The callback of the \<open>map\<close> over the sorted widths in \<open>getValidWidths\<close>, with the
  flag \<open>lastWidthWasBigEnough\<close> it captures and updates. A width is an integer (the
  result of \<open>parseInt\<close>, below \<open>2^53\<close>), \<open>minimumThreshold\<close> is a double, and
  \<open>width * minimumThreshold\<close> is their product rounded to a double.
\<close>

fun clamp_widths :: "int \<Rightarrow> rat \<Rightarrow> bool \<Rightarrow> int list \<Rightarrow> int list" where
  "clamp_widths originalWidth minimumThreshold lastWidthWasBigEnough [] = []"
| "clamp_widths originalWidth minimumThreshold lastWidthWasBigEnough (width # rest) =
     (if width > originalWidth
      then (if lastWidthWasBigEnough then originalWidth else -1)
             # clamp_widths originalWidth minimumThreshold lastWidthWasBigEnough rest
      else width # clamp_widths originalWidth minimumThreshold
             (originalWidth > \<lfloor>double_round (of_int width * minimumThreshold)\<rfloor>) rest)"

definition getValidWidths :: "int \<Rightarrow> width_req list \<Rightarrow> bool \<Rightarrow> rat \<Rightarrow> int list" where
  "getValidWidths originalWidth widths allowUpscale minimumThreshold =
     (let valid = map (width_or_original originalWidth) widths;
          valid = (if \<not> allowUpscale
                   then filter (\<lambda>width. width > 0)
                          (clamp_widths originalWidth minimumThreshold True
                             (js_sort (\<lambda>a b. a - b) valid))
                   else valid);
          valid = new_Set valid
      in js_sort (\<lambda>a b. a - b) valid)"

text \<open>
  A format entry is a string or a falsy value: \<open>None\<close> is \<open>null\<close>/\<open>undefined\<close>, and the
  empty string is falsy too.
\<close>

type_synonym format_req = "string option"

definition falsy_format :: "format_req \<Rightarrow> bool" where
  "falsy_format f = (f = None \<or> f = Some [])"

definition FORMAT_ALIASES :: "string \<Rightarrow> string option" where
  "FORMAT_ALIASES f =
     (if f = ''jpg'' then Some ''jpeg'' else if f = ''svg+xml'' then Some ''svg'' else None)"

definition MIME_TYPES :: "string \<Rightarrow> string option" where
  "MIME_TYPES f =
     (if f = ''jpeg'' then Some ''image/jpeg''
      else if f = ''webp'' then Some ''image/webp''
      else if f = ''png'' then Some ''image/png''
      else if f = ''svg'' then Some ''image/svg+xml''
      else if f = ''avif'' then Some ''image/avif''
      else if f = ''gif'' then Some ''image/gif''
      else None)"

text \<open>The value of \<open>options.svgShortCircuit\<close>: \<open>false\<close>, \<open>true\<close> or \<open>"size"\<close>.\<close>

datatype svg_mode = SvgFalse | SvgTrue | SvgSize

text \<open>The value of \<open>options.formats\<close>: an array, a comma separated string, or nothing.\<close>

datatype formats_arg = FormatsNone | FormatsString string | FormatsArray "format_req list"

definition resolve_format :: "format_req \<Rightarrow> format_req \<Rightarrow> format_req" where
  "resolve_format autoFormat format =
     (let format = (if \<not> falsy_format autoFormat \<and> (falsy_format format \<or> format = Some ''auto'')
                    then autoFormat else format)
      in case format of
           None \<Rightarrow> None
         | Some f \<Rightarrow> (case FORMAT_ALIASES f of Some a \<Rightarrow> Some a | None \<Rightarrow> Some f))"

definition svg_first :: "format_req \<Rightarrow> format_req \<Rightarrow> int" where
  "svg_first a b = (if a = Some ''svg'' then -1 else if b = Some ''svg'' then 1 else 0)"

definition getFormatsArray :: "formats_arg \<Rightarrow> format_req \<Rightarrow> svg_mode \<Rightarrow> format_req list" where
  "getFormatsArray formats autoFormat svgShortCircuit =
     (let entries = (case formats of
                       FormatsNone \<Rightarrow> []
                     | FormatsString s \<Rightarrow> (if s = [] then [] else map Some (split_comma [] s))
                     | FormatsArray fs \<Rightarrow> fs)
      in if entries = [] then []
         else let formats = map (resolve_format autoFormat) entries;
                  formats = (if svgShortCircuit \<noteq> SvgSize then js_sort svg_first formats
                             else formats)
              in new_Set formats)"

section \<open>Values, stats and options\<close>

text \<open>
  A JavaScript value as far as \<open>JSON.stringify\<close> tells values apart. \<open>JFun\<close> is any
  function. An object is the list of its own enumerable properties in insertion order;
  inherited properties and array-index keys (which an object enumerates first) are not
  modelled.
\<close>

datatype json =
    JUndefined | JNull | JBool bool | JNum rat | JStr string
  | JArr "json list" | JObj "(string \<times> json) list" | JFun

type_synonym 'a object = "(string \<times> 'a) list"

definition obj_get :: "'a object \<Rightarrow> string \<Rightarrow> 'a option" where
  "obj_get obj key = map_of obj key"

fun obj_set :: "'a object \<Rightarrow> string \<Rightarrow> 'a \<Rightarrow> 'a object" where
  "obj_set [] key v = [(key, v)]"
| "obj_set ((k, w) # rest) key v =
     (if k = key then (k, v) # rest else (k, w) # obj_set rest key v)"

definition object_keys :: "'a object \<Rightarrow> string list" where
  "object_keys obj = map fst obj"

datatype error =
    SrcRequired | StatsSyncRemote | AutoFormatNotSupported | RemoteImageMetadataRequired
  | TypeError | External string

text \<open>The image source: a string (a file path or a URL) or a \<open>Buffer\<close> of bytes.\<close>

datatype source = SrcString string | SrcBuffer string

text \<open>What \<open>getFileContents\<close> returns: \<open>false\<close> for a remote source, or the bytes.\<close>

datatype contents = NoContents | Bytes string

record metadata =
  mwidth :: int
  mheight :: int
  mformat :: "string option"
  orientation :: "int option"
  pageHeight :: "int option"
  msize :: "nat option"

text \<open>
  One output descriptor. \<open>height\<close> is \<open>None\<close> where \<open>Math.floor\<close> has no integer to
  return (a source width of 0); the optional properties are \<open>None\<close> when absent.
\<close>

record stat =
  format :: string
  width :: int
  height :: "int option"
  url :: string
  sourceType :: "string option"
  srcset :: string
  stat_size :: "nat option"
  filename :: "string option"
  outputPath :: "string option"
  buffer :: "contents option"

text \<open>
  A \<open>sharp\<close> instance: the input it was built from, the constructor options, and the
  operations requested on it. The codec itself is outside the module.
\<close>

record sharp_instance =
  sharp_input :: source
  sharp_options :: json
  rotate :: bool
  resize_to :: "(int \<times> bool) option"
  toFormat :: "(string \<times> json) option"

type_synonym files = "string \<rightharpoonup> string"

type_synonym format_hook = "stat \<Rightarrow> sharp_instance \<Rightarrow> files \<Rightarrow> error + string"

record remote_metadata =
  rwidth :: "int option"
  rheight :: "int option"
  rformat :: "string option"

text \<open>
  The merged options of one image (\<open>Object.assign({}, globalOptions, options)\<close>). The
  sharp option objects are object literals, as \<open>getHash\<close> assumes, or a falsy value
  (\<open>None\<close>). The function valued options are HOL functions; the options object that \<open>urlFormat\<close> and
  \<open>filenameFormat\<close> receive as their last argument is left to the function itself.
  \<open>extra\<close> holds the properties the module does not know.
\<close>

record options =
  widths :: "width_req list"
  formats :: formats_arg
  concurrency :: int
  urlPath :: string
  outputDir :: string
  svgShortCircuit :: svg_mode
  svgAllowUpscale :: bool
  svgCompressionSize :: string
  overrideInputFormat :: "string option"
  sharpOptions :: "json object option"
  sharpWebpOptions :: "json object option"
  sharpPngOptions :: "json object option"
  sharpJpegOptions :: "json object option"
  sharpAvifOptions :: "json object option"
  sharpHook :: "(sharp_instance \<Rightarrow> sharp_instance) option"
  extensions :: "string object"
  formatHooks :: "format_hook object"
  cacheDuration :: string
  cacheOptions :: "json object"
  filenameFormat :: "(string \<Rightarrow> source \<Rightarrow> int \<Rightarrow> string \<Rightarrow> string) option"
  urlFormat :: "(string option \<Rightarrow> source \<Rightarrow> int \<Rightarrow> string \<Rightarrow> string) option"
  statsOnly :: bool
  remoteImageMetadata :: "remote_metadata option"
  useCache :: bool
  dryRun :: bool
  hashLength :: int
  fixOrientation :: bool
  useCacheValidityInHash :: bool
  minimumThreshold :: rat
  extra :: "json object"

text \<open>
  Modelled from the spec: the built-in svg format hook (\<open>src/format-hooks/svg.js\<close>) is
  not among the sources. The spec says a registered format hook is used out of the box
  only for SVG re-serialization: the hook returns the bytes of the SVG input, read from
  disk when the input is a path.
\<close>

definition svgHook :: format_hook where
  "svgHook st sharpInstance fs =
     (case sharp_input sharpInstance of
        SrcBuffer b \<Rightarrow> Inr b
      | SrcString p \<Rightarrow> (case fs p of None \<Rightarrow> Inl (External ''ENOENT'') | Some b \<Rightarrow> Inr b))"

definition globalOptions :: options where
  "globalOptions = \<lparr>
     widths = [WNull],
     formats = FormatsArray [Some ''webp'', Some ''jpeg''],
     concurrency = 10,
     urlPath = ''/img/'',
     outputDir = ''img/'',
     svgShortCircuit = SvgFalse,
     svgAllowUpscale = True,
     svgCompressionSize = [],
     overrideInputFormat = None,
     sharpOptions = Some [],
     sharpWebpOptions = Some [],
     sharpPngOptions = Some [],
     sharpJpegOptions = Some [],
     sharpAvifOptions = Some [],
     sharpHook = None,
     extensions = [],
     formatHooks = [(''svg'', svgHook)],
     cacheDuration = ''1d'',
     cacheOptions = [],
     filenameFormat = None,
     urlFormat = None,
     statsOnly = False,
     remoteImageMetadata = Some \<lparr>rwidth = None, rheight = None, rformat = None\<rparr>,
     useCache = True,
     dryRun = False,
     hashLength = 10,
     fixOrientation = False,
     useCacheValidityInHash = True,
     minimumThreshold = 5 / 4,
     extra = []\<rparr>"

section \<open>Grouping the stats by format\<close>

type_synonym plan = "stat list object"

fun init_byType :: "format_req list \<Rightarrow> plan \<Rightarrow> plan" where
  "init_byType [] byType = byType"
| "init_byType (f # fs) byType =
     (case f of
        None \<Rightarrow> init_byType fs byType
      | Some fmt \<Rightarrow>
          (if fmt \<noteq> [] \<and> fmt \<noteq> ''auto'' then init_byType fs (obj_set byType fmt [])
           else init_byType fs byType))"

fun push_files :: "stat list \<Rightarrow> plan \<Rightarrow> plan" where
  "push_files [] byType = byType"
| "push_files (file # rest) byType =
     (let byType = (if obj_get byType (format file) = None
                    then obj_set byType (format file) [] else byType)
      in push_files rest
           (obj_set byType (format file) (the (obj_get byType (format file)) @ [file])))"

definition sort_by_width :: "plan \<Rightarrow> plan" where
  "sort_by_width byType =
     map (\<lambda>(type, entries). (type, js_sort (\<lambda>a b. width a - width b) entries)) byType"

definition grouped :: "stat list \<Rightarrow> format_req list \<Rightarrow> plan" where
  "grouped files fmts = sort_by_width (push_files files (init_byType fmts []))"

text \<open>\<open>entry.size > svgSize\<close>; a stat without a size does not compare greater.\<close>

definition larger_than :: "stat \<Rightarrow> nat \<Rightarrow> bool" where
  "larger_than entry svgSize = (case stat_size entry of None \<Rightarrow> False | Some n \<Rightarrow> n > svgSize)"

text \<open>
  \<open>svgEntry && svgEntry.length && svgEntry[0].size\<close>, when truthy: the first svg stat
  and its size, which is then not 0.
\<close>

definition svg_entry_size :: "plan \<Rightarrow> (stat \<times> nat) option" where
  "svg_entry_size byType =
     (case obj_get byType ''svg'' of
        None \<Rightarrow> None
      | Some [] \<Rightarrow> None
      | Some (svg0 # _) \<Rightarrow>
          (case stat_size svg0 of
             None \<Rightarrow> None
           | Some n \<Rightarrow> (if n = 0 then None else Some (svg0, n))))"

text \<open>
  The callback of the \<open>map\<close> over one raster group, with the flags \<open>svgAdded\<close> and
  \<open>originalFormatKept\<close> it captures; \<open>None\<close> is the \<open>false\<close> it returns for a dropped
  entry.
\<close>

fun replace_large :: "stat \<Rightarrow> nat \<Rightarrow> bool \<Rightarrow> bool \<Rightarrow> stat list \<Rightarrow> stat option list" where
  "replace_large svg0 svgSize svgAdded originalFormatKept [] = []"
| "replace_large svg0 svgSize svgAdded originalFormatKept (entry # rest) =
     (if larger_than entry svgSize
      then (if \<not> svgAdded
            then (if originalFormatKept then Some svg0 else None)
                   # replace_large svg0 svgSize True originalFormatKept rest
            else None # replace_large svg0 svgSize svgAdded originalFormatKept rest)
      else Some entry # replace_large svg0 svgSize svgAdded True rest)"

fun truthy_entries :: "'a option list \<Rightarrow> 'a list" where
  "truthy_entries [] = []"
| "truthy_entries (None # rest) = truthy_entries rest"
| "truthy_entries (Some e # rest) = e # truthy_entries rest"

definition filter_group :: "stat \<Rightarrow> nat \<Rightarrow> stat list \<Rightarrow> stat list" where
  "filter_group svg0 svgSize entries =
     truthy_entries (replace_large svg0 svgSize False False entries)"

definition transformRawFiles :: "options \<Rightarrow> stat list \<Rightarrow> format_req list \<Rightarrow> plan" where
  "transformRawFiles opts files fmts =
     (let byType = grouped files fmts;
          filterLargeRasterImages = (svgShortCircuit opts = SvgSize)
      in case svg_entry_size byType of
           None \<Rightarrow> byType
         | Some (svg0, svgSize) \<Rightarrow>
             (if filterLargeRasterImages
              then map (\<lambda>(type, entries).
                          if type = ''svg'' then (type, entries)
                          else (type, filter_group svg0 svgSize entries)) byType
              else byType))"

section \<open>Sorted objects and JSON text\<close>

text \<open>
  \<open>Array.prototype.sort()\<close> without a comparator orders strings by their code units.
\<close>

fun str_less :: "string \<Rightarrow> string \<Rightarrow> bool" where
  "str_less [] [] = False"
| "str_less [] (y # ys) = True"
| "str_less (x # xs) [] = False"
| "str_less (x # xs) (y # ys) =
     ((of_char x :: nat) < of_char y \<or> (x = y \<and> str_less xs ys))"

definition str_compare :: "string \<Rightarrow> string \<Rightarrow> int" where
  "str_compare a b = (if str_less a b then -1 else if str_less b a then 1 else 0)"

text \<open>\<open>Util.getSortedObject\<close>: a new object with the same properties, keys sorted.\<close>

definition getSortedObject :: "'a object \<Rightarrow> 'a object" where
  "getSortedObject unordered =
     (let keys = js_sort str_compare (object_keys unordered)
      in fold (\<lambda>key obj. case obj_get unordered key of
                             None \<Rightarrow> obj
                           | Some v \<Rightarrow> obj_set obj key v) keys [])"

fun nat_digits :: "nat \<Rightarrow> string" where
  "nat_digits n =
     (if n < 10 then [''0123456789'' ! n]
      else nat_digits (n div 10) @ [''0123456789'' ! (n mod 10)])"

definition int_toString :: "int \<Rightarrow> string" where
  "int_toString i = (if i < 0 then CHR ''-'' # nat_digits (nat (- i)) else nat_digits (nat i))"

fun frac_digits :: "nat \<Rightarrow> rat \<Rightarrow> string" where
  "frac_digits 0 r = []"
| "frac_digits (Suc k) r =
     (if r = 0 then []
      else nat_digits (nat \<lfloor>r * 10\<rfloor>) @ frac_digits k (r * 10 - of_int \<lfloor>r * 10\<rfloor>))"

text \<open>
  \<open>Number.prototype.toString\<close>, exact for integers and for decimals that end within
  twenty places (such as \<open>1.25\<close>); exponent notation is not modelled.
\<close>

definition number_toString :: "rat \<Rightarrow> string" where
  "number_toString r =
     (let a = \<bar>r\<bar>; whole = \<lfloor>a\<rfloor>; part = a - of_int whole
      in (if r < 0 then ''-'' else []) @ nat_digits (nat whole)
         @ (if part = 0 then [] else CHR ''.'' # frac_digits 20 part))"

definition json_escape :: "char \<Rightarrow> string" where
  "json_escape c =
     (let n = (of_char c :: nat)
      in if n = 0x22 then [CHR 0x5C, CHR 0x22]
         else if n = 0x5C then [CHR 0x5C, CHR 0x5C]
         else if n = 0x08 then [CHR 0x5C, CHR ''b'']
         else if n = 0x09 then [CHR 0x5C, CHR ''t'']
         else if n = 0x0A then [CHR 0x5C, CHR ''n'']
         else if n = 0x0C then [CHR 0x5C, CHR ''f'']
         else if n = 0x0D then [CHR 0x5C, CHR ''r'']
         else if n < 0x20
           then [CHR 0x5C, CHR ''u'', CHR ''0'', CHR ''0'',
                 ''0123456789abcdef'' ! (n div 16), ''0123456789abcdef'' ! (n mod 16)]
         else [c])"

definition json_quote :: "string \<Rightarrow> string" where
  "json_quote s = CHR 0x22 # concat (map json_escape s) @ [CHR 0x22]"

fun join_with :: "string \<Rightarrow> string list \<Rightarrow> string" where
  "join_with sep [] = []"
| "join_with sep [s] = s"
| "join_with sep (s # t # rest) = s @ sep @ join_with sep (t # rest)"

text \<open>
  \<open>JSON.stringify\<close>. A property whose value is \<open>undefined\<close> or a function is left out
  of an object; such an element of an array is written \<open>null\<close>. The module only ever
  serializes objects; for a top level \<open>undefined\<close> or function, where JavaScript returns
  \<open>undefined\<close>, the text is empty here.
\<close>

fun stringify :: "json \<Rightarrow> string"
  and stringify_elements :: "json list \<Rightarrow> string list"
  and stringify_properties :: "(string \<times> json) list \<Rightarrow> string list" where
  "stringify JUndefined = []"
| "stringify JFun = []"
| "stringify JNull = ''null''"
| "stringify (JBool b) = (if b then ''true'' else ''false'')"
| "stringify (JNum r) = number_toString r"
| "stringify (JStr s) = json_quote s"
| "stringify (JArr elements) = ''['' @ join_with '','' (stringify_elements elements) @ '']''"
| "stringify (JObj properties) =
     ''{'' @ join_with '','' (stringify_properties properties) @ ''}''"
| "stringify_elements [] = []"
| "stringify_elements (v # rest) =
     (if v = JUndefined \<or> v = JFun then ''null'' else stringify v) # stringify_elements rest"
| "stringify_properties [] = []"
| "stringify_properties ((key, v) # rest) =
     (if v = JUndefined \<or> v = JFun then stringify_properties rest
      else (json_quote key @ '':'' @ stringify v) # stringify_properties rest)"

section \<open>The environment of an image\<close>

text \<open>
  The collaborators outside the module, as functions: the SHA-256 digest in base64 of
  the text given to \<open>hash.update\<close>, the \<open>URL\<close> parser (the protocol of a string that
  parses, \<open>None\<close> when the constructor throws), Node's \<open>path\<close>, the remote asset cache,
  \<open>image-size\<close>, \<open>sharp\<close> (the metadata probe and the encoder) and \<open>brotli-size\<close>.
  \<open>can_write\<close> says whether \<open>mkdir\<close> and a write at a path succeed, and
  \<open>Buffer_toString\<close> is the UTF-8 decoder of \<open>Buffer.prototype.toString\<close>.
\<close>

record ext =
  sha256_base64 :: "string \<Rightarrow> string"
  url_protocol :: "string \<Rightarrow> string option"
  path_join :: "string \<Rightarrow> string \<Rightarrow> string"
  path_dirname :: "string \<Rightarrow> string"
  path_sep :: char
  isCacheValid :: "string \<Rightarrow> json \<Rightarrow> bool"
  fetch :: "string \<Rightarrow> error + string"
  getImageSize :: "files \<Rightarrow> source \<Rightarrow> error + (int \<times> int \<times> string option)"
  sharp_metadata :: "files \<Rightarrow> source \<Rightarrow> json \<Rightarrow> error + metadata"
  sharp_output :: "files \<Rightarrow> sharp_instance \<Rightarrow> error + string"
  brotliSize :: "string \<Rightarrow> nat"
  can_write :: "string \<Rightarrow> bool"
  Buffer_toString :: "string \<Rightarrow> string"

fun startsWith :: "string \<Rightarrow> string \<Rightarrow> bool" where
  "startsWith s [] = True"
| "startsWith [] (p # ps) = False"
| "startsWith (c # cs) (p # ps) = (c = p \<and> startsWith cs ps)"

definition Util_isRemoteUrl :: "ext \<Rightarrow> string \<Rightarrow> bool" where
  "Util_isRemoteUrl x u =
     (case url_protocol x u of
        None \<Rightarrow> False
      | Some protocol \<Rightarrow> startsWith protocol ''https:'' \<or> startsWith protocol ''http:'')"

text \<open>
  An \<open>Image\<close> object. \<open>img_cacheOptions\<close> is set for a remote source only, together
  with the asset cache; \<open>computedHash\<close> and \<open>contents_memo\<close> (\<open>_contents\<close>) are the
  two values the object memoizes.
\<close>

record image =
  src :: source
  isRemoteUrl :: bool
  options :: options
  img_cacheOptions :: "json object option"
  computedHash :: "string option"
  contents_memo :: "string option"

definition object_assign :: "'a object \<Rightarrow> 'a object \<Rightarrow> 'a object" where
  "object_assign target from = fold (\<lambda>(key, v) obj. obj_set obj key v) from target"

definition new_Image :: "ext \<Rightarrow> source \<Rightarrow> options \<Rightarrow> error + image" where
  "new_Image x source opts =
     (if source = SrcString [] then Inl SrcRequired
      else let remote = (case source of SrcString s \<Rightarrow> Util_isRemoteUrl x s
                                      | SrcBuffer b \<Rightarrow> False)
           in Inr \<lparr>src = source, isRemoteUrl = remote, options = opts,
                   img_cacheOptions =
                     (if remote
                      then Some (object_assign
                                   [(''duration'', JStr (cacheDuration opts)),
                                    (''dryRun'', JBool (dryRun opts)),
                                    (''type'', JStr ''buffer'')]
                                   (cacheOptions opts))
                      else None),
                   computedHash = None, contents_memo = None\<rparr>)"

definition cache_duration :: "image \<Rightarrow> json" where
  "cache_duration img =
     (case img_cacheOptions img of
        None \<Rightarrow> JUndefined
      | Some co \<Rightarrow> (case obj_get co ''duration'' of None \<Rightarrow> JUndefined | Some d \<Rightarrow> d))"

text \<open>The string a source is when it is used as a path or as text.\<close>

fun source_text :: "source \<Rightarrow> string" where
  "source_text (SrcString s) = s"
| "source_text (SrcBuffer b) = b"

text \<open>\<open>fs.existsSync\<close>; a \<open>Buffer\<close> argument is read as a path.\<close>

definition existsSync :: "files \<Rightarrow> string \<Rightarrow> bool" where
  "existsSync fs p = (fs p \<noteq> None)"

definition getFileContents :: "files \<Rightarrow> image \<Rightarrow> error + (contents \<times> image)" where
  "getFileContents fs img =
     (if isRemoteUrl img then Inr (NoContents, img)
      else let img = (case src img of
                        SrcBuffer b \<Rightarrow> img\<lparr>contents_memo := Some b\<rparr>
                      | SrcString s \<Rightarrow> img)
           in case contents_memo img of
                Some c \<Rightarrow> Inr (Bytes c, img)
              | None \<Rightarrow>
                  (case fs (source_text (src img)) of
                     None \<Rightarrow> Inl (External ''ENOENT'')
                   | Some c \<Rightarrow> Inr (Bytes c, img\<lparr>contents_memo := Some c\<rparr>)))"

text \<open>
  A JavaScript string is kept as the bytes of its UTF-8 encoding, so that text and the
  contents of a \<open>Buffer\<close> are both lists of bytes. \<open>Buffer_toString\<close> of the
  environment is \<open>buffer.toString()\<close> in this representation: the identity on
  well-formed UTF-8, with U+FFFD in the place of every ill-formed sequence.

  \<open>String.prototype.trim\<close> removes the white space and the line terminators of
  ECMAScript from both ends: U+0009 to U+000D, U+0020, U+00A0, U+1680, U+2000 to U+200A,
  U+2028, U+2029, U+202F, U+205F, U+3000 and U+FEFF. \<open>is_white\<close> recognises the UTF-8
  encoding of one of them; in well-formed UTF-8 such a sequence of bytes at either end of
  the text is that character.
\<close>

definition is_white :: "string \<Rightarrow> bool" where
  "is_white w =
     (case map of_char w :: nat list of
        [a] \<Rightarrow> a \<in> {0x09, 0x0A, 0x0B, 0x0C, 0x0D, 0x20}
      | [a, b] \<Rightarrow> a = 0xC2 \<and> b = 0xA0
      | [a, b, c] \<Rightarrow>
          (a = 0xE1 \<and> b = 0x9A \<and> c = 0x80)
          \<or> (a = 0xE2 \<and> b = 0x80 \<and> ((0x80 \<le> c \<and> c \<le> 0x8A) \<or> c \<in> {0xA8, 0xA9, 0xAF}))
          \<or> (a = 0xE2 \<and> b = 0x81 \<and> c = 0x9F)
          \<or> (a = 0xE3 \<and> b = 0x80 \<and> c = 0x80)
          \<or> (a = 0xEF \<and> b = 0xBB \<and> c = 0xBF)
      | _ \<Rightarrow> False)"

fun drop_white :: "(string \<Rightarrow> bool) \<Rightarrow> string \<Rightarrow> string" where
  "drop_white white (a # b # c # s) =
     (if white [a] then drop_white white (b # c # s)
      else if white [a, b] then drop_white white (c # s)
      else if white [a, b, c] then drop_white white s
      else a # b # c # s)"
| "drop_white white [a, b] =
     (if white [a] then drop_white white [b] else if white [a, b] then [] else [a, b])"
| "drop_white white [a] = (if white [a] then [] else [a])"
| "drop_white white [] = []"

definition trim :: "string \<Rightarrow> string" where
  "trim s = rev (drop_white (\<lambda>w. is_white (rev w)) (rev (drop_white is_white s)))"

text \<open>The sharp option objects that enter the hash, with a truthy value, keys sorted.\<close>

definition hashObject :: "options \<Rightarrow> json" where
  "hashObject opts =
     JObj (concat (map (\<lambda>(key, v). case v of None \<Rightarrow> []
                                     | Some obj \<Rightarrow> [(key, JObj (getSortedObject obj))])
       [(''sharpAvifOptions'', sharpAvifOptions opts),
        (''sharpJpegOptions'', sharpJpegOptions opts),
        (''sharpOptions'', sharpOptions opts),
        (''sharpPngOptions'', sharpPngOptions opts),
        (''sharpWebpOptions'', sharpWebpOptions opts)]))"

definition url_safe :: "string \<Rightarrow> string" where
  "url_safe base64hash =
     map (\<lambda>c. if c = CHR ''/'' then CHR ''_'' else c)
       (map (\<lambda>c. if c = CHR ''+'' then CHR ''-'' else c)
          (filter (\<lambda>c. c \<noteq> CHR ''='') base64hash))"

text \<open>
  The contents of a file as \<open>getHash\<close> hashes them: text that starts, white space
  apart, with \<open><svg\<close> and a space or with \<open><?xml\<close> is hashed as text without its line
  breaks, and everything else as the bytes it is. \<open>slice(0, 5)\<close> is compared with
  five ASCII characters, which are five bytes, so the first five bytes are compared here.
\<close>

definition svg_without_newlines :: "ext \<Rightarrow> string \<Rightarrow> string" where
  "svg_without_newlines x fileContents =
     (let fileContentsStr = Buffer_toString x fileContents;
          firstFour = take 5 (trim fileContentsStr)
      in if firstFour = ''<svg '' \<or> firstFour = ''<?xml''
         then filter (\<lambda>c. c \<noteq> CHR 0x0D \<and> c \<noteq> CHR 0x0A) fileContentsStr
         else fileContents)"

text \<open>
  What is given to \<open>hash.update\<close> for the source: the file's contents (an SVG's without
  its line breaks) when the source exists on disk, else the source itself and, for a
  remote source, the validity of its cached copy. A remote source that also exists as a
  path has the contents \<open>false\<close>, which \<open>hash.update\<close> refuses.
\<close>

definition hash_input :: "ext \<Rightarrow> files \<Rightarrow> image \<Rightarrow> error + (string \<times> image)" where
  "hash_input x fs img =
     (if existsSync fs (source_text (src img))
      then (case getFileContents fs img of
              Inl e \<Rightarrow> Inl e
            | Inr (NoContents, img) \<Rightarrow> Inl TypeError
            | Inr (Bytes fileContents, img) \<Rightarrow>
                Inr (svg_without_newlines x fileContents, img))
      else Inr (source_text (src img)
                @ (if useCacheValidityInHash (options img) \<and> isRemoteUrl img
                      \<and> img_cacheOptions img \<noteq> None
                   then ''ValidCache:''
                        @ (if isCacheValid x (source_text (src img)) (cache_duration img)
                           then ''true'' else ''false'')
                   else []), img))"

definition getHash :: "ext \<Rightarrow> files \<Rightarrow> image \<Rightarrow> error + (string \<times> image)" where
  "getHash x fs img =
     (if computedHash img \<noteq> None \<and> computedHash img \<noteq> Some []
      then Inr (the (computedHash img), img)
      else case hash_input x fs img of
             Inl e \<Rightarrow> Inl e
           | Inr (updated, img) \<Rightarrow>
               (let base64hash = url_safe (sha256_base64 x
                                    (updated @ stringify (hashObject (options img))));
                    resultHash = take (nat (hashLength (options img))) base64hash
                in Inr (resultHash, img\<lparr>computedHash := Some resultHash\<rparr>)))"

text \<open>The exported \<open>getHash(src, options)\<close>: the hash of a new image.\<close>

definition exports_getHash :: "ext \<Rightarrow> files \<Rightarrow> source \<Rightarrow> options \<Rightarrow> error + string" where
  "exports_getHash x fs source opts =
     (case new_Image x source opts of
        Inl e \<Rightarrow> Inl e
      | Inr img \<Rightarrow> (case getHash x fs img of Inl e \<Rightarrow> Inl e | Inr (h, img) \<Rightarrow> Inr h))"

section \<open>The key of the in-memory cache\<close>

text \<open>
  The options object as \<open>JSON.stringify\<close> sees it: every property of the merged
  options with its value; a function is \<open>JFun\<close> whatever it computes.
\<close>

definition width_json :: "width_req \<Rightarrow> json" where
  "width_json w = (case w of WNull \<Rightarrow> JNull | WAuto \<Rightarrow> JStr ''auto'' | WNum n \<Rightarrow> JNum (of_int n))"

definition format_json :: "format_req \<Rightarrow> json" where
  "format_json f = (case f of None \<Rightarrow> JNull | Some s \<Rightarrow> JStr s)"

definition optional_json :: "'a option \<Rightarrow> ('a \<Rightarrow> json) \<Rightarrow> json" where
  "optional_json v f = (case v of None \<Rightarrow> JNull | Some a \<Rightarrow> f a)"

definition optional_property :: "string \<Rightarrow> 'a option \<Rightarrow> ('a \<Rightarrow> json) \<Rightarrow> json object" where
  "optional_property key v f = (case v of None \<Rightarrow> [] | Some a \<Rightarrow> [(key, f a)])"

definition options_object :: "options \<Rightarrow> json object" where
  "options_object opts =
     [(''widths'', JArr (map width_json (widths opts))),
      (''formats'', (case formats opts of
                       FormatsNone \<Rightarrow> JNull
                     | FormatsString s \<Rightarrow> JStr s
                     | FormatsArray fs \<Rightarrow> JArr (map format_json fs))),
      (''concurrency'', JNum (of_int (concurrency opts))),
      (''urlPath'', JStr (urlPath opts)),
      (''outputDir'', JStr (outputDir opts)),
      (''svgShortCircuit'', (case svgShortCircuit opts of
                               SvgFalse \<Rightarrow> JBool False
                             | SvgTrue \<Rightarrow> JBool True
                             | SvgSize \<Rightarrow> JStr ''size'')),
      (''svgAllowUpscale'', JBool (svgAllowUpscale opts)),
      (''svgCompressionSize'', JStr (svgCompressionSize opts)),
      (''sharpOptions'', optional_json (sharpOptions opts) JObj),
      (''sharpWebpOptions'', optional_json (sharpWebpOptions opts) JObj),
      (''sharpPngOptions'', optional_json (sharpPngOptions opts) JObj),
      (''sharpJpegOptions'', optional_json (sharpJpegOptions opts) JObj),
      (''sharpAvifOptions'', optional_json (sharpAvifOptions opts) JObj),
      (''sharpHook'', optional_json (sharpHook opts) (\<lambda>f. JFun)),
      (''extensions'', JObj (map (\<lambda>(key, e). (key, JStr e)) (extensions opts))),
      (''formatHooks'', JObj (map (\<lambda>(key, hook). (key, JFun)) (formatHooks opts))),
      (''cacheDuration'', JStr (cacheDuration opts)),
      (''cacheOptions'', JObj (cacheOptions opts)),
      (''filenameFormat'', optional_json (filenameFormat opts) (\<lambda>f. JFun)),
      (''urlFormat'', optional_json (urlFormat opts) (\<lambda>f. JFun)),
      (''statsOnly'', JBool (statsOnly opts)),
      (''remoteImageMetadata'',
         optional_json (remoteImageMetadata opts)
           (\<lambda>m. JObj (optional_property ''width'' (rwidth m) (\<lambda>n. JNum (of_int n))
                       @ optional_property ''height'' (rheight m) (\<lambda>n. JNum (of_int n))
                       @ optional_property ''format'' (rformat m) JStr))),
      (''useCache'', JBool (useCache opts)),
      (''dryRun'', JBool (dryRun opts)),
      (''hashLength'', JNum (of_int (hashLength opts))),
      (''fixOrientation'', JBool (fixOrientation opts)),
      (''useCacheValidityInHash'', JBool (useCacheValidityInHash opts)),
      (''minimumThreshold'', JNum (minimumThreshold opts))]
     @ optional_property ''overrideInputFormat'' (overrideInputFormat opts) JStr
     @ extra opts"

text \<open>A \<open>Buffer\<close> serializes through its \<open>toJSON\<close>, a string as itself.\<close>

definition source_json :: "source \<Rightarrow> json" where
  "source_json source =
     (case source of
        SrcString s \<Rightarrow> JStr s
      | SrcBuffer b \<Rightarrow>
          JObj [(''type'', JStr ''Buffer''),
                (''data'', JArr (map (\<lambda>c. JNum (of_nat (of_char c))) b))])"

definition getInMemoryCacheKey :: "ext \<Rightarrow> files \<Rightarrow> image \<Rightarrow> error + string" where
  "getInMemoryCacheKey x fs img =
     (let opts = getSortedObject (options_object (options img));
          opts = obj_set opts ''__originalSrc'' (source_json (src img))
      in if isRemoteUrl img
         then (let opts = obj_set opts ''sourceUrl'' (source_json (src img));
                   opts = (if img_cacheOptions img \<noteq> None
                           then obj_set opts ''__validAssetCache''
                                  (JBool (isCacheValid x (source_text (src img))
                                            (cache_duration img)))
                           else opts)
               in Inr (stringify (JObj opts)))
         else (case src img of
                 SrcBuffer b \<Rightarrow>
                   (let opts = obj_set opts ''sourceUrl'' (JStr (Buffer_toString x b));
                        opts = obj_set opts ''__originalSize'' (JNum (of_nat (length b)))
                    in Inr (stringify (JObj opts)))
               | SrcString s \<Rightarrow>
                   (case fs s of
                      None \<Rightarrow> Inl (External ''ENOENT'')
                    | Some c \<Rightarrow>
                        Inr (stringify
                               (JObj (obj_set opts ''__originalSize''
                                        (JNum (of_nat (length c)))))))))"

section \<open>Paths, stats and the full plan\<close>

definition ImagePath_filenameFormat :: "string \<Rightarrow> source \<Rightarrow> int \<Rightarrow> string \<Rightarrow> string" where
  "ImagePath_filenameFormat id' source w fmt =
     (if w \<noteq> 0 then id' @ ''-'' @ int_toString w @ ''.'' @ fmt else id' @ ''.'' @ fmt)"

definition ImagePath_getFilename ::
    "string \<Rightarrow> source \<Rightarrow> int \<Rightarrow> string \<Rightarrow> options \<Rightarrow> string" where
  "ImagePath_getFilename id' source w fmt opts =
     (case filenameFormat opts of
        Some f \<Rightarrow> (if f id' source w fmt \<noteq> [] then f id' source w fmt
                   else ImagePath_filenameFormat id' source w fmt)
      | None \<Rightarrow> ImagePath_filenameFormat id' source w fmt)"

definition ImagePath_convertFilePathToUrl :: "ext \<Rightarrow> string \<Rightarrow> string \<Rightarrow> string" where
  "ImagePath_convertFilePathToUrl x dir name =
     map (\<lambda>c. if c = path_sep x then CHR ''/'' else c) (path_join x dir name)"

definition getStat ::
    "ext \<Rightarrow> files \<Rightarrow> image \<Rightarrow> string \<Rightarrow> int \<Rightarrow> int option \<Rightarrow> error + (stat \<times> image)" where
  "getStat x fs img outputFormat w h =
     (let opts = options img;
          outputExtension = (case obj_get (extensions opts) outputFormat of
                               None \<Rightarrow> outputFormat
                             | Some e \<Rightarrow> if e = [] then outputFormat else e);
          make = (\<lambda>u outputFilename.
                    \<lparr>format = outputFormat, width = w, height = h, url = u,
                     sourceType = MIME_TYPES outputFormat,
                     srcset = u @ '' '' @ int_toString w @ ''w'',
                     stat_size = None,
                     filename = outputFilename,
                     outputPath = map_option (path_join x (outputDir opts)) outputFilename,
                     buffer = None\<rparr>)
      in case urlFormat opts of
           Some f \<Rightarrow>
             (if \<not> statsOnly opts
              then (case getHash x fs img of
                      Inl e \<Rightarrow> Inl e
                    | Inr (hash, img) \<Rightarrow>
                        Inr (make (f (Some hash) (src img) w outputExtension) None, img))
              else Inr (make (f None (src img) w outputExtension) None, img))
         | None \<Rightarrow>
             (case getHash x fs img of
                Inl e \<Rightarrow> Inl e
              | Inr (hash, img) \<Rightarrow>
                  (let outputFilename =
                         ImagePath_getFilename hash (src img) w outputExtension opts
                   in Inr (make (ImagePath_convertFilePathToUrl x (urlPath opts) outputFilename)
                             (if outputFilename = [] then None else Some outputFilename),
                           img))))"

definition needsRotation :: "int option \<Rightarrow> bool" where
  "needsRotation orient = (case orient of None \<Rightarrow> False | Some n \<Rightarrow> n \<ge> 5 \<and> n \<le> 8)"

text \<open>\<open>metadata.format || this.options.overrideInputFormat\<close>.\<close>

definition native_format :: "metadata \<Rightarrow> options \<Rightarrow> format_req" where
  "native_format md opts =
     (if falsy_format (mformat md) then overrideInputFormat opts else mformat md)"

text \<open>
  The rotation and page height corrections that \<open>getFullStats\<close> writes into the
  metadata object it was given.
\<close>

definition corrected_metadata :: "metadata \<Rightarrow> metadata" where
  "corrected_metadata md =
     (let md = (if needsRotation (orientation md)
                then md\<lparr>mwidth := mheight md, mheight := mwidth md\<rparr> else md)
      in case pageHeight md of
           None \<Rightarrow> md
         | Some p \<Rightarrow> if p = 0 then md else md\<lparr>mheight := p\<rparr>)"

text \<open>The inner loop of \<open>getFullStats\<close>: one stat for each valid width.\<close>

fun width_stats ::
    "ext \<Rightarrow> files \<Rightarrow> metadata \<Rightarrow> string \<Rightarrow> int list \<Rightarrow> image \<Rightarrow> stat list
       \<Rightarrow> error + (stat list \<times> image)" where
  "width_stats x fs md outputFormat [] img results = Inr (results, img)"
| "width_stats x fs md outputFormat (w # rest) img results =
     (case getStat x fs img outputFormat w
             (if mwidth md = 0 then None else Some ((w * mheight md) div mwidth md)) of
        Inl e \<Rightarrow> Inl e
      | Inr (st, img) \<Rightarrow> width_stats x fs md outputFormat rest img (results @ [st]))"

text \<open>The loop of \<open>getFullStats\<close> over the output formats, with its \<open>break\<close>.\<close>

fun format_stats ::
    "ext \<Rightarrow> files \<Rightarrow> metadata \<Rightarrow> format_req list \<Rightarrow> image \<Rightarrow> stat list
       \<Rightarrow> error + (stat list \<times> image)" where
  "format_stats x fs md [] img results = Inr (results, img)"
| "format_stats x fs md (outputFormat # rest) img results =
     (if falsy_format outputFormat \<or> outputFormat = Some ''auto''
      then Inl AutoFormatNotSupported
      else if outputFormat = Some ''svg''
      then (if native_format md (options img) = Some ''svg''
            then (case getStat x fs img ''svg'' (mwidth md) (Some (mheight md)) of
                    Inl e \<Rightarrow> Inl e
                  | Inr (svgStats, img) \<Rightarrow>
                      (let svgStats = (if msize md \<noteq> None \<and> msize md \<noteq> Some 0
                                       then svgStats\<lparr>stat_size := msize md\<rparr> else svgStats);
                           results = results @ [svgStats]
                       in if svgShortCircuit (options img) = SvgTrue
                          then Inr (results, img)
                          else format_stats x fs md rest img results))
            else format_stats x fs md rest img results)
      else (case width_stats x fs md (the outputFormat)
                   (getValidWidths (mwidth md) (widths (options img))
                      (mformat md = Some ''svg'' \<and> svgAllowUpscale (options img))
                      (minimumThreshold (options img)))
                   img results of
              Inl e \<Rightarrow> Inl e
            | Inr (results, img) \<Rightarrow> format_stats x fs md rest img results))"

definition getFullStats ::
    "ext \<Rightarrow> files \<Rightarrow> image \<Rightarrow> metadata \<Rightarrow> error + (plan \<times> image \<times> metadata)" where
  "getFullStats x fs img md =
     (let outputFormats = getFormatsArray (formats (options img))
                            (native_format md (options img)) (svgShortCircuit (options img));
          md = corrected_metadata md
      in case format_stats x fs md outputFormats img [] of
           Inl e \<Rightarrow> Inl e
         | Inr (results, img) \<Rightarrow>
             Inr (transformRawFiles (options img) results outputFormats, img, md))"

definition statsSync :: "ext \<Rightarrow> files \<Rightarrow> source \<Rightarrow> options \<Rightarrow> error + plan" where
  "statsSync x fs source opts =
     (if (case source of SrcString s \<Rightarrow> Util_isRemoteUrl x s | SrcBuffer b \<Rightarrow> False)
      then Inl StatsSyncRemote
      else case getImageSize x fs source of
             Inl e \<Rightarrow> Inl e
           | Inr (w, h, type) \<Rightarrow>
               (case new_Image x source opts of
                  Inl e \<Rightarrow> Inl e
                | Inr img \<Rightarrow>
                    (case getFullStats x fs img
                            \<lparr>mwidth = w, mheight = h, mformat = type, orientation = None,
                             pageHeight = None, msize = None\<rparr> of
                       Inl e \<Rightarrow> Inl e
                     | Inr (fullStats, img, md) \<Rightarrow> Inr fullStats)))"

definition statsByDimensionsSync ::
    "ext \<Rightarrow> files \<Rightarrow> source \<Rightarrow> int \<Rightarrow> int \<Rightarrow> options \<Rightarrow> error + plan" where
  "statsByDimensionsSync x fs source w h opts =
     (case new_Image x source opts of
        Inl e \<Rightarrow> Inl e
      | Inr img \<Rightarrow>
          (case getFullStats x fs img
                  \<lparr>mwidth = w, mheight = h, mformat = None, orientation = None,
                   pageHeight = None, msize = None\<rparr> of
             Inl e \<Rightarrow> Inl e
           | Inr (fullStats, img, md) \<Rightarrow> Inr fullStats))"

section \<open>Materializing the plan\<close>

text \<open>
  What a derivation does to the world outside it is kept as a list of events, besides
  the files on disk and the in-memory cache. A promise is modelled by the result it
  settles to, \<open>Inl\<close> for a rejection; the promises of one derivation settle in the order
  in which the loop creates them.
\<close>

datatype event =
    SharpConstructed | SharpMetadata | SharpToFile string | SharpToBuffer
  | Mkdir string | WriteFile string | ImageSizeProbed | Fetched string

type_synonym promise = "error + plan"

record world =
  disk :: files
  memCache :: "promise object"
  events :: "event list"

definition emit :: "world \<Rightarrow> event list \<Rightarrow> world" where
  "emit w es = w\<lparr>events := events w @ es\<rparr>"

definition getSharpOptionsForFormat :: "options \<Rightarrow> string \<Rightarrow> json object option" where
  "getSharpOptionsForFormat opts fmt =
     (if fmt = ''webp'' then sharpWebpOptions opts
      else if fmt = ''jpeg'' then sharpJpegOptions opts
      else if fmt = ''png'' then sharpPngOptions opts
      else if fmt = ''avif'' then sharpAvifOptions opts
      else Some [])"

text \<open>
  The branch of \<open>resize\<close> for a stat whose output is already on disk: the size is read
  from the existing file (or is the Brotli size of the source's contents), and under
  \<open>dryRun\<close> the buffer is what \<open>getFileContents\<close> returns.
\<close>

definition stat_cached ::
    "ext \<Rightarrow> files \<Rightarrow> image \<Rightarrow> string \<Rightarrow> stat \<Rightarrow> string \<Rightarrow> error + (stat \<times> image)" where
  "stat_cached x fs img outputFormat st existing =
     (case (if dryRun (options img)
            then (case getFileContents fs img of
                    Inl e \<Rightarrow> Inl e
                  | Inr (c, img) \<Rightarrow> Inr (Some c, img))
            else Inr (None, img)) of
        Inl e \<Rightarrow> Inl e
      | Inr (contents, img) \<Rightarrow>
          (let st = (case contents of None \<Rightarrow> st | Some c \<Rightarrow> st\<lparr>buffer := Some c\<rparr>)
           in if outputFormat = ''svg'' \<and> svgCompressionSize (options img) = ''br''
              then (case (case contents of
                            Some (Bytes b) \<Rightarrow> Inr (Bytes b, img)
                          | _ \<Rightarrow> getFileContents fs img) of
                      Inl e \<Rightarrow> Inl e
                    | Inr (NoContents, img) \<Rightarrow> Inl TypeError
                    | Inr (Bytes b, img) \<Rightarrow> Inr (st\<lparr>stat_size := Some (brotliSize x b)\<rparr>, img))
              else Inr (st\<lparr>stat_size := Some (length existing)\<rparr>, img)))"

text \<open>The clone of the sharp instance with the hook, the rotation and the resize.\<close>

definition prepare_instance ::
    "options \<Rightarrow> metadata \<Rightarrow> sharp_instance \<Rightarrow> stat \<Rightarrow> sharp_instance" where
  "prepare_instance opts md sharpImage st =
     (let sharpInstance = (case sharpHook opts of None \<Rightarrow> sharpImage | Some f \<Rightarrow> f sharpImage);
          sharpInstance = (if fixOrientation opts \<or> needsRotation (orientation md)
                           then sharpInstance\<lparr>rotate := True\<rparr> else sharpInstance)
      in if width st < mwidth md \<or> (svgAllowUpscale opts \<and> mformat md = Some ''svg'')
         then sharpInstance\<lparr>resize_to :=
                Some (width st, mformat md \<noteq> Some ''svg'' \<or> \<not> svgAllowUpscale opts)\<rparr>
         else sharpInstance)"

definition with_format ::
    "metadata \<Rightarrow> string \<Rightarrow> json object \<Rightarrow> sharp_instance \<Rightarrow> sharp_instance" where
  "with_format md outputFormat sharpFormatOptions sharpInstance =
     (if sharpFormatOptions \<noteq> [] \<or> (outputFormat \<noteq> [] \<and> mformat md \<noteq> Some outputFormat)
      then sharpInstance\<lparr>toFormat := Some (outputFormat,
             JObj (if outputFormat = ''heic''
                      \<and> obj_get sharpFormatOptions ''compression'' \<in>
                          {None, Some JUndefined, Some JNull, Some (JBool False),
                           Some (JNum 0), Some (JStr [])}
                   then obj_set sharpFormatOptions ''compression'' (JStr ''av1'')
                   else sharpFormatOptions))\<rparr>
      else sharpInstance)"

text \<open>\<open>fsp.mkdir(dir, { recursive: true })\<close>.\<close>

definition make_dir :: "ext \<Rightarrow> world \<Rightarrow> string \<Rightarrow> bool \<times> world" where
  "make_dir x w dir = (can_write x dir, emit w [Mkdir dir])"

text \<open>
  \<open>fsp.mkdir(path.dirname(p)).then(() => write(p))\<close>: the directory, then the file;
  \<open>ev\<close> is the event of the write, which happens only if the directory could be made.
\<close>

definition write_output :: "ext \<Rightarrow> world \<Rightarrow> string \<Rightarrow> string \<Rightarrow> event \<Rightarrow> bool \<times> world" where
  "write_output x w p bytes ev =
     (let (ok, w) = make_dir x w (path_dirname x p)
      in if \<not> ok then (False, w)
         else if can_write x p then (True, (emit w [ev])\<lparr>disk := (disk w)(p \<mapsto> bytes)\<rparr>)
         else (False, emit w [ev]))"

text \<open>
  One turn of the loop of \<open>resize\<close> over the stats. \<open>Abort\<close> is an exception thrown in
  the loop itself, which rejects the whole call at once; \<open>Pushed\<close> carries the promise
  that the turn adds to \<open>outputFilePromises\<close>, if it adds one.
\<close>

datatype step = Abort error world | Pushed "(error + stat) option" world image

definition materialize ::
    "ext \<Rightarrow> metadata \<Rightarrow> sharp_instance \<Rightarrow> string \<Rightarrow> stat \<Rightarrow> world \<Rightarrow> image \<Rightarrow> step" where
  "materialize x md sharpImage outputFormat st w img =
     (let opts = options img
      in case (if useCache opts
               then (case outputPath st of None \<Rightarrow> None | Some p \<Rightarrow> disk w p)
               else None) of
           Some existing \<Rightarrow>
             (case stat_cached x (disk w) img outputFormat st existing of
                Inl e \<Rightarrow> Abort e w
              | Inr (st, img) \<Rightarrow> Pushed (Some (Inr st)) w img)
         | None \<Rightarrow>
             (let sharpInstance = prepare_instance opts md sharpImage st;
                  (ok, w) = (if \<not> dryRun opts then make_dir x w (outputDir opts) else (True, w))
              in if \<not> ok then Abort (External ''EACCES'') w
                 else case obj_get (formatHooks opts) outputFormat of
                   Some hook \<Rightarrow>
                     (case hook st sharpInstance (disk w) of
                        Inl e \<Rightarrow> Abort e w
                      | Inr hookResult \<Rightarrow>
                          if hookResult = [] then Pushed None w img
                          else
                            (let st = st\<lparr>stat_size :=
                                   Some (if svgCompressionSize opts = ''br''
                                         then brotliSize x hookResult
                                         else length hookResult)\<rparr>
                             in if dryRun opts
                                then Pushed (Some (Inr (st\<lparr>buffer := Some (Bytes hookResult)\<rparr>)))
                                       w img
                                else (case outputPath st of
                                        None \<Rightarrow> Abort TypeError w
                                      | Some p \<Rightarrow>
                                          (let (ok, w) = write_output x w p hookResult
                                                           (WriteFile p)
                                           in Pushed (Some (if ok then Inr st
                                                            else Inl (External ''EACCES'')))
                                                w img))))
                 | None \<Rightarrow>
                     (case getSharpOptionsForFormat opts outputFormat of
                        None \<Rightarrow> Abort TypeError w
                      | Some sharpFormatOptions \<Rightarrow>
                          (let sharpInstance =
                                 with_format md outputFormat sharpFormatOptions sharpInstance
                           in if \<not> dryRun opts \<and> outputPath st \<noteq> None
                                   \<and> outputPath st \<noteq> Some []
                              then (case sharp_output x (disk w) sharpInstance of
                                      Inl e \<Rightarrow>
                                        Pushed (Some (Inl e))
                                          (emit (snd (make_dir x w
                                                  (path_dirname x (the (outputPath st)))))
                                             [SharpToFile (the (outputPath st))])
                                          img
                                    | Inr data \<Rightarrow>
                                        (let (ok, w) = write_output x w (the (outputPath st))
                                                         data (SharpToFile (the (outputPath st)))
                                         in Pushed (Some (if ok
                                                          then Inr (st\<lparr>stat_size :=
                                                                      Some (length data)\<rparr>)
                                                          else Inl (External ''EACCES'')))
                                              w img))
                              else (case sharp_output x (disk w) sharpInstance of
                                      Inl e \<Rightarrow> Pushed (Some (Inl e)) (emit w [SharpToBuffer]) img
                                    | Inr data \<Rightarrow>
                                        Pushed (Some (Inr (st\<lparr>buffer := Some (Bytes data),
                                                               stat_size := Some (length data)\<rparr>)))
                                          (emit w [SharpToBuffer]) img)))))"

text \<open>The two nested loops of \<open>resize\<close> visit the stats group by group.\<close>

definition plan_entries :: "plan \<Rightarrow> (string \<times> stat) list" where
  "plan_entries fullStats =
     concat (map (\<lambda>(outputFormat, stats). map (Pair outputFormat) stats) fullStats)"

fun materialize_all ::
    "ext \<Rightarrow> metadata \<Rightarrow> sharp_instance \<Rightarrow> (string \<times> stat) list \<Rightarrow> world \<Rightarrow> image
       \<Rightarrow> (error + stat) list \<Rightarrow> error option \<times> (error + stat) list \<times> world" where
  "materialize_all x md sharpImage [] w img outputFilePromises =
     (None, outputFilePromises, w)"
| "materialize_all x md sharpImage ((outputFormat, st) # rest) w img outputFilePromises =
     (case materialize x md sharpImage outputFormat st w img of
        Abort e w \<Rightarrow> (Some e, outputFilePromises, w)
      | Pushed p w img \<Rightarrow>
          materialize_all x md sharpImage rest w img
            (outputFilePromises @ (case p of None \<Rightarrow> [] | Some r \<Rightarrow> [r])))"

text \<open>\<open>Promise.all\<close>: all the values, or a rejection.\<close>

fun Promise_all :: "(error + 'a) list \<Rightarrow> error + 'a list" where
  "Promise_all [] = Inr []"
| "Promise_all (Inl e # rest) = Inl e"
| "Promise_all (Inr v # rest) =
     (case Promise_all rest of Inl e \<Rightarrow> Inl e | Inr vs \<Rightarrow> Inr (v # vs))"

definition resize :: "ext \<Rightarrow> image \<Rightarrow> source \<Rightarrow> world \<Rightarrow> promise \<times> world" where
  "resize x img input w =
     (let sharpImage = \<lparr>sharp_input = input,
             sharp_options = JObj (object_assign [(''failOnError'', JBool False)]
                                     (case sharpOptions (options img) of
                                        None \<Rightarrow> [] | Some so \<Rightarrow> so)),
             rotate = False, resize_to = None, toFormat = None\<rparr>;
          w = emit w [SharpConstructed, SharpMetadata]
      in case sharp_metadata x (disk w) input (sharp_options sharpImage) of
           Inl e \<Rightarrow> (Inl e, w)
         | Inr md \<Rightarrow>
             (case getFullStats x (disk w) img md of
                Inl e \<Rightarrow> (Inl e, w)
              | Inr (fullStats, img, md) \<Rightarrow>
                  (case materialize_all x md sharpImage (plan_entries fullStats) w img [] of
                     (Some e, outputFilePromises, w) \<Rightarrow> (Inl e, w)
                   | (None, outputFilePromises, w) \<Rightarrow>
                       (case Promise_all outputFilePromises of
                          Inl e \<Rightarrow> (Inl e, w)
                        | Inr files \<Rightarrow>
                            (Inr (transformRawFiles (options img) files
                                    (map Some (object_keys fullStats))), w)))))"

section \<open>The entry point\<close>

text \<open>
  Modelled from the spec: the in-memory cache (\<open>src/memory-cache.js\<close>) is not among the
  sources. The spec gives it two operations, \<open>get(signature)\<close>, which returns the
  existing promise or nothing, and \<open>put(signature, promise)\<close>, and says that it never
  evicts an entry.
\<close>

definition MemoryCache_get :: "promise object \<Rightarrow> string \<Rightarrow> promise option" where
  "MemoryCache_get cache key = obj_get cache key"

definition MemoryCache_add :: "promise object \<Rightarrow> string \<Rightarrow> promise \<Rightarrow> promise object" where
  "MemoryCache_add cache key results = obj_set cache key results"

text \<open>
  The job that \<open>queueImage\<close> gives to the processing queue. The queue runs it and
  settles the promise with its result; \<open>opts\<close> are the merged options, which agree with
  the caller's own on \<open>statsOnly\<close> and \<open>remoteImageMetadata\<close> as far as the job tests
  them.
\<close>

definition process_image :: "ext \<Rightarrow> image \<Rightarrow> world \<Rightarrow> promise \<times> world" where
  "process_image x img w =
     (if isRemoteUrl img
      then (case fetch x (source_text (src img)) of
              Inl e \<Rightarrow> (Inl e, emit w [Fetched (source_text (src img))])
            | Inr bytes \<Rightarrow>
                resize x img (SrcBuffer bytes) (emit w [Fetched (source_text (src img))]))
      else resize x img (src img) w)"

definition stats_only :: "ext \<Rightarrow> image \<Rightarrow> string \<Rightarrow> options \<Rightarrow> world \<Rightarrow> promise \<times> world" where
  "stats_only x img s opts w =
     (if Util_isRemoteUrl x s
      then (case remoteImageMetadata opts of
              None \<Rightarrow> (Inl RemoteImageMetadataRequired, w)
            | Some m \<Rightarrow>
                (if rwidth m \<in> {None, Some 0} \<or> rheight m \<in> {None, Some 0}
                 then (Inl RemoteImageMetadataRequired, w)
                 else (case getFullStats x (disk w) img
                              \<lparr>mwidth = the (rwidth m), mheight = the (rheight m),
                               mformat = rformat m, orientation = None, pageHeight = None,
                               msize = None\<rparr> of
                         Inl e \<Rightarrow> (Inl e, w)
                       | Inr (fullStats, img, md) \<Rightarrow> (Inr fullStats, w))))
      else (case getImageSize x (disk w) (SrcString s) of
              Inl e \<Rightarrow> (Inl e, emit w [ImageSizeProbed])
            | Inr (wd, ht, type) \<Rightarrow>
                (case getFullStats x (disk w) img
                        \<lparr>mwidth = wd, mheight = ht, mformat = type, orientation = None,
                         pageHeight = None, msize = None\<rparr> of
                   Inl e \<Rightarrow> (Inl e, emit w [ImageSizeProbed])
                 | Inr (fullStats, img, md) \<Rightarrow> (Inr fullStats, emit w [ImageSizeProbed]))))"

definition run_job :: "ext \<Rightarrow> image \<Rightarrow> source \<Rightarrow> options \<Rightarrow> world \<Rightarrow> promise \<times> world" where
  "run_job x img source opts w =
     (case source of
        SrcString s \<Rightarrow> (if statsOnly opts then stats_only x img s opts w
                        else process_image x img w)
      | SrcBuffer b \<Rightarrow> process_image x img w)"

text \<open>
  What a call of \<open>queueImage\<close> gives its caller: an exception thrown by the call itself,
  or a promise.
\<close>

datatype outcome = Thrown error | Promise promise

definition queueImage :: "ext \<Rightarrow> source \<Rightarrow> options \<Rightarrow> world \<Rightarrow> outcome \<times> world" where
  "queueImage x source opts w =
     (case new_Image x source opts of
        Inl e \<Rightarrow> (Thrown e, w)
      | Inr img \<Rightarrow>
          (if useCache (options img)
           then (case getInMemoryCacheKey x (disk w) img of
                   Inl e \<Rightarrow> (Thrown e, w)
                 | Inr key \<Rightarrow>
                     (case MemoryCache_get (memCache w) key of
                        Some cached \<Rightarrow> (Promise cached, w)
                      | None \<Rightarrow>
                          (let (promise, w) = run_job x img source opts w
                           in (Promise promise,
                               w\<lparr>memCache := MemoryCache_add (memCache w) key promise\<rparr>))))
           else (let (promise, w) = run_job x img source opts w in (Promise promise, w))))"

section \<open>Kinds of events\<close>

text \<open>The events in which the codec engine takes part, and those that write to disk.\<close>

fun codec_event :: "event \<Rightarrow> bool" where
  "codec_event SharpConstructed = True"
| "codec_event SharpMetadata = True"
| "codec_event (SharpToFile p) = True"
| "codec_event SharpToBuffer = True"
| "codec_event (Mkdir p) = False"
| "codec_event (WriteFile p) = False"
| "codec_event ImageSizeProbed = False"
| "codec_event (Fetched u) = False"

fun write_event :: "event \<Rightarrow> bool" where
  "write_event (SharpToFile p) = True"
| "write_event (Mkdir p) = True"
| "write_event (WriteFile p) = True"
| "write_event SharpConstructed = False"
| "write_event SharpMetadata = False"
| "write_event SharpToBuffer = False"
| "write_event ImageSizeProbed = False"
| "write_event (Fetched u) = False"

section \<open>An environment for the concrete instances\<close>

text \<open>
  The instances below run the module in this environment: a digest made of the first
  letters of its input, URLs recognised by their scheme, paths joined by concatenation, a
  remote cache that is never valid and never fetches, an SVG source 500 by 500, an
  encoder whose output names the format and width it was asked for, a disk that can
  always be written, and buffers of well-formed text.
\<close>

definition example_ext :: ext where
  "example_ext = \<lparr>
     sha256_base64 = (\<lambda>s. ''q+Z/'' @ filter (\<lambda>c. c \<in> set ''abcdefghijklmnopqrstuvwxyz'') (take 12 s) @ ''=''),
     url_protocol = (\<lambda>s. if startsWith s ''https://'' then Some ''https:''
                          else if startsWith s ''http://'' then Some ''http:'' else None),
     path_join = (\<lambda>dir name. dir @ name),
     path_dirname = (\<lambda>p. rev (dropWhile (\<lambda>c. c \<noteq> CHR ''/'') (rev p))),
     path_sep = CHR ''/'',
     isCacheValid = (\<lambda>u duration. False),
     fetch = (\<lambda>u. Inl (External ''ENOTFOUND'')),
     getImageSize = (\<lambda>fs source. case fs (source_text source) of
                       None \<Rightarrow> Inl (External ''ENOENT'')
                     | Some c \<Rightarrow> Inr (500, 500, Some ''svg'')),
     sharp_metadata = (\<lambda>fs input so.
                         Inr \<lparr>mwidth = 500, mheight = 500, mformat = Some ''svg'',
                              orientation = None, pageHeight = None, msize = None\<rparr>),
     sharp_output = (\<lambda>fs sharpInstance.
                       Inr (case toFormat sharpInstance of
                              None \<Rightarrow> ''raw''
                            | Some (fmt, fo) \<Rightarrow>
                                fmt @ (case resize_to sharpInstance of
                                         None \<Rightarrow> []
                                       | Some (wd, we) \<Rightarrow> int_toString wd))),
     brotliSize = length,
     can_write = (\<lambda>p. True),
     Buffer_toString = (\<lambda>b. b)\<rparr>"



section \<open>The default options and the example environment, field by field\<close>

lemma globalOptions_fields [simp]:
  "widths globalOptions = [WNull]"
  "formats globalOptions = FormatsArray [Some ''webp'', Some ''jpeg'']"
  "concurrency globalOptions = 10"
  "urlPath globalOptions = ''/img/''"
  "outputDir globalOptions = ''img/''"
  "svgShortCircuit globalOptions = SvgFalse"
  "svgAllowUpscale globalOptions = True"
  "svgCompressionSize globalOptions = []"
  "overrideInputFormat globalOptions = None"
  "sharpOptions globalOptions = Some []"
  "sharpWebpOptions globalOptions = Some []"
  "sharpPngOptions globalOptions = Some []"
  "sharpJpegOptions globalOptions = Some []"
  "sharpAvifOptions globalOptions = Some []"
  "sharpHook globalOptions = None"
  "extensions globalOptions = []"
  "formatHooks globalOptions = [(''svg'', svgHook)]"
  "cacheDuration globalOptions = ''1d''"
  "cacheOptions globalOptions = []"
  "filenameFormat globalOptions = None"
  "urlFormat globalOptions = None"
  "statsOnly globalOptions = False"
  "remoteImageMetadata globalOptions = Some \<lparr>rwidth = None, rheight = None, rformat = None\<rparr>"
  "useCache globalOptions = True"
  "dryRun globalOptions = False"
  "hashLength globalOptions = 10"
  "fixOrientation globalOptions = False"
  "useCacheValidityInHash globalOptions = True"
  "minimumThreshold globalOptions = 5 / 4"
  "extra globalOptions = []"
  by (simp_all add: globalOptions_def)

lemma example_ext_fields [simp]:
  "sha256_base64 example_ext s
     = ''q+Z/'' @ filter (\<lambda>c. c \<in> set ''abcdefghijklmnopqrstuvwxyz'') (take 12 s) @ ''=''"
  "url_protocol example_ext s
     = (if startsWith s ''https://'' then Some ''https:''
        else if startsWith s ''http://'' then Some ''http:'' else None)"
  "path_join example_ext dir name = dir @ name"
  "path_dirname example_ext p = rev (dropWhile (\<lambda>c. c \<noteq> CHR ''/'') (rev p))"
  "path_sep example_ext = CHR ''/''"
  "isCacheValid example_ext u duration = False"
  "fetch example_ext u = Inl (External ''ENOTFOUND'')"
  "getImageSize example_ext fs source
     = (case fs (source_text source) of
          None \<Rightarrow> Inl (External ''ENOENT'')
        | Some c \<Rightarrow> Inr (500, 500, Some ''svg''))"
  "sharp_metadata example_ext fs input so
     = Inr \<lparr>mwidth = 500, mheight = 500, mformat = Some ''svg'',
            orientation = None, pageHeight = None, msize = None\<rparr>"
  "sharp_output example_ext fs sharpInstance
     = Inr (case toFormat sharpInstance of
              None \<Rightarrow> ''raw''
            | Some (fmt, fo) \<Rightarrow>
                fmt @ (case resize_to sharpInstance of
                         None \<Rightarrow> []
                       | Some (wd, we) \<Rightarrow> int_toString wd))"
  "brotliSize example_ext = length"
  "can_write example_ext p = True"
  "Buffer_toString example_ext b = b"
  by (simp_all add: example_ext_def)

lemma hashObject_globalOptions:
  "stringify (hashObject globalOptions)
     = ''{'' @ json_quote ''sharpAvifOptions'' @ '':{},'' @ json_quote ''sharpJpegOptions''
       @ '':{},'' @ json_quote ''sharpOptions'' @ '':{},'' @ json_quote ''sharpPngOptions''
       @ '':{},'' @ json_quote ''sharpWebpOptions'' @ '':{}}''"
  by (simp add: hashObject_def getSortedObject_def js_sort_def object_keys_def)

section \<open>Rounding to a double, on numerals\<close>

lemma floor_rat_numeral [simp]:
  "\<lfloor>numeral a / numeral b :: rat\<rfloor> = numeral a div numeral b"
  using floor_divide_of_int_eq [of "numeral a" "numeral b", where ?'a = rat] by simp

lemma floor_log2_numeral:
  "floor_log2 0 = 0"
  "floor_log2 (Suc 0) = 0"
  "floor_log2 (numeral k)
     = (if numeral k < (2 :: nat) then 0 else Suc (floor_log2 (numeral k div 2)))"
  by (simp_all add: floor_log2.simps [of 0] floor_log2.simps [of "Suc 0"]
      floor_log2.simps [of "numeral k"])

lemmas double_defs = double_round_def binary_exponent_def pow2_def round_half_even_def
  floor_log2_numeral

text \<open>
  The rounding at work: \<open>0.1 + 0.2\<close> is not \<open>0.3\<close>, and \<open>100 * 1.15\<close> is the double
  just below 115.
\<close>

lemma double_round_tenths:
  "double_round (double_round (1 / 10) + double_round (2 / 10)) \<noteq> double_round (3 / 10)"
  by (simp add: double_defs)

lemma double_round_115:
  "\<lfloor>double_round (100 * double_round (115 / 100))\<rfloor> = 114"
  by (simp add: double_defs)

section \<open>Width resolution at the threshold boundary\<close>

text \<open>
  C1. Requested widths 400 and 800 on a source 500 wide, upscaling disallowed, threshold
  1.25. The spec (and the comment on \<open>minimumThreshold\<close> in the options) expects the two
  outputs 400 and 500. The code compares \<open>originalWidth > Math.floor(width * minimumThreshold)\<close>
  strictly, and \<open>500 > 500\<close> is false: the width 800 is dropped and the result is the
  single width 400.
\<close>

theorem getValidWidths_500_400_800:
  "getValidWidths 500 [WNum 400, WNum 800] False (5 / 4) = [400]"
  by (simp add: getValidWidths_def js_sort_def new_Set_def double_defs)

text \<open>
  One pixel more and the source is wide enough; the other two examples of the spec hold.
\<close>

lemma getValidWidths_501_400_800:
  "getValidWidths 501 [WNum 400, WNum 800] False (5 / 4) = [400, 501]"
  by (simp add: getValidWidths_def js_sort_def new_Set_def double_defs)

lemma getValidWidths_1280:
  "getValidWidths 1280 [WNull] False (5 / 4) = [1280]"
  "getValidWidths 1280 [WNum 100, WNum 200, WNum 1280] False (5 / 4) = [100, 200, 1280]"
  by (simp_all add: getValidWidths_def js_sort_def new_Set_def double_defs)

text \<open>
  With the threshold \<open>1.15\<close> the product \<open>100 * 1.15\<close> is rounded below 115, so a
  source 115 wide is wide enough for a second output.
\<close>

lemma getValidWidths_115:
  "getValidWidths 115 [WNum 100, WNum 200] False (double_round (115 / 100)) = [100, 115]"
  by (simp add: getValidWidths_def js_sort_def new_Set_def double_defs)

section \<open>Format resolution keeps the requested order\<close>

text \<open>
  C3 (amended). Requested formats jpg and webp with native format jpeg and
  svgShortCircuit false resolve to jpeg followed by webp: the alias jpg becomes jpeg, and
  the svg-first sort is stable and leaves two non-svg entries in their requested order.
\<close>

theorem getFormatsArray_jpg_webp:
  "getFormatsArray (FormatsArray [Some ''jpg'', Some ''webp'']) (Some ''jpeg'') SvgFalse
     = [Some ''jpeg'', Some ''webp'']"
  by (simp add: getFormatsArray_def resolve_format_def falsy_format_def FORMAT_ALIASES_def
      js_sort_def svg_first_def new_Set_def)

text \<open>The order the spec gives for this call, webp before jpeg, is not what is returned.\<close>

theorem getFormatsArray_jpg_webp_not_reversed:
  "getFormatsArray (FormatsArray [Some ''jpg'', Some ''webp'']) (Some ''jpeg'') SvgFalse
     \<noteq> [Some ''webp'', Some ''jpeg'']"
  by (simp add: getFormatsArray_def resolve_format_def falsy_format_def FORMAT_ALIASES_def
      js_sort_def svg_first_def new_Set_def)

section \<open>The size filter of the svg short circuit\<close>

lemma truthy_replace_added:
  "truthy_entries (replace_large svg0 n True k es) = filter (\<lambda>e. \<not> larger_than e n) es"
  by (induction es arbitrary: k) auto

lemma truthy_replace_kept:
  "truthy_entries (replace_large svg0 n False True es) =
     takeWhile (\<lambda>e. \<not> larger_than e n) es @
     (case dropWhile (\<lambda>e. \<not> larger_than e n) es of [] \<Rightarrow> []
      | _ # rest \<Rightarrow> svg0 # filter (\<lambda>e. \<not> larger_than e n) rest)"
  by (induction es) (auto simp: truthy_replace_added)

text \<open>
  What the filter leaves of one raster group: the entries before the first one larger
  than the svg, then the svg entry if there was such a prefix, then the later entries
  that are not larger.
\<close>

lemma filter_group_eq:
  "filter_group svg0 n es =
     takeWhile (\<lambda>e. \<not> larger_than e n) es @
     (case dropWhile (\<lambda>e. \<not> larger_than e n) es of [] \<Rightarrow> []
      | _ # rest \<Rightarrow> (if takeWhile (\<lambda>e. \<not> larger_than e n) es = [] then [] else [svg0])
                      @ filter (\<lambda>e. \<not> larger_than e n) rest)"
proof (cases es)
  case Nil
  then show ?thesis by (simp add: filter_group_def)
next
  case (Cons e rest)
  show ?thesis
  proof (cases "larger_than e n")
    case True
    with Cons show ?thesis by (simp add: filter_group_def truthy_replace_added)
  next
    case False
    with Cons show ?thesis
      by (simp add: filter_group_def truthy_replace_kept cong: list.case_cong)
  qed
qed

lemma set_truthy_replace:
  "set (truthy_entries (replace_large svg0 n a k es))
     \<subseteq> insert svg0 {e \<in> set es. \<not> larger_than e n}"
  by (induction es arbitrary: a k) auto

lemma truthy_replace_nonempty:
  "truthy_entries (replace_large svg0 n a k es) \<noteq> [] \<longleftrightarrow>
     (\<exists>e \<in> set es. \<not> larger_than e n) \<or> (\<not> a \<and> k \<and> (\<exists>e \<in> set es. larger_than e n))"
  by (induction es arbitrary: a k) auto

lemma obj_get_map_groups:
  "obj_get (map (\<lambda>(t, g). if t = s then (t, g) else (t, f g)) byType) k =
     map_option (\<lambda>g. if k = s then g else f g) (obj_get byType k)"
  by (induction byType) (auto simp: obj_get_def)

lemma svg_entry_not_larger:
  "svg_entry_size byType = Some (svg0, n) \<Longrightarrow> \<not> larger_than svg0 n"
  by (auto simp: svg_entry_size_def larger_than_def split: option.splits list.splits if_splits)

text \<open>
  C2 (amended). Under svgShortCircuit "size", with an svg entry of known size, every
  raster group of the returned plan is the group before filtering with every stat larger
  than the svg removed; the svg stat stands at the slot of the first larger stat only
  when a narrower stat of the group was kept before it; and the group keeps at least one
  entry exactly when one of its stats is not larger than the svg.
\<close>

theorem size_filter_group:
  assumes "svgShortCircuit opts = SvgSize"
    and "svg_entry_size (grouped files fmts) = Some (svg0, svgSize)"
    and "obj_get (grouped files fmts) type = Some entries"
    and "type \<noteq> ''svg''"
  shows "\<exists>kept. obj_get (transformRawFiles opts files fmts) type = Some kept
     \<and> kept = takeWhile (\<lambda>e. \<not> larger_than e svgSize) entries @
         (case dropWhile (\<lambda>e. \<not> larger_than e svgSize) entries of
            [] \<Rightarrow> []
          | _ # rest \<Rightarrow>
              (if takeWhile (\<lambda>e. \<not> larger_than e svgSize) entries = [] then [] else [svg0])
                @ filter (\<lambda>e. \<not> larger_than e svgSize) rest)
     \<and> (\<forall>e \<in> set kept. \<not> larger_than e svgSize)
     \<and> (kept \<noteq> [] \<longleftrightarrow> (\<exists>e \<in> set entries. \<not> larger_than e svgSize))"
proof -
  let ?kept = "filter_group svg0 svgSize entries"
  have get: "obj_get (transformRawFiles opts files fmts) type = Some ?kept"
    using assms by (simp add: transformRawFiles_def obj_get_map_groups)
  have svg: "\<not> larger_than svg0 svgSize" using assms(2) by (rule svg_entry_not_larger)
  have all: "\<forall>e \<in> set ?kept. \<not> larger_than e svgSize"
    using set_truthy_replace [of svg0 svgSize False False entries] svg
    by (auto simp: filter_group_def)
  have ne: "?kept \<noteq> [] \<longleftrightarrow> (\<exists>e \<in> set entries. \<not> larger_than e svgSize)"
    by (simp add: filter_group_def truthy_replace_nonempty)
  have eq: "?kept = takeWhile (\<lambda>e. \<not> larger_than e svgSize) entries @
         (case dropWhile (\<lambda>e. \<not> larger_than e svgSize) entries of
            [] \<Rightarrow> []
          | _ # rest \<Rightarrow>
              (if takeWhile (\<lambda>e. \<not> larger_than e svgSize) entries = [] then [] else [svg0])
                @ filter (\<lambda>e. \<not> larger_than e svgSize) rest)"
    by (rule filter_group_eq)
  show ?thesis using get all ne eq by blast
qed

text \<open>
  The amended statement at a plan with one svg stat of 1000 bytes and two webp stats, the
  narrower one smaller and the wider one larger than the svg: the wider is replaced by
  the svg stat.
\<close>

theorem size_filter_group_witness:
  "\<exists>kept. obj_get (transformRawFiles (globalOptions\<lparr>svgShortCircuit := SvgSize\<rparr>)
      [\<lparr>format = ''svg'', width = 500, height = Some 500, url = ''/img/h.svg'',
        sourceType = Some ''image/svg+xml'', srcset = ''/img/h.svg 500w'',
        stat_size = Some 1000, filename = Some ''h.svg'', outputPath = Some ''img/h.svg'',
        buffer = None\<rparr>,
       \<lparr>format = ''webp'', width = 300, height = Some 300, url = ''/img/h-300.webp'',
        sourceType = Some ''image/webp'', srcset = ''/img/h-300.webp 300w'',
        stat_size = Some 800, filename = Some ''h-300.webp'',
        outputPath = Some ''img/h-300.webp'', buffer = None\<rparr>,
       \<lparr>format = ''webp'', width = 500, height = Some 500, url = ''/img/h-500.webp'',
        sourceType = Some ''image/webp'', srcset = ''/img/h-500.webp 500w'',
        stat_size = Some 3000, filename = Some ''h-500.webp'',
        outputPath = Some ''img/h-500.webp'', buffer = None\<rparr>]
      [Some ''svg'', Some ''webp'']) ''webp'' = Some kept
    \<and> map url kept = [''/img/h-300.webp'', ''/img/h.svg'']
    \<and> kept \<noteq> []"
proof -
  let ?opts = "globalOptions\<lparr>svgShortCircuit := SvgSize\<rparr>"
  let ?svg = "\<lparr>format = ''svg'', width = 500, height = Some 500, url = ''/img/h.svg'',
        sourceType = Some ''image/svg+xml'', srcset = ''/img/h.svg 500w'',
        stat_size = Some 1000, filename = Some ''h.svg'', outputPath = Some ''img/h.svg'',
        buffer = None\<rparr>"
  let ?small = "\<lparr>format = ''webp'', width = 300, height = Some 300, url = ''/img/h-300.webp'',
        sourceType = Some ''image/webp'', srcset = ''/img/h-300.webp 300w'',
        stat_size = Some 800, filename = Some ''h-300.webp'',
        outputPath = Some ''img/h-300.webp'', buffer = None\<rparr>"
  let ?large = "\<lparr>format = ''webp'', width = 500, height = Some 500, url = ''/img/h-500.webp'',
        sourceType = Some ''image/webp'', srcset = ''/img/h-500.webp 500w'',
        stat_size = Some 3000, filename = Some ''h-500.webp'',
        outputPath = Some ''img/h-500.webp'', buffer = None\<rparr>"
  let ?fmts = "[Some ''svg'', Some ''webp'']"
  have groups: "grouped [?svg, ?small, ?large] ?fmts
      = [(''svg'', [?svg]), (''webp'', [?small, ?large])]"
    by (simp add: grouped_def sort_by_width_def js_sort_def obj_get_def)
  have h1: "svgShortCircuit ?opts = SvgSize" by simp
  have h2: "svg_entry_size (grouped [?svg, ?small, ?large] ?fmts) = Some (?svg, 1000)"
    unfolding groups by (simp add: svg_entry_size_def obj_get_def)
  have h3: "obj_get (grouped [?svg, ?small, ?large] ?fmts) ''webp'' = Some [?small, ?large]"
    unfolding groups by (simp add: obj_get_def)
  have h4: "''webp'' \<noteq> ''svg''" by simp
  show ?thesis
    using size_filter_group [OF h1 h2 h3 h4] by (auto simp: larger_than_def)
qed

text \<open>
  C2 as the spec states it fails where the narrowest raster of a group is already larger
  than the svg: the raster is dropped, no svg stat takes its slot, and the webp group of
  the returned plan is empty.
\<close>

theorem size_filter_all_larger_group_empty:
  "transformRawFiles (globalOptions\<lparr>svgShortCircuit := SvgSize\<rparr>)
      [\<lparr>format = ''svg'', width = 500, height = Some 500, url = ''/img/h.svg'',
        sourceType = Some ''image/svg+xml'', srcset = ''/img/h.svg 500w'',
        stat_size = Some 1000, filename = Some ''h.svg'', outputPath = Some ''img/h.svg'',
        buffer = None\<rparr>,
       \<lparr>format = ''webp'', width = 500, height = Some 500, url = ''/img/h-500.webp'',
        sourceType = Some ''image/webp'', srcset = ''/img/h-500.webp 500w'',
        stat_size = Some 3000, filename = Some ''h-500.webp'',
        outputPath = Some ''img/h-500.webp'', buffer = None\<rparr>]
      [Some ''svg'', Some ''webp'']
   = [(''svg'', [\<lparr>format = ''svg'', width = 500, height = Some 500, url = ''/img/h.svg'',
        sourceType = Some ''image/svg+xml'', srcset = ''/img/h.svg 500w'',
        stat_size = Some 1000, filename = Some ''h.svg'', outputPath = Some ''img/h.svg'',
        buffer = None\<rparr>]),
      (''webp'', [])]"
  by (simp add: transformRawFiles_def grouped_def sort_by_width_def js_sort_def obj_get_def
      svg_entry_size_def filter_group_def larger_than_def globalOptions_def)

section \<open>Width order inside a format group\<close>

lemma set_js_insert: "set (js_insert cmp x xs) = insert x (set xs)"
  by (induction xs) auto

lemma js_insert_sorted:
  "sorted (map width xs) \<Longrightarrow> sorted (map width (js_insert (\<lambda>a b. width a - width b) x xs))"
  by (induction xs) (auto simp: set_js_insert)

lemma js_sort_foldl_sorted:
  "sorted (map width acc) \<Longrightarrow>
   sorted (map width (foldl (\<lambda>sorted x. js_insert (\<lambda>a b. width a - width b) x sorted) acc xs))"
  by (induction xs arbitrary: acc) (simp_all add: js_insert_sorted)

text \<open>
  Before the size filter every group is in ascending order of width: this is the plan
  of \<open>statsSync\<close> and \<open>statsByDimensionsSync\<close>, whose svg stat has no size.
\<close>

lemma grouped_sorted_by_width:
  "(type, entries) \<in> set (grouped files fmts) \<Longrightarrow> sorted (map width entries)"
  by (auto simp: grouped_def sort_by_width_def js_sort_def js_sort_foldl_sorted)

text \<open>
  C9. The width order does not survive the size filter. An SVG source 500 wide (upscaling
  of SVG input is allowed by default) with webp outputs 1000 and 2000 wide, the first
  smaller and the second larger than the svg: the svg stat, of width 500, takes the slot
  of the 2000 wide webp, behind the 1000 wide one, and the group is not sorted again.
\<close>

theorem size_filter_breaks_width_order:
  "map_option (map width)
     (obj_get (transformRawFiles (globalOptions\<lparr>svgShortCircuit := SvgSize\<rparr>)
      [\<lparr>format = ''svg'', width = 500, height = Some 500, url = ''/img/h.svg'',
        sourceType = Some ''image/svg+xml'', srcset = ''/img/h.svg 500w'',
        stat_size = Some 1000, filename = Some ''h.svg'', outputPath = Some ''img/h.svg'',
        buffer = None\<rparr>,
       \<lparr>format = ''webp'', width = 1000, height = Some 1000, url = ''/img/h-1000.webp'',
        sourceType = Some ''image/webp'', srcset = ''/img/h-1000.webp 1000w'',
        stat_size = Some 800, filename = Some ''h-1000.webp'',
        outputPath = Some ''img/h-1000.webp'', buffer = None\<rparr>,
       \<lparr>format = ''webp'', width = 2000, height = Some 2000, url = ''/img/h-2000.webp'',
        sourceType = Some ''image/webp'', srcset = ''/img/h-2000.webp 2000w'',
        stat_size = Some 3000, filename = Some ''h-2000.webp'',
        outputPath = Some ''img/h-2000.webp'', buffer = None\<rparr>]
      [Some ''svg'', Some ''webp'']) ''webp'') = Some [1000, 500]"
  by (simp add: transformRawFiles_def grouped_def sort_by_width_def js_sort_def obj_get_def
      svg_entry_size_def filter_group_def larger_than_def globalOptions_def)

section \<open>The hash ignores the options of the plan\<close>

lemma getFileContents_options:
  "getFileContents fs (img\<lparr>options := o'\<rparr>)
     = map_sum id (\<lambda>(c, i). (c, i\<lparr>options := o'\<rparr>)) (getFileContents fs img)"
  by (cases "src img"; cases "contents_memo img"; cases "fs (source_text (src img))")
     (simp_all add: getFileContents_def)

lemma getFileContents_computedHash:
  "getFileContents fs (img\<lparr>computedHash := h\<rparr>)
     = map_sum id (\<lambda>(c, i). (c, i\<lparr>computedHash := h\<rparr>)) (getFileContents fs img)"
  by (cases "src img"; cases "contents_memo img"; cases "fs (source_text (src img))")
     (simp_all add: getFileContents_def)

text \<open>Reading the contents changes nothing of the image but the memoized contents.\<close>

lemma getFileContents_memo:
  assumes "getFileContents fs img = Inr (c, img')"
  shows "\<exists>m. img' = img\<lparr>contents_memo := m\<rparr>"
proof (cases "isRemoteUrl img")
  case True
  with assms have "img' = img\<lparr>contents_memo := contents_memo img\<rparr>"
    by (simp add: getFileContents_def)
  then show ?thesis ..
next
  case False
  show ?thesis
  proof (cases "src img")
    case (SrcBuffer b)
    with False assms have "img' = img\<lparr>contents_memo := Some b\<rparr>"
      by (simp add: getFileContents_def)
    then show ?thesis ..
  next
    case (SrcString s)
    show ?thesis
    proof (cases "contents_memo img")
      case (Some m)
      with False SrcString assms have "img' = img\<lparr>contents_memo := contents_memo img\<rparr>"
        by (simp add: getFileContents_def)
      then show ?thesis ..
    next
      case None
      with False SrcString assms obtain d where "img' = img\<lparr>contents_memo := Some d\<rparr>"
        by (cases "fs s") (auto simp: getFileContents_def)
      then show ?thesis ..
    qed
  qed
qed

lemma getFileContents_again:
  assumes "getFileContents fs img = Inr (c, img')"
  shows "getFileContents fs img' = Inr (c, img')"
proof (cases "isRemoteUrl img")
  case True
  with assms show ?thesis by (auto simp: getFileContents_def)
next
  case False
  show ?thesis
  proof (cases "src img")
    case (SrcBuffer b)
    with False assms show ?thesis by (auto simp: getFileContents_def)
  next
    case (SrcString s)
    show ?thesis
    proof (cases "contents_memo img")
      case (Some m)
      with False SrcString assms show ?thesis by (auto simp: getFileContents_def)
    next
      case None
      with False SrcString assms show ?thesis
        by (cases "fs s") (auto simp: getFileContents_def)
    qed
  qed
qed

lemma hash_input_memo:
  assumes "hash_input x fs img = Inr (u, img')"
  shows "\<exists>m. img' = img\<lparr>contents_memo := m\<rparr>"
proof (cases "existsSync fs (source_text (src img))")
  case False
  with assms have "img' = img\<lparr>contents_memo := contents_memo img\<rparr>"
    by (simp add: hash_input_def)
  then show ?thesis ..
next
  case True
  show ?thesis
  proof (cases "getFileContents fs img")
    case (Inl e)
    with True assms show ?thesis by (simp add: hash_input_def)
  next
    case (Inr p)
    obtain c i where p: "p = (c, i)" by (cases p)
    have "i = img'" using True assms Inr p
      by (cases c) (auto simp: hash_input_def Let_def split: if_splits)
    with getFileContents_memo [OF Inr [unfolded p]] show ?thesis by simp
  qed
qed

lemma hash_input_options:
  assumes "useCacheValidityInHash o' = useCacheValidityInHash (options img)"
  shows "hash_input x fs (img\<lparr>options := o'\<rparr>)
     = map_sum id (\<lambda>(u, i). (u, i\<lparr>options := o'\<rparr>)) (hash_input x fs img)"
proof (cases "existsSync fs (source_text (src img))")
  case False
  with assms show ?thesis by (simp add: hash_input_def cache_duration_def)
next
  case True
  show ?thesis
  proof (cases "getFileContents fs img")
    case (Inl e)
    with True show ?thesis by (simp add: hash_input_def getFileContents_options)
  next
    case (Inr p)
    obtain c i where p: "p = (c, i)" by (cases p)
    show ?thesis using True Inr p
      by (cases c) (simp_all add: hash_input_def getFileContents_options Let_def)
  qed
qed

lemma hash_input_computedHash:
  "hash_input x fs (img\<lparr>computedHash := h\<rparr>)
     = map_sum id (\<lambda>(u, i). (u, i\<lparr>computedHash := h\<rparr>)) (hash_input x fs img)"
proof (cases "existsSync fs (source_text (src img))")
  case False
  then show ?thesis by (simp add: hash_input_def cache_duration_def)
next
  case True
  show ?thesis
  proof (cases "getFileContents fs img")
    case (Inl e)
    with True show ?thesis by (simp add: hash_input_def getFileContents_computedHash)
  next
    case (Inr p)
    obtain c i where p: "p = (c, i)" by (cases p)
    show ?thesis using True Inr p
      by (cases c) (simp_all add: hash_input_def getFileContents_computedHash Let_def)
  qed
qed

lemma hash_input_again:
  assumes "hash_input x fs img = Inr (u, img')"
  shows "hash_input x fs img' = Inr (u, img')"
proof (cases "existsSync fs (source_text (src img))")
  case False
  with assms show ?thesis by (auto simp: hash_input_def)
next
  case True
  show ?thesis
  proof (cases "getFileContents fs img")
    case (Inl e)
    with True assms show ?thesis by (simp add: hash_input_def)
  next
    case (Inr p)
    obtain c i where p: "p = (c, i)" by (cases p)
    have i: "i = img'" using True assms Inr p
      by (cases c) (auto simp: hash_input_def Let_def split: if_splits)
    from getFileContents_memo [OF Inr [unfolded p]] i have s: "src img' = src img" by auto
    from getFileContents_again [OF Inr [unfolded p]] i
    have "getFileContents fs img' = Inr (c, img')" by simp
    then show ?thesis using True assms Inr p i s
      by (cases c) (auto simp: hash_input_def Let_def split: if_splits)
  qed
qed

lemma getHash_options:
  assumes "useCacheValidityInHash o' = useCacheValidityInHash (options img)"
    and "hashObject o' = hashObject (options img)"
    and "hashLength o' = hashLength (options img)"
  shows "getHash x fs (img\<lparr>options := o'\<rparr>)
     = map_sum id (\<lambda>(h, i). (h, i\<lparr>options := o'\<rparr>)) (getHash x fs img)"
proof (cases "hash_input x fs img")
  case (Inl e)
  then show ?thesis using assms by (simp add: getHash_def hash_input_options)
next
  case (Inr p)
  obtain u i where p: "p = (u, i)" by (cases p)
  from hash_input_memo [OF Inr [unfolded p]] have "options i = options img" by auto
  then show ?thesis using assms Inr p
    by (simp add: getHash_def hash_input_options Let_def)
qed

text \<open>A second call on the same image returns the hash of the first.\<close>

lemma getHash_again:
  assumes "getHash x fs img = Inr (h, img')"
  shows "getHash x fs img' = Inr (h, img')"
proof (cases "computedHash img \<noteq> None \<and> computedHash img \<noteq> Some []")
  case True
  with assms show ?thesis by (auto simp: getHash_def)
next
  case False
  then obtain u i where hi: "hash_input x fs img = Inr (u, i)"
    using assms by (cases "hash_input x fs img") (auto simp: getHash_def)
  let ?h = "take (nat (hashLength (options i)))
              (url_safe (sha256_base64 x (u @ stringify (hashObject (options i)))))"
  have res: "h = ?h" "img' = i\<lparr>computedHash := Some ?h\<rparr>"
    using assms False hi by (auto simp: getHash_def Let_def)
  have "hash_input x fs img' = Inr (u, img')"
    unfolding res(2) by (simp add: hash_input_computedHash hash_input_again [OF hi])
  then show ?thesis
    by (simp add: getHash_def Let_def res)
qed

lemma exports_getHash_frame:
  "exports_getHash x fs source (opts\<lparr>widths := w, formats := f, outputDir := d, urlPath := u\<rparr>)
     = exports_getHash x fs source opts"
proof (cases "new_Image x source opts")
  case (Inl e)
  then show ?thesis
    by (simp add: exports_getHash_def new_Image_def Let_def split: if_splits)
next
  case (Inr img)
  let ?o = "opts\<lparr>widths := w, formats := f, outputDir := d, urlPath := u\<rparr>"
  have o: "options img = opts" using Inr by (auto simp: new_Image_def Let_def split: if_splits)
  have img': "new_Image x source ?o = Inr (img\<lparr>options := ?o\<rparr>)"
    using Inr by (auto simp: new_Image_def Let_def split: if_splits)
  have "getHash x fs (img\<lparr>options := ?o\<rparr>)
     = map_sum id (\<lambda>(h, i). (h, i\<lparr>options := ?o\<rparr>)) (getHash x fs img)"
    by (rule getHash_options) (simp_all add: o hashObject_def)
  then show ?thesis using Inr img'
    by (cases "getHash x fs img") (auto simp: exports_getHash_def)
qed

lemma exports_getHash_same_bytes:
  assumes "p1 \<noteq> []" "p2 \<noteq> []" "fs p1 = Some c" "fs p2 = Some c"
    and "\<not> Util_isRemoteUrl x p1" "\<not> Util_isRemoteUrl x p2"
  shows "exports_getHash x fs (SrcString p1) opts = exports_getHash x fs (SrcString p2) opts"
  using assms
  by (simp add: exports_getHash_def new_Image_def getHash_def hash_input_def existsSync_def
      getFileContents_def Let_def)

text \<open>
  A file and a \<open>Buffer\<close> of its bytes (which is not itself the path of a file): the
  file is hashed as \<open>svg_without_newlines\<close> of its bytes, the buffer as its bytes.
\<close>

lemma exports_getHash_file_buffer:
  assumes "p \<noteq> []" "fs p = Some c" "\<not> Util_isRemoteUrl x p" "fs c = None"
    and "svg_without_newlines x c = c"
  shows "exports_getHash x fs (SrcString p) opts = exports_getHash x fs (SrcBuffer c) opts"
  using assms
  by (simp add: exports_getHash_def new_Image_def getHash_def hash_input_def existsSync_def
      getFileContents_def Let_def)

text \<open>
  \<open>trim\<close> on a byte order mark and on an ideographic space; a file that starts with a
  byte order mark is recognised as SVG text.
\<close>

lemma trim_unicode_white_space:
  "trim ([CHR 0xEF, CHR 0xBB, CHR 0xBF, CHR 0x20] @ ''<svg a/>''
           @ [CHR 0xE3, CHR 0x80, CHR 0x80, CHR 0x0A])
     = ''<svg a/>''"
  "trim (''<svg '' @ [CHR 0xEF, CHR 0xBB, CHR 0xBF]) = ''<svg''"
  "trim (''a'' @ [CHR 0xC2, CHR 0x85] @ ''b'' @ [CHR 0xC2, CHR 0x85])
     = ''a'' @ [CHR 0xC2, CHR 0x85] @ ''b'' @ [CHR 0xC2, CHR 0x85]"
  by (simp_all add: trim_def is_white_def)

lemma svg_without_newlines_byte_order_mark:
  "svg_without_newlines example_ext
       ([CHR 0xEF, CHR 0xBB, CHR 0xBF] @ ''<svg a'' @ [CHR 0x0A] @ ''/>'')
     = [CHR 0xEF, CHR 0xBB, CHR 0xBF] @ ''<svg a/>''"
  by (simp add: svg_without_newlines_def trim_def is_white_def)

text \<open>
  C4 (amended). Two requests for the same source whose options differ in \<open>widths\<close>,
  \<open>formats\<close>, \<open>outputDir\<close> and \<open>urlPath\<close> only (so with the same sharp option
  objects) have the same hash; so have two such requests for two local files with the
  same bytes, and for a local file and a \<open>Buffer\<close> of its bytes when hashing leaves
  these bytes as they are (they are not SVG text with a line break). The hash is a
  function of the source, the options, the disk and the environment, and a hash
  computed once on an image is the hash that every later call on that image returns.
\<close>

theorem getHash_deterministic:
  "exports_getHash x fs source (opts\<lparr>widths := w, formats := f, outputDir := d, urlPath := u\<rparr>)
     = exports_getHash x fs source opts
   \<and> (\<forall>p1 p2 c. p1 \<noteq> [] \<and> p2 \<noteq> [] \<and> fs p1 = Some c \<and> fs p2 = Some c
          \<and> \<not> Util_isRemoteUrl x p1 \<and> \<not> Util_isRemoteUrl x p2 \<longrightarrow>
        exports_getHash x fs (SrcString p1)
            (opts\<lparr>widths := w, formats := f, outputDir := d, urlPath := u\<rparr>)
          = exports_getHash x fs (SrcString p2) opts)
   \<and> (\<forall>h img'. getHash x fs img = Inr (h, img') \<longrightarrow> getHash x fs img' = Inr (h, img'))
   \<and> (\<forall>p c. p \<noteq> [] \<and> fs p = Some c \<and> \<not> Util_isRemoteUrl x p \<and> fs c = None
          \<and> svg_without_newlines x c = c \<longrightarrow>
        exports_getHash x fs (SrcString p)
            (opts\<lparr>widths := w, formats := f, outputDir := d, urlPath := u\<rparr>)
          = exports_getHash x fs (SrcBuffer c) opts)"
proof (intro conjI allI impI)
  show "exports_getHash x fs source
          (opts\<lparr>widths := w, formats := f, outputDir := d, urlPath := u\<rparr>)
        = exports_getHash x fs source opts"
    by (rule exports_getHash_frame)
next
  fix p1 p2 c
  assume "p1 \<noteq> [] \<and> p2 \<noteq> [] \<and> fs p1 = Some c \<and> fs p2 = Some c
          \<and> \<not> Util_isRemoteUrl x p1 \<and> \<not> Util_isRemoteUrl x p2"
  then have "exports_getHash x fs (SrcString p1) opts = exports_getHash x fs (SrcString p2) opts"
    by (intro exports_getHash_same_bytes) simp_all
  then show "exports_getHash x fs (SrcString p1)
            (opts\<lparr>widths := w, formats := f, outputDir := d, urlPath := u\<rparr>)
          = exports_getHash x fs (SrcString p2) opts"
    by (simp add: exports_getHash_frame)
next
  fix h img'
  assume "getHash x fs img = Inr (h, img')"
  then show "getHash x fs img' = Inr (h, img')" by (rule getHash_again)
next
  fix p c
  assume "p \<noteq> [] \<and> fs p = Some c \<and> \<not> Util_isRemoteUrl x p \<and> fs c = None
          \<and> svg_without_newlines x c = c"
  then have "exports_getHash x fs (SrcString p) opts = exports_getHash x fs (SrcBuffer c) opts"
    by (intro exports_getHash_file_buffer) simp_all
  then show "exports_getHash x fs (SrcString p)
            (opts\<lparr>widths := w, formats := f, outputDir := d, urlPath := u\<rparr>)
          = exports_getHash x fs (SrcBuffer c) opts"
    by (simp add: exports_getHash_frame)
qed

text \<open>
  The statement at an SVG file on disk and a copy of it: the two files have the same
  hash under different widths and output directories; the first call on an image reads
  the file, drops its line break and memoizes the hash, and the second call returns the
  memoized hash. An SVG file of one line has the hash of a buffer of its bytes.
\<close>

theorem getHash_deterministic_witness:
  "exports_getHash example_ext
       [''cat.svg'' \<mapsto> ''<svg a'' @ [CHR 0x0A] @ ''/>'',
        ''copy.svg'' \<mapsto> ''<svg a'' @ [CHR 0x0A] @ ''/>'']
       (SrcString ''cat.svg'')
       (globalOptions\<lparr>widths := [WNum 300], formats := FormatsString ''png'',
                       outputDir := ''out/'', urlPath := ''/i/''\<rparr>)
     = exports_getHash example_ext
         [''cat.svg'' \<mapsto> ''<svg a'' @ [CHR 0x0A] @ ''/>'',
          ''copy.svg'' \<mapsto> ''<svg a'' @ [CHR 0x0A] @ ''/>'']
         (SrcString ''copy.svg'') globalOptions
   \<and> getHash example_ext [''cat.svg'' \<mapsto> ''<svg a'' @ [CHR 0x0A] @ ''/>'']
       \<lparr>src = SrcString ''cat.svg'', isRemoteUrl = False, options = globalOptions,
        img_cacheOptions = None, computedHash = None, contents_memo = None\<rparr>
     = Inr (''q-Z_svgash'',
         \<lparr>src = SrcString ''cat.svg'', isRemoteUrl = False, options = globalOptions,
          img_cacheOptions = None, computedHash = Some ''q-Z_svgash'',
          contents_memo = Some (''<svg a'' @ [CHR 0x0A] @ ''/>'')\<rparr>)
   \<and> getHash example_ext [''cat.svg'' \<mapsto> ''<svg a'' @ [CHR 0x0A] @ ''/>'']
       \<lparr>src = SrcString ''cat.svg'', isRemoteUrl = False, options = globalOptions,
        img_cacheOptions = None, computedHash = Some ''q-Z_svgash'',
        contents_memo = Some (''<svg a'' @ [CHR 0x0A] @ ''/>'')\<rparr>
     = Inr (''q-Z_svgash'',
         \<lparr>src = SrcString ''cat.svg'', isRemoteUrl = False, options = globalOptions,
          img_cacheOptions = None, computedHash = Some ''q-Z_svgash'',
          contents_memo = Some (''<svg a'' @ [CHR 0x0A] @ ''/>'')\<rparr>)
   \<and> exports_getHash example_ext [''line.svg'' \<mapsto> ''<svg a/>''] (SrcString ''line.svg'')
       (globalOptions\<lparr>widths := [WNum 300], formats := FormatsString ''png'',
                       outputDir := ''out/'', urlPath := ''/i/''\<rparr>)
     = exports_getHash example_ext [''line.svg'' \<mapsto> ''<svg a/>''] (SrcBuffer ''<svg a/>'')
         globalOptions"
proof -
  let ?fs = "[''cat.svg'' \<mapsto> ''<svg a'' @ [CHR 0x0A] @ ''/>'',
              ''copy.svg'' \<mapsto> ''<svg a'' @ [CHR 0x0A] @ ''/>'']"
  have files: "''cat.svg'' \<noteq> [] \<and> ''copy.svg'' \<noteq> []
      \<and> ?fs ''cat.svg'' = Some (''<svg a'' @ [CHR 0x0A] @ ''/>'')
      \<and> ?fs ''copy.svg'' = Some (''<svg a'' @ [CHR 0x0A] @ ''/>'')
      \<and> \<not> Util_isRemoteUrl example_ext ''cat.svg''
      \<and> \<not> Util_isRemoteUrl example_ext ''copy.svg''"
    by (simp add: Util_isRemoteUrl_def)
  have first: "getHash example_ext [''cat.svg'' \<mapsto> ''<svg a'' @ [CHR 0x0A] @ ''/>'']
     \<lparr>src = SrcString ''cat.svg'', isRemoteUrl = False, options = globalOptions,
      img_cacheOptions = None, computedHash = None, contents_memo = None\<rparr>
   = Inr (''q-Z_svgash'',
       \<lparr>src = SrcString ''cat.svg'', isRemoteUrl = False, options = globalOptions,
        img_cacheOptions = None, computedHash = Some ''q-Z_svgash'',
        contents_memo = Some (''<svg a'' @ [CHR 0x0A] @ ''/>'')\<rparr>)"
    by (simp add: getHash_def hash_input_def existsSync_def getFileContents_def
        svg_without_newlines_def trim_def is_white_def url_safe_def hashObject_globalOptions
        json_quote_def json_escape_def Let_def)
  have copy: "exports_getHash example_ext ?fs (SrcString ''cat.svg'')
       (globalOptions\<lparr>widths := [WNum 300], formats := FormatsString ''png'',
                       outputDir := ''out/'', urlPath := ''/i/''\<rparr>)
     = exports_getHash example_ext ?fs (SrcString ''copy.svg'') globalOptions"
    by (rule getHash_deterministic [THEN conjunct2, THEN conjunct1, rule_format, OF files])
  have again: "getHash example_ext [''cat.svg'' \<mapsto> ''<svg a'' @ [CHR 0x0A] @ ''/>'']
       \<lparr>src = SrcString ''cat.svg'', isRemoteUrl = False, options = globalOptions,
        img_cacheOptions = None, computedHash = Some ''q-Z_svgash'',
        contents_memo = Some (''<svg a'' @ [CHR 0x0A] @ ''/>'')\<rparr>
     = Inr (''q-Z_svgash'',
         \<lparr>src = SrcString ''cat.svg'', isRemoteUrl = False, options = globalOptions,
          img_cacheOptions = None, computedHash = Some ''q-Z_svgash'',
          contents_memo = Some (''<svg a'' @ [CHR 0x0A] @ ''/>'')\<rparr>)"
    by (rule getHash_deterministic
          [THEN conjunct2, THEN conjunct2, THEN conjunct1, rule_format, OF first])
  have line: "''line.svg'' \<noteq> []
      \<and> [''line.svg'' \<mapsto> ''<svg a/>''] ''line.svg'' = Some ''<svg a/>''
      \<and> \<not> Util_isRemoteUrl example_ext ''line.svg''
      \<and> [''line.svg'' \<mapsto> ''<svg a/>''] ''<svg a/>'' = None
      \<and> svg_without_newlines example_ext ''<svg a/>'' = ''<svg a/>''"
    by (simp add: Util_isRemoteUrl_def svg_without_newlines_def trim_def is_white_def)
  have buffer: "exports_getHash example_ext [''line.svg'' \<mapsto> ''<svg a/>'']
       (SrcString ''line.svg'')
       (globalOptions\<lparr>widths := [WNum 300], formats := FormatsString ''png'',
                       outputDir := ''out/'', urlPath := ''/i/''\<rparr>)
     = exports_getHash example_ext [''line.svg'' \<mapsto> ''<svg a/>''] (SrcBuffer ''<svg a/>'')
         globalOptions"
    by (rule getHash_deterministic
          [THEN conjunct2, THEN conjunct2, THEN conjunct2, rule_format, OF line])
  from copy first again buffer show ?thesis by (intro conjI)
qed

text \<open>
  C4 as the spec states it, for any two requests with identical source bytes, fails for
  a file and a \<open>Buffer\<close> of the same bytes: the line breaks of an SVG are removed before
  hashing only when the source is a file on disk, so the two hashes differ.
\<close>

theorem getHash_file_and_buffer_differ:
  "exports_getHash example_ext [''cat.svg'' \<mapsto> ''<svg a'' @ [CHR 0x0A] @ ''/>'']
       (SrcString ''cat.svg'') globalOptions = Inr ''q-Z_svgash''
   \<and> exports_getHash example_ext [''cat.svg'' \<mapsto> ''<svg a'' @ [CHR 0x0A] @ ''/>'']
       (SrcBuffer (''<svg a'' @ [CHR 0x0A] @ ''/>'')) globalOptions = Inr ''q-Z_svgas''"
  by (simp add: exports_getHash_def new_Image_def Util_isRemoteUrl_def getHash_def
      hash_input_def existsSync_def getFileContents_def svg_without_newlines_def trim_def
      is_white_def url_safe_def hashObject_globalOptions json_quote_def json_escape_def
      Let_def)

section \<open>The svg short circuit\<close>

text \<open>The svg-first sort puts an svg entry in front when there is one.\<close>

lemma js_insert_svg_first:
  assumes "Some ''svg'' \<notin> set ns"
  shows "js_insert svg_first f (replicate k (Some ''svg'') @ ns) =
     (if f = Some ''svg'' then replicate (Suc k) (Some ''svg'') @ ns
      else replicate k (Some ''svg'') @ ns @ [f])"
proof -
  have ns: "js_insert svg_first f ns = (if f = Some ''svg'' then f # ns else ns @ [f])"
    using assms by (induction ns) (auto simp: svg_first_def)
  have svg: "svg_first (Some ''svg'') f = -1" by (simp add: svg_first_def)
  show ?thesis
    by (induction k) (simp_all add: ns svg replicate_append_same)
qed

lemma js_sort_svg_first_foldl:
  assumes "Some ''svg'' \<notin> set ns"
  shows "\<exists>k' ns'. foldl (\<lambda>sorted f. js_insert svg_first f sorted) (replicate k (Some ''svg'') @ ns) fs
           = replicate k' (Some ''svg'') @ ns' \<and> Some ''svg'' \<notin> set ns'
           \<and> (k' > 0 \<longleftrightarrow> k > 0 \<or> Some ''svg'' \<in> set fs)"
  using assms
proof (induction fs arbitrary: k ns)
  case Nil
  then show ?case by auto
next
  case (Cons f fs)
  show ?case
  proof (cases "f = Some ''svg''")
    case True
    have "js_insert svg_first f (replicate k (Some ''svg'') @ ns) = replicate (Suc k) (Some ''svg'') @ ns"
      using Cons.prems True by (simp add: js_insert_svg_first)
    with Cons.IH [of ns "Suc k"] Cons.prems True show ?thesis by auto
  next
    case False
    have "js_insert svg_first f (replicate k (Some ''svg'') @ ns) = replicate k (Some ''svg'') @ (ns @ [f])"
      using Cons.prems False by (simp add: js_insert_svg_first)
    with Cons.IH [of "ns @ [f]" k] Cons.prems False show ?thesis by auto
  qed
qed

lemma js_sort_svg_first_head:
  assumes "Some ''svg'' \<in> set fs"
  shows "\<exists>rest. js_sort svg_first fs = Some ''svg'' # rest"
proof -
  from js_sort_svg_first_foldl [of "[]" 0 fs]
  obtain k' ns' where "js_sort svg_first fs = replicate k' (Some ''svg'') @ ns'" "k' > 0"
    using assms by (auto simp: js_sort_def)
  then show ?thesis by (cases k') auto
qed

lemma set_js_unique: "set (js_unique seen xs) = set xs - set seen"
  by (induction xs arbitrary: seen) auto

lemma set_new_Set: "set (new_Set xs) = set xs"
  by (simp add: new_Set_def set_js_unique)

lemma set_js_sort_foldl: "set (foldl (\<lambda>sorted x. js_insert cmp x sorted) acc xs) = set acc \<union> set xs"
  by (induction xs arbitrary: acc) (auto simp: set_js_insert)

lemma set_js_sort: "set (js_sort cmp xs) = set xs"
  by (simp add: js_sort_def set_js_sort_foldl)

lemma getFormatsArray_svg_head:
  assumes "Some ''svg'' \<in> set (getFormatsArray fa auto' mode)" "mode \<noteq> SvgSize"
  shows "\<exists>rest. getFormatsArray fa auto' mode = Some ''svg'' # rest"
proof -
  define entries where "entries = (case fa of
                       FormatsNone \<Rightarrow> []
                     | FormatsString s \<Rightarrow> (if s = [] then [] else map Some (split_comma [] s))
                     | FormatsArray fs \<Rightarrow> fs)"
  have ne: "entries \<noteq> []" using assms(1)
    by (auto simp: getFormatsArray_def entries_def Let_def split: if_splits)
  have eq: "getFormatsArray fa auto' mode = new_Set (js_sort svg_first (map (resolve_format auto') entries))"
    using ne assms(2) by (simp add: getFormatsArray_def entries_def Let_def)
  with assms(1) have "Some ''svg'' \<in> set (map (resolve_format auto') entries)"
    by (simp only: set_new_Set set_js_sort)
  from js_sort_svg_first_head [OF this]
  obtain rest where "js_sort svg_first (map (resolve_format auto') entries) = Some ''svg'' # rest" ..
  then show ?thesis by (simp add: eq new_Set_def)
qed


lemma getHash_options_same:
  assumes "getHash x fs img = Inr (h, img')"
  shows "options img' = options img"
proof (cases "computedHash img \<noteq> None \<and> computedHash img \<noteq> Some []")
  case True
  with assms show ?thesis by (auto simp: getHash_def)
next
  case False
  then obtain u i where hi: "hash_input x fs img = Inr (u, i)"
    using assms by (cases "hash_input x fs img") (auto simp: getHash_def)
  from hash_input_memo [OF hi] have "options i = options img" by auto
  then show ?thesis using assms False hi by (auto simp: getHash_def Let_def)
qed

lemma getStat_result:
  assumes "getStat x fs img outputFormat w h = Inr (st, img')"
  shows "options img' = options img \<and> format st = outputFormat \<and> width st = w"
proof (cases "urlFormat (options img)")
  case None
  then obtain hash i where gh: "getHash x fs img = Inr (hash, i)"
    using assms by (cases "getHash x fs img") (auto simp: getStat_def Let_def)
  from getHash_options_same [OF gh] assms None gh show ?thesis
    by (auto simp: getStat_def Let_def)
next
  case (Some f)
  show ?thesis
  proof (cases "statsOnly (options img)")
    case True
    with Some assms show ?thesis by (auto simp: getStat_def Let_def)
  next
    case False
    then obtain hash i where gh: "getHash x fs img = Inr (hash, i)"
      using assms Some by (cases "getHash x fs img") (auto simp: getStat_def Let_def)
    from getHash_options_same [OF gh] assms Some False gh show ?thesis
      by (auto simp: getStat_def Let_def)
  qed
qed

lemma corrected_metadata_keeps:
  "mformat (corrected_metadata md) = mformat md" "msize (corrected_metadata md) = msize md"
  by (simp_all add: corrected_metadata_def Let_def split: option.splits)

lemma set_obj_set: "set (obj_set byType key v) \<subseteq> insert (key, v) (set byType)"
  by (induction byType key v rule: obj_set.induct) auto

lemma obj_set_all:
  assumes "\<forall>(k, w) \<in> set byType. P w" "P v"
  shows "\<forall>(k, w) \<in> set (obj_set byType key v). P w"
  using assms set_obj_set [of byType key v] by blast

lemma init_byType_empty:
  "\<forall>(k, v) \<in> set byType. v = [] \<Longrightarrow> \<forall>(k, v) \<in> set (init_byType fmts byType). v = []"
proof (induction fmts arbitrary: byType)
  case Nil
  then show ?case by simp
next
  case (Cons f fmts)
  have set: "\<forall>(k, v) \<in> set (obj_set byType key []). v = []" for key
    using Cons.prems by (intro obj_set_all) simp_all
  show ?case using Cons.IH [OF Cons.prems] Cons.IH [OF set]
    by (cases f) auto
qed

lemma plan_entries_obj_set:
  "\<forall>(k, v) \<in> set byType. v = [] \<Longrightarrow> plan_entries (obj_set byType key v) = map (Pair key) v"
  by (induction byType) (auto simp: plan_entries_def)

lemma obj_get_empty:
  "\<forall>(k, v) \<in> set byType. v = [] \<Longrightarrow> obj_get byType key = Some v \<Longrightarrow> v = []"
  by (auto simp: obj_get_def dest: map_of_SomeD)

lemma obj_set_idem: "obj_set (obj_set byType key v) key v' = obj_set byType key v'"
  by (induction byType) auto

lemma obj_get_obj_set: "obj_get (obj_set byType key v) key = Some v"
  by (induction byType) (auto simp: obj_get_def)

lemma plan_entries_sort_by_width:
  "\<forall>(k, v) \<in> set byType. length v \<le> 1 \<Longrightarrow> plan_entries (sort_by_width byType) = plan_entries byType"
proof (induction byType)
  case Nil
  then show ?case by (simp add: sort_by_width_def)
next
  case (Cons p byType)
  obtain k v where p: "p = (k, v)" by (cases p)
  have "js_sort cmp v = v" for cmp :: "stat \<Rightarrow> stat \<Rightarrow> int"
    using Cons.prems p by (cases v) (auto simp: js_sort_def)
  then show ?case using Cons p by (simp add: sort_by_width_def plan_entries_def)
qed

lemma grouped_single:
  "plan_entries (grouped [st] fmts) = [(format st, st)]"
proof -
  let ?init = "init_byType fmts []"
  have e: "\<forall>(k, v) \<in> set ?init. v = []" by (rule init_byType_empty) simp
  have old: "obj_get ?init (format st) = None \<or> obj_get ?init (format st) = Some []"
    using obj_get_empty [OF e] by (cases "obj_get ?init (format st)") auto
  have push: "push_files [st] ?init = obj_set ?init (format st) [st]"
    using old by (auto simp: Let_def obj_set_idem obj_get_obj_set)
  have "\<forall>(k, v) \<in> set ?init. length v \<le> 1" using e by auto
  then have small: "\<forall>(k, v) \<in> set (obj_set ?init (format st) [st]). length v \<le> 1"
    by (intro obj_set_all) simp_all
  show ?thesis
    unfolding grouped_def push
    by (simp add: plan_entries_sort_by_width [OF small] plan_entries_obj_set [OF e])
qed

lemma transformRawFiles_no_filter:
  "svgShortCircuit opts \<noteq> SvgSize \<Longrightarrow> transformRawFiles opts files fmts = grouped files fmts"
  by (simp add: transformRawFiles_def Let_def split: option.splits prod.splits)

text \<open>
  C5 (amended). For a source whose native format is SVG, with svgShortCircuit true and
  svg among the resolved output formats, the loop over the formats stops behind the svg
  stat: the plan holds that stat alone (the raster formats keep their groups, which are
  empty), or the call fails with the error of computing that stat.
\<close>

theorem svg_short_circuit_plan:
  assumes "mformat md = Some ''svg''"
    and "svgShortCircuit (options img) = SvgTrue"
    and "Some ''svg'' \<in> set (getFormatsArray (formats (options img)) (Some ''svg'') SvgTrue)"
  shows "case getStat x fs img ''svg'' (mwidth (corrected_metadata md))
                (Some (mheight (corrected_metadata md))) of
           Inl e \<Rightarrow> getFullStats x fs img md = Inl e
         | Inr (svgStats, img') \<Rightarrow>
             \<exists>fullStats. getFullStats x fs img md = Inr (fullStats, img', corrected_metadata md)
               \<and> plan_entries fullStats =
                   [(''svg'', if msize md \<noteq> None \<and> msize md \<noteq> Some 0
                              then svgStats\<lparr>stat_size := msize md\<rparr> else svgStats)]"
proof -
  let ?md = "corrected_metadata md"
  have native: "native_format md (options img) = Some ''svg''"
      "native_format ?md (options img) = Some ''svg''"
    using assms(1) by (simp_all add: native_format_def falsy_format_def corrected_metadata_keeps)
  obtain rest where fmts: "getFormatsArray (formats (options img)) (Some ''svg'') SvgTrue
      = Some ''svg'' # rest"
    using getFormatsArray_svg_head [OF assms(3)] by auto
  show ?thesis
  proof (cases "getStat x fs img ''svg'' (mwidth ?md) (Some (mheight ?md))")
    case (Inl e)
    then show ?thesis using assms(2) native fmts
      by (simp add: getFullStats_def Let_def falsy_format_def)
  next
    case (Inr p)
    obtain svgStats img' where p: "p = (svgStats, img')" by (cases p)
    from getStat_result [OF Inr [unfolded p]]
    have o: "options img' = options img" and f: "format svgStats = ''svg''" by simp_all
    let ?sized = "if msize md \<noteq> None \<and> msize md \<noteq> Some 0
                  then svgStats\<lparr>stat_size := msize md\<rparr> else svgStats"
    have loop: "format_stats x fs ?md (Some ''svg'' # rest) img [] = Inr ([?sized], img')"
      using Inr p assms(2) native o
      by (simp add: Let_def falsy_format_def corrected_metadata_keeps)
    have "plan_entries (transformRawFiles (options img') [?sized] (Some ''svg'' # rest))
        = [(''svg'', ?sized)]"
      using assms(2) o f by (simp add: transformRawFiles_no_filter grouped_single)
    then show ?thesis using Inr p loop native fmts assms(2)
      by (simp add: getFullStats_def Let_def)
  qed
qed

lemma int_toString_500: "int_toString 500 = ''500''"
  by (simp add: int_toString_def)

text \<open>
  The amended statement at an SVG file 500 wide with the formats svg and jpeg: the plan
  has the svg stat and nothing else.
\<close>

theorem svg_short_circuit_plan_witness:
  "\<exists>fullStats img'.
     getFullStats example_ext [''logo.svg'' \<mapsto> ''<svg/>'']
       \<lparr>src = SrcString ''logo.svg'', isRemoteUrl = False,
        options = globalOptions\<lparr>formats := FormatsArray [Some ''svg'', Some ''jpeg''],
                                 svgShortCircuit := SvgTrue\<rparr>,
        img_cacheOptions = None, computedHash = None, contents_memo = None\<rparr>
       \<lparr>mwidth = 500, mheight = 500, mformat = Some ''svg'', orientation = None,
        pageHeight = None, msize = None\<rparr>
     = Inr (fullStats, img',
            \<lparr>mwidth = 500, mheight = 500, mformat = Some ''svg'', orientation = None,
             pageHeight = None, msize = None\<rparr>)
     \<and> map (\<lambda>(f, st). (f, url st)) (plan_entries fullStats)
         = [(''svg'', ''/img/q-Z_svgsha-500.svg'')]"
proof -
  let ?img = "\<lparr>src = SrcString ''logo.svg'', isRemoteUrl = False,
        options = globalOptions\<lparr>formats := FormatsArray [Some ''svg'', Some ''jpeg''],
                                 svgShortCircuit := SvgTrue\<rparr>,
        img_cacheOptions = None, computedHash = None, contents_memo = None\<rparr>"
  let ?md = "\<lparr>mwidth = 500, mheight = 500, mformat = Some ''svg'', orientation = None,
        pageHeight = None, msize = None\<rparr>"
  have h1: "mformat ?md = Some ''svg''" by simp
  have h2: "svgShortCircuit (options ?img) = SvgTrue" by simp
  have h3: "Some ''svg'' \<in> set (getFormatsArray (formats (options ?img)) (Some ''svg'') SvgTrue)"
    by (simp add: getFormatsArray_def resolve_format_def falsy_format_def FORMAT_ALIASES_def
        js_sort_def svg_first_def new_Set_def)
  have md: "corrected_metadata ?md = ?md"
    by (simp add: corrected_metadata_def needsRotation_def)
  have st: "getStat example_ext [''logo.svg'' \<mapsto> ''<svg/>''] ?img ''svg'' 500 (Some 500)
     = Inr (\<lparr>format = ''svg'', width = 500, height = Some 500,
             url = ''/img/q-Z_svgsha-500.svg'', sourceType = Some ''image/svg+xml'',
             srcset = ''/img/q-Z_svgsha-500.svg 500w'', stat_size = None,
             filename = Some ''q-Z_svgsha-500.svg'',
             outputPath = Some ''img/q-Z_svgsha-500.svg'', buffer = None\<rparr>,
            ?img\<lparr>computedHash := Some ''q-Z_svgsha'', contents_memo := Some ''<svg/>''\<rparr>)"
    by (simp add: getStat_def getHash_def hash_input_def existsSync_def getFileContents_def
        svg_without_newlines_def trim_def is_white_def url_safe_def hashObject_def
        getSortedObject_def js_sort_def object_keys_def json_quote_def json_escape_def
        Let_def obj_get_def
        ImagePath_getFilename_def ImagePath_filenameFormat_def
        ImagePath_convertFilePathToUrl_def MIME_TYPES_def int_toString_500)
  show ?thesis
    using svg_short_circuit_plan [OF h1 h2 h3, of example_ext "[''logo.svg'' \<mapsto> ''<svg/>'']"]
    unfolding md by (auto simp: st)
qed

text \<open>
  C5 as the spec states it, for every SVG source under svgShortCircuit true, fails when
  svg is not among the requested formats: with the default formats webp and jpeg the
  plan of an SVG source holds the two raster stats.
\<close>

theorem svg_short_circuit_without_svg_format:
  "map_sum id (\<lambda>(fullStats, img', md'). map (\<lambda>(f, st). (f, url st)) (plan_entries fullStats))
    (getFullStats example_ext [''logo.svg'' \<mapsto> ''<svg/>'']
     \<lparr>src = SrcString ''logo.svg'', isRemoteUrl = False,
      options = globalOptions\<lparr>svgShortCircuit := SvgTrue\<rparr>,
      img_cacheOptions = None, computedHash = None, contents_memo = None\<rparr>
     \<lparr>mwidth = 500, mheight = 500, mformat = Some ''svg'', orientation = None,
      pageHeight = None, msize = None\<rparr>)
   = Inr [(''webp'', ''/img/q-Z_svgsha-500.webp''), (''jpeg'', ''/img/q-Z_svgsha-500.jpeg'')]"
  by (simp add: getFullStats_def getFormatsArray_def resolve_format_def falsy_format_def
        FORMAT_ALIASES_def native_format_def corrected_metadata_def needsRotation_def
        new_Set_def svg_first_def getValidWidths_def
        getStat_def getHash_def hash_input_def existsSync_def getFileContents_def
        svg_without_newlines_def trim_def is_white_def url_safe_def hashObject_def
        getSortedObject_def js_sort_def object_keys_def json_quote_def json_escape_def
        Let_def obj_get_def ImagePath_getFilename_def ImagePath_filenameFormat_def
        ImagePath_convertFilePathToUrl_def MIME_TYPES_def int_toString_500
        transformRawFiles_def grouped_def sort_by_width_def svg_entry_size_def plan_entries_def)

section \<open>The calls of the entry point, case by case\<close>

lemma queueImage_cases:
  obtains (thrown) e where "queueImage x source opts w = (Thrown e, w)"
  | (hit) img key p where "new_Image x source opts = Inr img" "useCache (options img)"
      "getInMemoryCacheKey x (disk w) img = Inr key"
      "MemoryCache_get (memCache w) key = Some p"
      "queueImage x source opts w = (Promise p, w)"
  | (miss) img key p w' where "new_Image x source opts = Inr img" "useCache (options img)"
      "getInMemoryCacheKey x (disk w) img = Inr key"
      "MemoryCache_get (memCache w) key = None"
      "run_job x img source opts w = (p, w')"
      "queueImage x source opts w
         = (Promise p, w'\<lparr>memCache := MemoryCache_add (memCache w') key p\<rparr>)"
  | (uncached) img p w' where "new_Image x source opts = Inr img" "\<not> useCache (options img)"
      "run_job x img source opts w = (p, w')"
      "queueImage x source opts w = (Promise p, w')"
proof (cases "new_Image x source opts")
  case (Inl e)
  then have "queueImage x source opts w = (Thrown e, w)" by (simp add: queueImage_def)
  then show ?thesis by (rule thrown)
next
  case (Inr img)
  obtain p w' where job: "run_job x img source opts w = (p, w')"
    by (cases "run_job x img source opts w")
  show ?thesis
  proof (cases "useCache (options img)")
    case False
    with Inr job have "queueImage x source opts w = (Promise p, w')"
      by (simp add: queueImage_def)
    with Inr False job show ?thesis by (rule uncached)
  next
    case True
    show ?thesis
    proof (cases "getInMemoryCacheKey x (disk w) img")
      case (Inl e)
      with Inr True have "queueImage x source opts w = (Thrown e, w)"
        by (simp add: queueImage_def)
      then show ?thesis by (rule thrown)
    next
      case key: (Inr key)
      show ?thesis
      proof (cases "MemoryCache_get (memCache w) key")
        case None
        with Inr True key job have "queueImage x source opts w
            = (Promise p, w'\<lparr>memCache := MemoryCache_add (memCache w') key p\<rparr>)"
          by (simp add: queueImage_def)
        with Inr True key None job show ?thesis by (rule miss)
      next
        case (Some cached)
        with Inr True key have "queueImage x source opts w = (Promise cached, w)"
          by (simp add: queueImage_def)
        with Inr True key Some show ?thesis by (rule hit)
      qed
    qed
  qed
qed

lemma new_Image_options: "new_Image x source opts = Inr img \<Longrightarrow> options img = opts"
  by (auto simp: new_Image_def Let_def split: if_splits)

section \<open>Calls with statsOnly\<close>

lemma stats_only_effects:
  "\<exists>es. events (snd (stats_only x img s opts w)) = events w @ es
        \<and> es \<in> {[], [ImageSizeProbed]} \<and> (Util_isRemoteUrl x s \<longrightarrow> es = [])
        \<and> disk (snd (stats_only x img s opts w)) = disk w"
  by (auto simp: stats_only_def emit_def split: option.splits sum.splits prod.splits)

text \<open>
  A call with \<open>statsOnly\<close> for a source given as a string, a local path or a remote
  URL, never invokes the codec engine and writes nothing: a remote source adds no event
  at all (its metadata come from \<open>remoteImageMetadata\<close>), a local one at most the
  dimension probe.
\<close>

lemma statsOnly_string_source_no_codec:
  assumes "statsOnly opts"
  shows "\<exists>es. events (snd (queueImage x (SrcString s) opts w)) = events w @ es
        \<and> es \<in> {[], [ImageSizeProbed]} \<and> (Util_isRemoteUrl x s \<longrightarrow> es = [])
        \<and> \<not> (\<exists>e \<in> set es. codec_event e)
        \<and> disk (snd (queueImage x (SrcString s) opts w)) = disk w"
proof -
  have job: "run_job x img (SrcString s) opts w = stats_only x img s opts w" for img
    using assms by (simp add: run_job_def)
  show ?thesis
  proof (cases x "SrcString s" opts w rule: queueImage_cases)
    case (thrown e)
    then show ?thesis by simp
  next
    case (hit img key p)
    then show ?thesis by simp
  next
    case (miss img key p w')
    then have "snd (stats_only x img s opts w) = w'" by (simp add: job)
    with stats_only_effects [of x img s opts w] miss(6) show ?thesis by auto
  next
    case (uncached img p w')
    then have "snd (stats_only x img s opts w) = w'" by (simp add: job)
    with stats_only_effects [of x img s opts w] uncached(4) show ?thesis by auto
  qed
qed

section \<open>The in-memory cache keeps what it was given\<close>

lemma served_from_cache:
  assumes "queueImage x source opts w = (Promise p, w')"
    and "useCache opts" "useCache opts2"
    and "new_Image x source opts = Inr img" "new_Image x source opts2 = Inr img2"
    and "getInMemoryCacheKey x (disk w') img2 = getInMemoryCacheKey x (disk w) img"
  shows "queueImage x source opts2 w' = (Promise p, w')"
proof -
  have o: "options img = opts" "options img2 = opts2"
    using assms(4,5) by (simp_all add: new_Image_options)
  show ?thesis
  proof (cases x source opts w rule: queueImage_cases)
    case (thrown e)
    with assms(1) show ?thesis by simp
  next
    case (hit img' key q)
    with assms(1,4) have "w' = w" "q = p" "img' = img" by auto
    with hit assms(6) have "getInMemoryCacheKey x (disk w') img2 = Inr key"
      "MemoryCache_get (memCache w') key = Some p" by simp_all
    with assms(3,5) o show ?thesis by (simp add: queueImage_def)
  next
    case (miss img' key q w'')
    with assms(1,4) have w': "w' = w''\<lparr>memCache := MemoryCache_add (memCache w'') key p\<rparr>"
      and "img' = img" by auto
    with miss assms(6) have key: "getInMemoryCacheKey x (disk w') img2 = Inr key" by simp
    have "MemoryCache_get (memCache w') key = Some p"
      by (simp add: w' MemoryCache_get_def MemoryCache_add_def obj_get_obj_set)
    with assms(3,5) o key show ?thesis by (simp add: queueImage_def)
  next
    case (uncached img' q w'')
    with assms(2,4) o show ?thesis by simp
  qed
qed

text \<open>A local source that is not on disk, with caching enabled: the call itself throws.\<close>

lemma queueImage_missing_file:
  assumes "useCache opts" "s \<noteq> []" "\<not> Util_isRemoteUrl x s" "disk w s = None"
  shows "queueImage x (SrcString s) opts w = (Thrown (External ''ENOENT''), w)"
  using assms by (simp add: queueImage_def new_Image_def getInMemoryCacheKey_def Let_def)

text \<open>A failed fetch and a source that the codec engine refuses reject the promise.\<close>

lemma failed_fetch_rejects:
  assumes "isRemoteUrl img" "fetch x (source_text (src img)) = Inl e"
  shows "fst (process_image x img w) = Inl e"
  using assms by (simp add: process_image_def)

lemma failed_metadata_rejects:
  assumes "sharp_metadata x (disk w) input
             (JObj (object_assign [(''failOnError'', JBool False)]
                      (case sharpOptions (options img) of None \<Rightarrow> [] | Some so \<Rightarrow> so)))
           = Inl e"
  shows "fst (resize x img input w) = Inl e"
  using assms by (simp add: resize_def emit_def Let_def)

text \<open>A promise returned with caching enabled is in the cache under the key of the call.\<close>

lemma promise_is_cached:
  assumes "queueImage x source opts w = (Promise p, w')"
    and "useCache opts" "new_Image x source opts = Inr img"
  shows "\<exists>key. getInMemoryCacheKey x (disk w) img = Inr key
           \<and> MemoryCache_get (memCache w') key = Some p"
proof -
  have o: "options img = opts" using assms(3) by (simp add: new_Image_options)
  show ?thesis
  proof (cases x source opts w rule: queueImage_cases)
    case (thrown e)
    with assms(1) show ?thesis by simp
  next
    case (hit img' key q)
    with assms(1,3) show ?thesis by auto
  next
    case (miss img' key q w'')
    with assms(1,3) have "w' = w''\<lparr>memCache := MemoryCache_add (memCache w'') key p\<rparr>"
      and "img' = img" by auto
    with miss(3) show ?thesis
      by (simp add: MemoryCache_get_def MemoryCache_add_def obj_get_obj_set)
  next
    case (uncached img' q w'')
    with assms(2,3) o show ?thesis by simp
  qed
qed

text \<open>
  C6 (amended). With caching enabled a failure reaches the caller in one of two ways.
  A call that throws by itself, before a job is queued, leaves the cache and the rest of
  the world as they were, so a later call runs again; a local source that is not on disk
  fails in this way, when its size is read for the key. Every other call returns a
  promise, fulfilled or rejected (a failed fetch, a codec or a write error), and that
  promise is put in the cache and stays there: a later call with an equivalent signature
  (the same key) is given that same promise, and nothing is run again.
\<close>

theorem failure_thrown_or_cached:
  assumes "useCache opts"
  shows "(\<forall>e w'. queueImage x source opts w = (Thrown e, w') \<longrightarrow> w' = w)
   \<and> (\<forall>s. source = SrcString s \<and> s \<noteq> [] \<and> \<not> Util_isRemoteUrl x s \<and> disk w s = None \<longrightarrow>
        queueImage x source opts w = (Thrown (External ''ENOENT''), w))
   \<and> (\<forall>p w' img. queueImage x source opts w = (Promise p, w')
          \<and> new_Image x source opts = Inr img
          \<and> getInMemoryCacheKey x (disk w') img = getInMemoryCacheKey x (disk w) img \<longrightarrow>
        (\<exists>key. getInMemoryCacheKey x (disk w) img = Inr key
            \<and> MemoryCache_get (memCache w') key = Some p)
        \<and> queueImage x source opts w' = (Promise p, w'))"
proof (intro conjI allI impI)
  fix e w'
  assume "queueImage x source opts w = (Thrown e, w')"
  then show "w' = w"
    by (cases x source opts w rule: queueImage_cases) simp_all
next
  fix s
  assume "source = SrcString s \<and> s \<noteq> [] \<and> \<not> Util_isRemoteUrl x s \<and> disk w s = None"
  with assms show "queueImage x source opts w = (Thrown (External ''ENOENT''), w)"
    by (simp add: queueImage_missing_file)
next
  fix p w' img
  assume a: "queueImage x source opts w = (Promise p, w')
          \<and> new_Image x source opts = Inr img
          \<and> getInMemoryCacheKey x (disk w') img = getInMemoryCacheKey x (disk w) img"
  then have q: "queueImage x source opts w = (Promise p, w')"
    and n: "new_Image x source opts = Inr img"
    and k: "getInMemoryCacheKey x (disk w') img = getInMemoryCacheKey x (disk w) img"
    by simp_all
  show "\<exists>key. getInMemoryCacheKey x (disk w) img = Inr key
            \<and> MemoryCache_get (memCache w') key = Some p"
    by (rule promise_is_cached [OF q assms n])
  show "queueImage x source opts w' = (Promise p, w')"
    by (rule served_from_cache [OF q assms assms n n k])
qed

lemma map_const_snd: "map (\<lambda>(key, hook). (key, c)) xs = map (\<lambda>key. (key, c)) (map fst xs)"
  by (induction xs) auto

lemma options_object_functions:
  assumes "opts2 = opts1\<lparr>urlFormat := uf, filenameFormat := ff, sharpHook := sh, formatHooks := fh\<rparr>"
    and "(uf = None) = (urlFormat opts1 = None)"
    and "(ff = None) = (filenameFormat opts1 = None)"
    and "(sh = None) = (sharpHook opts1 = None)"
    and "map fst fh = map fst (formatHooks opts1)"
  shows "options_object opts2 = options_object opts1"
proof -
  have u: "optional_json uf (\<lambda>f. JFun) = optional_json (urlFormat opts1) (\<lambda>f. JFun)"
    using assms(2) by (cases uf; cases "urlFormat opts1") (simp_all add: optional_json_def)
  have f: "optional_json ff (\<lambda>f. JFun) = optional_json (filenameFormat opts1) (\<lambda>f. JFun)"
    using assms(3) by (cases ff; cases "filenameFormat opts1") (simp_all add: optional_json_def)
  have s: "optional_json sh (\<lambda>f. JFun) = optional_json (sharpHook opts1) (\<lambda>f. JFun)"
    using assms(4) by (cases sh; cases "sharpHook opts1") (simp_all add: optional_json_def)
  have h: "map (\<lambda>(key, hook). (key, JFun)) fh
      = map (\<lambda>(key, hook). (key, JFun)) (formatHooks opts1)"
    using assms(5) by (simp add: map_const_snd)
  show ?thesis
    unfolding assms(1) options_object_def by (simp add: u f s h)
qed

lemma getInMemoryCacheKey_options:
  assumes "options_object opts2 = options_object (options img)"
  shows "getInMemoryCacheKey x fs (img\<lparr>options := opts2\<rparr>) = getInMemoryCacheKey x fs img"
  using assms by (simp add: getInMemoryCacheKey_def cache_duration_def Let_def)

text \<open>
  C10. Two calls on the same source whose options differ only in the functions given
  for \<open>urlFormat\<close>, \<open>filenameFormat\<close>, \<open>sharpHook\<close> and in \<open>formatHooks\<close> (hooks for the
  same formats) have the same in-memory cache key, and with caching enabled the second
  call is given the promise of the first and runs nothing.
\<close>

theorem function_options_share_cache_entry:
  assumes "opts2 = opts1\<lparr>urlFormat := uf, filenameFormat := ff, sharpHook := sh, formatHooks := fh\<rparr>"
    and "(uf = None) = (urlFormat opts1 = None)"
    and "(ff = None) = (filenameFormat opts1 = None)"
    and "(sh = None) = (sharpHook opts1 = None)"
    and "map fst fh = map fst (formatHooks opts1)"
    and "new_Image x source opts1 = Inr img1"
  shows "new_Image x source opts2 = Inr (img1\<lparr>options := opts2\<rparr>)
     \<and> getInMemoryCacheKey x fs (img1\<lparr>options := opts2\<rparr>) = getInMemoryCacheKey x fs img1
     \<and> (useCache opts1 \<and> queueImage x source opts1 w = (Promise p, w')
          \<and> getInMemoryCacheKey x (disk w') img1 = getInMemoryCacheKey x (disk w) img1
        \<longrightarrow> queueImage x source opts2 w' = (Promise p, w'))"
proof -
  have o: "options img1 = opts1" using assms(6) by (rule new_Image_options)
  have obj: "options_object opts2 = options_object (options img1)"
    unfolding o using assms(1-5) by (rule options_object_functions)
  have img2: "new_Image x source opts2 = Inr (img1\<lparr>options := opts2\<rparr>)"
    using assms(6) unfolding assms(1) by (auto simp: new_Image_def Let_def split: if_splits)
  have key: "getInMemoryCacheKey x fs' (img1\<lparr>options := opts2\<rparr>) = getInMemoryCacheKey x fs' img1"
    for fs' using obj by (rule getInMemoryCacheKey_options)
  have "queueImage x source opts2 w' = (Promise p, w')"
    if "useCache opts1" "queueImage x source opts1 w = (Promise p, w')"
      "getInMemoryCacheKey x (disk w') img1 = getInMemoryCacheKey x (disk w) img1"
  proof (rule served_from_cache [OF that(2) that(1) _ assms(6) img2])
    show "useCache opts2" using that(1) by (simp add: assms(1))
    show "getInMemoryCacheKey x (disk w') (img1\<lparr>options := opts2\<rparr>)
        = getInMemoryCacheKey x (disk w) img1" using that(3) by (simp add: key)
  qed
  with img2 key show ?thesis by blast
qed


section \<open>Concrete runs\<close>

lemma int_toString_300: "int_toString 300 = ''300''"
  by (simp add: int_toString_def)

lemmas run_defs = getFullStats_def getFormatsArray_def resolve_format_def falsy_format_def
  FORMAT_ALIASES_def native_format_def corrected_metadata_def needsRotation_def
  new_Set_def svg_first_def getValidWidths_def
  getStat_def getHash_def hash_input_def existsSync_def getFileContents_def
  svg_without_newlines_def trim_def is_white_def url_safe_def hashObject_def
  getSortedObject_def js_sort_def object_keys_def json_quote_def json_escape_def
  Let_def obj_get_def ImagePath_getFilename_def ImagePath_filenameFormat_def
  ImagePath_convertFilePathToUrl_def MIME_TYPES_def int_toString_500 int_toString_300
  transformRawFiles_def grouped_def sort_by_width_def svg_entry_size_def plan_entries_def
  resize_def materialize_def stat_cached_def prepare_instance_def with_format_def
  make_dir_def write_output_def emit_def getSharpOptionsForFormat_def object_assign_def
  svgHook_def filter_group_def larger_than_def

text \<open>The key of a remote source or of a buffer does not depend on the disk.\<close>

lemma key_without_disk:
  assumes "isRemoteUrl img \<or> (\<exists>b. src img = SrcBuffer b)"
  shows "\<exists>key. \<forall>fs. getInMemoryCacheKey x fs img = Inr key"
proof (cases "isRemoteUrl img")
  case True
  then show ?thesis by (simp add: getInMemoryCacheKey_def Let_def)
next
  case False
  with assms obtain b where "src img = SrcBuffer b" by auto
  with False show ?thesis by (simp add: getInMemoryCacheKey_def Let_def)
qed

lemma new_Image_buffer:
  "new_Image x (SrcBuffer b) opts
     = Inr \<lparr>src = SrcBuffer b, isRemoteUrl = False, options = opts, img_cacheOptions = None,
            computedHash = None, contents_memo = None\<rparr>"
  by (simp add: new_Image_def)

text \<open>
  The amended statement at a file that is not on disk, where the call throws and caches
  nothing, and at a buffer that the codec engine refuses, where the rejected promise of
  the first call is the answer to the second.
\<close>

theorem failure_thrown_or_cached_witness:
  "queueImage example_ext (SrcString ''missing.png'') globalOptions
       \<lparr>disk = Map.empty, memCache = [], events = []\<rparr>
     = (Thrown (External ''ENOENT''), \<lparr>disk = Map.empty, memCache = [], events = []\<rparr>)
   \<and> (\<exists>w1. queueImage
               (example_ext\<lparr>sharp_metadata :=
                  \<lambda>fs input so. Inl (External ''unsupported image format'')\<rparr>)
               (SrcBuffer ''not an image'') globalOptions
               \<lparr>disk = Map.empty, memCache = [], events = []\<rparr>
             = (Promise (Inl (External ''unsupported image format'')), w1)
         \<and> events w1 = [SharpConstructed, SharpMetadata]
         \<and> queueImage
               (example_ext\<lparr>sharp_metadata :=
                  \<lambda>fs input so. Inl (External ''unsupported image format'')\<rparr>)
               (SrcBuffer ''not an image'') globalOptions w1
             = (Promise (Inl (External ''unsupported image format'')), w1))"
proof -
  let ?x = "example_ext\<lparr>sharp_metadata :=
              \<lambda>fs input so. Inl (External ''unsupported image format'')\<rparr>"
  let ?w = "\<lparr>disk = Map.empty, memCache = [], events = []\<rparr>"
  let ?img = "\<lparr>src = SrcBuffer ''not an image'', isRemoteUrl = False, options = globalOptions,
               img_cacheOptions = None, computedHash = None, contents_memo = None\<rparr>"
  have cache: "useCache globalOptions" by simp
  have missing: "SrcString ''missing.png'' = SrcString ''missing.png'' \<and> ''missing.png'' \<noteq> []
      \<and> \<not> Util_isRemoteUrl example_ext ''missing.png'' \<and> disk ?w ''missing.png'' = None"
    by (simp add: Util_isRemoteUrl_def)
  have thrown: "queueImage example_ext (SrcString ''missing.png'') globalOptions ?w
      = (Thrown (External ''ENOENT''), ?w)"
    by (rule failure_thrown_or_cached
          [OF cache, THEN conjunct2, THEN conjunct1, rule_format, OF missing])
  obtain key where key: "\<And>fs. getInMemoryCacheKey ?x fs ?img = Inr key"
    using key_without_disk [of ?img ?x] by auto
  have first: "queueImage ?x (SrcBuffer ''not an image'') globalOptions ?w
      = (Promise (Inl (External ''unsupported image format'')),
         \<lparr>disk = Map.empty,
          memCache = [(key, Inl (External ''unsupported image format''))],
          events = [SharpConstructed, SharpMetadata]\<rparr>)"
    by (simp add: queueImage_def new_Image_buffer key MemoryCache_get_def MemoryCache_add_def
        obj_get_def run_job_def process_image_def resize_def emit_def Let_def)
  let ?w1 = "\<lparr>disk = Map.empty,
          memCache = [(key, Inl (External ''unsupported image format'') :: promise)],
          events = [SharpConstructed, SharpMetadata]\<rparr>"
  have pre: "queueImage ?x (SrcBuffer ''not an image'') globalOptions ?w
        = (Promise (Inl (External ''unsupported image format'')), ?w1)
      \<and> new_Image ?x (SrcBuffer ''not an image'') globalOptions = Inr ?img
      \<and> getInMemoryCacheKey ?x (disk ?w1) ?img = getInMemoryCacheKey ?x (disk ?w) ?img"
    using first by (simp add: new_Image_buffer key)
  have second: "queueImage ?x (SrcBuffer ''not an image'') globalOptions ?w1
      = (Promise (Inl (External ''unsupported image format'')), ?w1)"
    by (rule failure_thrown_or_cached
          [OF cache, THEN conjunct2, THEN conjunct2, rule_format, OF pre, THEN conjunct2])
  from thrown first second show ?thesis by simp
qed

text \<open>A remote source whose fetch fails.\<close>

lemma failed_fetch_first_call:
  "\<exists>key. (\<forall>fs. getInMemoryCacheKey example_ext fs
              \<lparr>src = SrcString ''https://example.com/cat.png'', isRemoteUrl = True,
               options = globalOptions,
               img_cacheOptions = Some [(''duration'', JStr ''1d''), (''dryRun'', JBool False),
                                        (''type'', JStr ''buffer'')],
               computedHash = None, contents_memo = None\<rparr> = Inr key)
     \<and> queueImage example_ext (SrcString ''https://example.com/cat.png'') globalOptions
         \<lparr>disk = Map.empty, memCache = [], events = []\<rparr>
       = (Promise (Inl (External ''ENOTFOUND'')),
          \<lparr>disk = Map.empty, memCache = [(key, Inl (External ''ENOTFOUND''))],
           events = [Fetched ''https://example.com/cat.png'']\<rparr>)"
proof -
  let ?img = "\<lparr>src = SrcString ''https://example.com/cat.png'', isRemoteUrl = True,
               options = globalOptions,
               img_cacheOptions = Some [(''duration'', JStr ''1d''), (''dryRun'', JBool False),
                                        (''type'', JStr ''buffer'')],
               computedHash = None, contents_memo = None\<rparr>"
  obtain key where key: "\<And>fs. getInMemoryCacheKey example_ext fs ?img = Inr key"
    using key_without_disk [of ?img example_ext] by auto
  have img: "new_Image example_ext (SrcString ''https://example.com/cat.png'') globalOptions
      = Inr ?img"
    by (simp add: new_Image_def Util_isRemoteUrl_def object_assign_def)
  have "queueImage example_ext (SrcString ''https://example.com/cat.png'') globalOptions
         \<lparr>disk = Map.empty, memCache = [], events = []\<rparr>
       = (Promise (Inl (External ''ENOTFOUND'')),
          \<lparr>disk = Map.empty, memCache = [(key, Inl (External ''ENOTFOUND''))],
           events = [Fetched ''https://example.com/cat.png'']\<rparr>)"
    by (simp add: queueImage_def img key MemoryCache_get_def MemoryCache_add_def obj_get_def
        run_job_def process_image_def emit_def)
  with key show ?thesis by blast
qed

text \<open>
  C6 as the spec states it fails: after a remote source whose fetch fails, the second
  call with the same source and options returns the cached rejection and leaves the
  world as it was, with the one fetch of the first call in its events.
\<close>

theorem failed_derivation_stays_cached:
  "\<exists>w1. queueImage example_ext (SrcString ''https://example.com/cat.png'') globalOptions
           \<lparr>disk = Map.empty, memCache = [], events = []\<rparr>
         = (Promise (Inl (External ''ENOTFOUND'')), w1)
     \<and> events w1 = [Fetched ''https://example.com/cat.png'']
     \<and> queueImage example_ext (SrcString ''https://example.com/cat.png'') globalOptions w1
         = (Promise (Inl (External ''ENOTFOUND'')), w1)"
proof -
  let ?img = "\<lparr>src = SrcString ''https://example.com/cat.png'', isRemoteUrl = True,
               options = globalOptions,
               img_cacheOptions = Some [(''duration'', JStr ''1d''), (''dryRun'', JBool False),
                                        (''type'', JStr ''buffer'')],
               computedHash = None, contents_memo = None\<rparr>"
  from failed_fetch_first_call obtain key
    where key: "\<And>fs. getInMemoryCacheKey example_ext fs ?img = Inr key"
      and first: "queueImage example_ext (SrcString ''https://example.com/cat.png'')
          globalOptions \<lparr>disk = Map.empty, memCache = [], events = []\<rparr>
        = (Promise (Inl (External ''ENOTFOUND'')),
           \<lparr>disk = Map.empty, memCache = [(key, Inl (External ''ENOTFOUND''))],
            events = [Fetched ''https://example.com/cat.png'']\<rparr>)"
    by blast
  have img: "new_Image example_ext (SrcString ''https://example.com/cat.png'') globalOptions
      = Inr ?img"
    by (simp add: new_Image_def Util_isRemoteUrl_def object_assign_def)
  have second: "queueImage example_ext (SrcString ''https://example.com/cat.png'')
          globalOptions
          \<lparr>disk = Map.empty, memCache = [(key, Inl (External ''ENOTFOUND''))],
           events = [Fetched ''https://example.com/cat.png'']\<rparr>
        = (Promise (Inl (External ''ENOTFOUND'')),
           \<lparr>disk = Map.empty, memCache = [(key, Inl (External ''ENOTFOUND''))],
            events = [Fetched ''https://example.com/cat.png'']\<rparr>)"
    by (simp add: queueImage_def img key MemoryCache_get_def obj_get_def)
  from first second show ?thesis by simp
qed

text \<open>
  A call with \<open>statsOnly\<close> at a local SVG file: the dimension probe and nothing else.
\<close>

lemma statsOnly_local_file:
  "\<exists>es. events (snd (queueImage example_ext (SrcString ''logo.svg'')
                          (globalOptions\<lparr>statsOnly := True\<rparr>)
                          \<lparr>disk = [''logo.svg'' \<mapsto> ''<svg/>''], memCache = [], events = []\<rparr>))
          = events \<lparr>disk = [''logo.svg'' \<mapsto> ''<svg/>''], memCache = [], events = []\<rparr> @ es
        \<and> es \<in> {[], [ImageSizeProbed]}
        \<and> \<not> (\<exists>e \<in> set es. codec_event e)
        \<and> disk (snd (queueImage example_ext (SrcString ''logo.svg'')
                          (globalOptions\<lparr>statsOnly := True\<rparr>)
                          \<lparr>disk = [''logo.svg'' \<mapsto> ''<svg/>''], memCache = [], events = []\<rparr>))
          = [''logo.svg'' \<mapsto> ''<svg/>'']"
proof -
  have h: "statsOnly (globalOptions\<lparr>statsOnly := True\<rparr>)" by simp
  from statsOnly_string_source_no_codec [OF h, of example_ext "''logo.svg''"
      "\<lparr>disk = [''logo.svg'' \<mapsto> ''<svg/>''], memCache = [], events = []\<rparr>"]
  show ?thesis by auto
qed

text \<open>
  C8. The spec, and the comment on \<open>statsOnly\<close> in the options (skips all image
  processing, does not read files, does not write files), promise a call without the
  codec engine for every kind of source. For an in-memory buffer the code does otherwise:
  the job tests \<open>typeof src === "string"\<close> before it looks at \<open>statsOnly\<close>, so
  the buffer goes through the full pipeline; the codec engine probes it, encodes it and
  writes the two output files.
\<close>

theorem statsOnly_buffer_invokes_codec:
  "events (snd (queueImage example_ext (SrcBuffer ''<svg/>'')
                  (globalOptions\<lparr>statsOnly := True\<rparr>)
                  \<lparr>disk = Map.empty, memCache = [], events = []\<rparr>))
   = [SharpConstructed, SharpMetadata,
      Mkdir ''img/'', Mkdir ''img/'', SharpToFile ''img/q-Z_svgsha-500.webp'',
      Mkdir ''img/'', Mkdir ''img/'', SharpToFile ''img/q-Z_svgsha-500.jpeg'']"
proof -
  let ?opts = "globalOptions\<lparr>statsOnly := True\<rparr>"
  let ?img = "\<lparr>src = SrcBuffer ''<svg/>'', isRemoteUrl = False, options = ?opts,
               img_cacheOptions = None, computedHash = None, contents_memo = None\<rparr>"
  let ?w = "\<lparr>disk = Map.empty, memCache = [], events = []\<rparr>"
  obtain key where key: "\<And>fs. getInMemoryCacheKey example_ext fs ?img = Inr key"
    using key_without_disk [of ?img example_ext] by auto
  have job: "events (snd (run_job example_ext ?img (SrcBuffer ''<svg/>'') ?opts ?w))
   = [SharpConstructed, SharpMetadata,
      Mkdir ''img/'', Mkdir ''img/'', SharpToFile ''img/q-Z_svgsha-500.webp'',
      Mkdir ''img/'', Mkdir ''img/'', SharpToFile ''img/q-Z_svgsha-500.jpeg'']"
    by (simp add: run_job_def process_image_def run_defs)
  obtain p w' where run: "run_job example_ext ?img (SrcBuffer ''<svg/>'') ?opts ?w = (p, w')"
    by (cases "run_job example_ext ?img (SrcBuffer ''<svg/>'') ?opts ?w")
  with job show ?thesis
    by (simp add: queueImage_def new_Image_buffer key MemoryCache_get_def obj_get_def)
qed

text \<open>The key of a local file depends on the disk only through the file's size.\<close>

lemma key_local_file:
  assumes "src img = SrcString s" "\<not> isRemoteUrl img" "fs s = Some c" "fs' s = Some c"
  shows "\<exists>key. getInMemoryCacheKey x fs img = Inr key \<and> getInMemoryCacheKey x fs' img = Inr key"
  using assms by (simp add: getInMemoryCacheKey_def Let_def)

text \<open>
  C10 at a local SVG file with \<open>statsOnly\<close>: the first call builds its URLs with its own
  \<open>urlFormat\<close>; the second call, with another \<open>urlFormat\<close> and another svg hook, is
  given the plan of the first, URLs included.
\<close>

theorem function_options_share_cache_entry_witness:
  "\<exists>p w'.
     queueImage example_ext (SrcString ''logo.svg'')
       (globalOptions\<lparr>statsOnly := True,
                       urlFormat := Some (\<lambda>h s w f. ''https://cdn.example/first'')\<rparr>)
       \<lparr>disk = [''logo.svg'' \<mapsto> ''<svg/>''], memCache = [], events = []\<rparr> = (Promise p, w')
     \<and> queueImage example_ext (SrcString ''logo.svg'')
         (globalOptions\<lparr>statsOnly := True,
                         urlFormat := Some (\<lambda>h s w f. ''https://cdn.example/first''),
                         urlFormat := Some (\<lambda>h s w f. ''https://cdn.example/second''),
                         filenameFormat := None, sharpHook := None,
                         formatHooks := [(''svg'', \<lambda>st si fs. Inr ''<svg/>'')]\<rparr>)
         w' = (Promise p, w')
     \<and> (case p of Inl e \<Rightarrow> []
         | Inr fullStats \<Rightarrow> map (\<lambda>(f, st). url st) (plan_entries fullStats))
       = [''https://cdn.example/first'', ''https://cdn.example/first'']"
proof -
  let ?opts1 = "globalOptions\<lparr>statsOnly := True,
                  urlFormat := Some (\<lambda>h s w f. ''https://cdn.example/first'')\<rparr>"
  let ?uf = "Some (\<lambda>(h :: string option) (s :: source) (w :: int) (f :: string).
                     ''https://cdn.example/second'')"
  let ?fh = "[(''svg'', (\<lambda>st si fs. Inr ''<svg/>'') :: format_hook)]"
  let ?opts2 = "?opts1\<lparr>urlFormat := ?uf, filenameFormat := None, sharpHook := None,
                        formatHooks := ?fh\<rparr>"
  let ?img = "\<lparr>src = SrcString ''logo.svg'', isRemoteUrl = False, options = ?opts1,
               img_cacheOptions = None, computedHash = None, contents_memo = None\<rparr>"
  let ?disk = "[''logo.svg'' \<mapsto> ''<svg/>'']"
  let ?plan = "[(''webp'',
              [\<lparr>format = ''webp'', width = 500, height = Some 500,
                  url = ''https://cdn.example/first'', sourceType = Some ''image/webp'',
                  srcset = ''https://cdn.example/first 500w'',
                  stat_size = None, filename = None, outputPath = None, buffer = None\<rparr>]),
             (''jpeg'',
              [\<lparr>format = ''jpeg'', width = 500, height = Some 500,
                  url = ''https://cdn.example/first'', sourceType = Some ''image/jpeg'',
                  srcset = ''https://cdn.example/first 500w'',
                  stat_size = None, filename = None, outputPath = None, buffer = None\<rparr>])]"
  obtain key where key: "getInMemoryCacheKey example_ext ?disk ?img = Inr key"
    using key_local_file [of ?img "''logo.svg''" ?disk "''<svg/>''" ?disk example_ext] by auto
  have img: "new_Image example_ext (SrcString ''logo.svg'') ?opts1 = Inr ?img"
    by (simp add: new_Image_def Util_isRemoteUrl_def)
  have first: "queueImage example_ext (SrcString ''logo.svg'') ?opts1
      \<lparr>disk = ?disk, memCache = [], events = []\<rparr>
    = (Promise (Inr ?plan),
       \<lparr>disk = ?disk, memCache = [(key, Inr ?plan)], events = [ImageSizeProbed]\<rparr>)"
    by (simp add: queueImage_def img key MemoryCache_get_def MemoryCache_add_def
        run_job_def stats_only_def Util_isRemoteUrl_def run_defs)
  have h2: "(?uf = None) = (urlFormat ?opts1 = None)" by simp
  have h3: "(None = None) = (filenameFormat ?opts1 = None)" by simp
  have h4: "(None = None) = (sharpHook ?opts1 = None)" by simp
  have h5: "map fst ?fh = map fst (formatHooks ?opts1)" by simp
  have pre: "useCache ?opts1
     \<and> queueImage example_ext (SrcString ''logo.svg'') ?opts1
           \<lparr>disk = ?disk, memCache = [], events = []\<rparr>
         = (Promise (Inr ?plan),
            \<lparr>disk = ?disk, memCache = [(key, Inr ?plan)], events = [ImageSizeProbed]\<rparr>)
     \<and> getInMemoryCacheKey example_ext
           (disk \<lparr>disk = ?disk, memCache = [(key, Inr ?plan)], events = [ImageSizeProbed]\<rparr>)
           ?img
         = getInMemoryCacheKey example_ext
             (disk \<lparr>disk = ?disk, memCache = [], events = []\<rparr>) ?img"
    using first by simp
  have second: "queueImage example_ext (SrcString ''logo.svg'') ?opts2
      \<lparr>disk = ?disk, memCache = [(key, Inr ?plan)], events = [ImageSizeProbed]\<rparr>
    = (Promise (Inr ?plan),
       \<lparr>disk = ?disk, memCache = [(key, Inr ?plan)], events = [ImageSizeProbed]\<rparr>)"
    by (rule function_options_share_cache_entry
          [OF refl h2 h3 h4 h5 img, THEN conjunct2, THEN conjunct2, rule_format, OF pre])
  from first second show ?thesis by (simp add: plan_entries_def)
qed

section \<open>Dry runs\<close>

lemma getFileContents_options_same:
  "getFileContents fs img = Inr (c, img') \<Longrightarrow> options img' = options img"
  by (drule getFileContents_memo) auto

lemma stat_cached_frame:
  assumes "stat_cached x fs img outputFormat st existing = Inr (st', img')"
  shows "options img' = options img \<and> (dryRun (options img) \<longrightarrow> buffer st' \<noteq> None)"
proof (cases "dryRun (options img)")
  case False
  show ?thesis
  proof (cases "outputFormat = ''svg'' \<and> svgCompressionSize (options img) = ''br''")
    case br: False
    with False assms show ?thesis by (auto simp: stat_cached_def)
  next
    case br: True
    with False assms obtain c i where g: "getFileContents fs img = Inr (c, i)"
      by (cases "getFileContents fs img") (auto simp: stat_cached_def)
    with False br assms have "i = img'"
      by (cases c) (auto simp: stat_cached_def)
    with getFileContents_options_same [OF g] False show ?thesis by simp
  qed
next
  case True
  then obtain c i where g: "getFileContents fs img = Inr (c, i)"
    using assms by (cases "getFileContents fs img") (auto simp: stat_cached_def)
  have oi: "options i = options img" using g by (rule getFileContents_options_same)
  show ?thesis
  proof (cases "outputFormat = ''svg'' \<and> svgCompressionSize (options img) = ''br''")
    case br: False
    with True g oi assms show ?thesis by (auto simp: stat_cached_def)
  next
    case br: True
    show ?thesis
    proof (cases c)
      case (Bytes b)
      with True g oi br assms show ?thesis by (auto simp: stat_cached_def)
    next
      case NoContents
      with True g oi br assms obtain c2 i2 where g2: "getFileContents fs i = Inr (c2, i2)"
        by (cases "getFileContents fs i") (auto simp: stat_cached_def)
      with True g oi br assms NoContents have "i2 = img' \<and> buffer st' \<noteq> None"
        by (cases c2) (auto simp: stat_cached_def)
      with getFileContents_options_same [OF g2] oi True show ?thesis by simp
    qed
  qed
qed


lemma materialize_dryRun:
  assumes "dryRun (options img)"
  shows "case materialize x md sharpImage outputFormat st w img of
           Abort e w' \<Rightarrow> w' = w
         | Pushed p w' img' \<Rightarrow>
             options img' = options img \<and> disk w' = disk w
             \<and> (events w' = events w \<or> events w' = events w @ [SharpToBuffer])
             \<and> (\<forall>st'. p = Some (Inr st') \<longrightarrow> buffer st' \<noteq> None)"
proof (cases "if useCache (options img)
               then (case outputPath st of None \<Rightarrow> None | Some p \<Rightarrow> disk w p)
               else None")
  case (Some existing)
  show ?thesis
  proof (cases "stat_cached x (disk w) img outputFormat st existing")
    case (Inl e)
    with Some show ?thesis by (simp add: materialize_def)
  next
    case (Inr r)
    obtain st' img' where r: "r = (st', img')" by (cases r)
    from stat_cached_frame [OF Inr [unfolded r]] assms Some Inr r
    show ?thesis by (simp add: materialize_def)
  qed
next
  case None
  show ?thesis
  proof (cases "obj_get (formatHooks (options img)) outputFormat")
    case (Some hook)
    then show ?thesis using None assms
      by (cases "hook st (prepare_instance (options img) md sharpImage st) (disk w)")
         (simp_all add: materialize_def Let_def)
  next
    case no_hook: None
    show ?thesis
    proof (cases "getSharpOptionsForFormat (options img) outputFormat")
      case None
      with no_hook \<open>(if useCache (options img)
               then (case outputPath st of None \<Rightarrow> None | Some p \<Rightarrow> disk w p)
               else None) = None\<close> assms show ?thesis
        by (simp add: materialize_def Let_def)
    next
      case (Some sharpFormatOptions)
      with no_hook \<open>(if useCache (options img)
               then (case outputPath st of None \<Rightarrow> None | Some p \<Rightarrow> disk w p)
               else None) = None\<close> assms show ?thesis
        by (cases "sharp_output x (disk w)
                     (with_format md outputFormat sharpFormatOptions
                        (prepare_instance (options img) md sharpImage st))")
           (simp_all add: materialize_def Let_def emit_def)
    qed
  qed
qed


lemma materialize_all_dryRun:
  assumes "dryRun (options img)" "\<forall>st'. Inr st' \<in> set acc \<longrightarrow> buffer st' \<noteq> None"
  shows "case materialize_all x md sharpImage entries w img acc of
           (a, ps, w') \<Rightarrow>
             disk w' = disk w
             \<and> (\<exists>es. events w' = events w @ es \<and> set es \<subseteq> {SharpToBuffer})
             \<and> (\<forall>st'. Inr st' \<in> set ps \<longrightarrow> buffer st' \<noteq> None)"
  using assms
proof (induction entries arbitrary: w img acc)
  case Nil
  then show ?case by simp
next
  case (Cons entry entries)
  obtain outputFormat st where entry: "entry = (outputFormat, st)" by (cases entry)
  show ?case
  proof (cases "materialize x md sharpImage outputFormat st w img")
    case (Abort e w')
    with materialize_dryRun [OF Cons.prems(1), where x = x and md = md and sharpImage = sharpImage
        and outputFormat = outputFormat and st = st and w = w]
      Cons.prems(2) entry show ?thesis by simp
  next
    case (Pushed p w' img')
    from materialize_dryRun [OF Cons.prems(1), where x = x and md = md and sharpImage = sharpImage
        and outputFormat = outputFormat and st = st and w = w] Pushed
    have o: "options img' = options img" and d: "disk w' = disk w"
      and e: "events w' = events w \<or> events w' = events w @ [SharpToBuffer]"
      and b: "\<forall>st'. p = Some (Inr st') \<longrightarrow> buffer st' \<noteq> None"
      by simp_all
    let ?acc = "acc @ (case p of None \<Rightarrow> [] | Some r \<Rightarrow> [r])"
    have acc: "\<forall>st'. Inr st' \<in> set ?acc \<longrightarrow> buffer st' \<noteq> None"
      using Cons.prems(2) b by (cases p) auto
    have dry: "dryRun (options img')" using o Cons.prems(1) by simp
    obtain a ps w'' where rest: "materialize_all x md sharpImage entries w' img' ?acc = (a, ps, w'')"
      by (cases "materialize_all x md sharpImage entries w' img' ?acc")
    from Cons.IH [OF dry acc, of w'] rest
    have "disk w'' = disk w'" and "\<exists>es. events w'' = events w' @ es \<and> set es \<subseteq> {SharpToBuffer}"
      and "\<forall>st'. Inr st' \<in> set ps \<longrightarrow> buffer st' \<noteq> None" by simp_all
    then obtain es where es: "events w'' = events w' @ es" "set es \<subseteq> {SharpToBuffer}"
      and ps: "\<forall>st'. Inr st' \<in> set ps \<longrightarrow> buffer st' \<noteq> None"
      and d': "disk w'' = disk w'" by blast
    have "\<exists>es'. events w'' = events w @ es' \<and> set es' \<subseteq> {SharpToBuffer}"
    proof (cases "events w' = events w")
      case True
      with es show ?thesis by auto
    next
      case False
      with e have "events w' = events w @ [SharpToBuffer]" by simp
      with es have "events w'' = events w @ (SharpToBuffer # es)"
        "set (SharpToBuffer # es) \<subseteq> {SharpToBuffer}" by auto
      then show ?thesis by blast
    qed
    with d d' ps show ?thesis by (simp add: entry Pushed rest)
  qed
qed

lemma width_stats_options:
  "width_stats x fs md outputFormat ws img results = Inr (rs, img') \<Longrightarrow> options img' = options img"
proof (induction ws arbitrary: img results)
  case Nil
  then show ?case by simp
next
  case (Cons w ws)
  let ?h = "if mwidth md = 0 then None else Some ((w * mheight md) div mwidth md)"
  from Cons.prems obtain st i where g: "getStat x fs img outputFormat w ?h = Inr (st, i)"
    by (cases "getStat x fs img outputFormat w ?h") auto
  with Cons.prems have "width_stats x fs md outputFormat ws i (results @ [st]) = Inr (rs, img')"
    by simp
  from Cons.IH [OF this] getStat_result [OF g] show ?case by simp
qed

lemma format_stats_options:
  "format_stats x fs md fmts img results = Inr (rs, img') \<Longrightarrow> options img' = options img"
proof (induction fmts arbitrary: img results)
  case Nil
  then show ?case by simp
next
  case (Cons f fmts)
  have ok: "\<not> (falsy_format f \<or> f = Some ''auto'')" using Cons.prems by auto
  show ?case
  proof (cases "f = Some ''svg''")
    case True
    show ?thesis
    proof (cases "native_format md (options img) = Some ''svg''")
      case False
      with True ok Cons.prems have "format_stats x fs md fmts img results = Inr (rs, img')"
        by (simp add: falsy_format_def)
      then show ?thesis by (rule Cons.IH)
    next
      case native: True
      from Cons.prems True ok native obtain st i
        where g: "getStat x fs img ''svg'' (mwidth md) (Some (mheight md)) = Inr (st, i)"
        by (cases "getStat x fs img ''svg'' (mwidth md) (Some (mheight md))")
           (auto simp: falsy_format_def)
      have oi: "options i = options img" using getStat_result [OF g] by simp
      let ?results = "results @ [if msize md \<noteq> None \<and> msize md \<noteq> Some 0
                                  then st\<lparr>stat_size := msize md\<rparr> else st]"
      show ?thesis
      proof (cases "svgShortCircuit (options img) = SvgTrue")
        case True
        with Cons.prems \<open>f = Some ''svg''\<close> ok native g oi show ?thesis
          by (auto simp: falsy_format_def Let_def)
      next
        case False
        with Cons.prems \<open>f = Some ''svg''\<close> ok native g oi
        have "format_stats x fs md fmts i ?results = Inr (rs, img')"
          by (auto simp: falsy_format_def Let_def)
        from Cons.IH [OF this] oi show ?thesis by simp
      qed
    qed
  next
    case False
    let ?ws = "getValidWidths (mwidth md) (widths (options img))
                 (mformat md = Some ''svg'' \<and> svgAllowUpscale (options img))
                 (minimumThreshold (options img))"
    from Cons.prems False ok obtain rs1 i
      where ws: "width_stats x fs md (the f) ?ws img results = Inr (rs1, i)"
      by (cases "width_stats x fs md (the f) ?ws img results") auto
    with Cons.prems False ok have "format_stats x fs md fmts i rs1 = Inr (rs, img')" by auto
    from Cons.IH [OF this] width_stats_options [OF ws] show ?thesis by simp
  qed
qed

lemma getFullStats_options:
  "getFullStats x fs img md = Inr (fullStats, img', md') \<Longrightarrow> options img' = options img"
  by (auto simp: getFullStats_def Let_def split: sum.splits dest: format_stats_options)


text \<open>Every stat of the grouped plan is one of the files given.\<close>

lemma obj_get_in_set: "obj_get byType key = Some v \<Longrightarrow> (key, v) \<in> set byType"
  by (simp add: obj_get_def map_of_SomeD)

lemma obj_set_stats:
  "set (concat (map snd (obj_set byType key v')))
     \<subseteq> set (concat (map snd byType)) \<union> set v'"
  by (induction byType key v' rule: obj_set.induct) auto

lemma obj_get_stats:
  "obj_get byType key = Some v \<Longrightarrow> set v \<subseteq> set (concat (map snd byType))"
  by (drule obj_get_in_set) force

lemma push_files_stats:
  "set (concat (map snd (push_files files byType)))
     \<subseteq> set (concat (map snd byType)) \<union> set files"
proof (induction files arbitrary: byType)
  case Nil
  then show ?case by simp
next
  case (Cons f1 files)
  let ?b = "if obj_get byType (format f1) = None
            then obj_set byType (format f1) [] else byType"
  let ?b' = "obj_set ?b (format f1) (the (obj_get ?b (format f1)) @ [f1])"
  have b: "set (concat (map snd ?b)) \<subseteq> set (concat (map snd byType))"
    using obj_set_stats [of byType "format f1" "[]"] by simp
  have "obj_get ?b (format f1) \<noteq> None" by (auto simp: obj_get_obj_set)
  then obtain old where old: "obj_get ?b (format f1) = Some old" by auto
  have o: "set old \<subseteq> set (concat (map snd ?b))" using old by (rule obj_get_stats)
  have "set (concat (map snd (obj_set ?b (format f1) (old @ [f1]))))
      \<subseteq> set (concat (map snd ?b)) \<union> set (old @ [f1])" by (rule obj_set_stats)
  moreover have "set (old @ [f1]) = set old \<union> {f1}" by simp
  ultimately have "set (concat (map snd (obj_set ?b (format f1) (old @ [f1]))))
      \<subseteq> set (concat (map snd ?b)) \<union> {f1}" using o by blast
  then have b': "set (concat (map snd ?b')) \<subseteq> set (concat (map snd ?b)) \<union> {f1}"
    by (simp only: old option.sel)
  have step: "push_files (f1 # files) byType = push_files files ?b'" by (simp add: Let_def)
  have "set (concat (map snd (push_files files ?b')))
      \<subseteq> set (concat (map snd ?b')) \<union> set files" by (rule Cons.IH)
  also have "\<dots> \<subseteq> set (concat (map snd byType)) \<union> set (f1 # files)"
  proof -
    have "set (f1 # files) = {f1} \<union> set files" by simp
    with b b' show ?thesis by blast
  qed
  finally show ?case unfolding step .
qed

lemma sort_by_width_stats:
  "set (concat (map snd (sort_by_width byType))) = set (concat (map snd byType))"
  by (induction byType) (auto simp: sort_by_width_def set_js_sort)

lemma init_byType_stats: "concat (map snd (init_byType fmts [])) = []"
proof -
  have "\<forall>(k, v) \<in> set (init_byType fmts []). v = []" by (rule init_byType_empty) simp
  then show ?thesis by (induction "init_byType fmts []") auto
qed

lemma grouped_stats: "set (concat (map snd (grouped files fmts))) \<subseteq> set files"
proof -
  have "set (concat (map snd (grouped files fmts)))
      = set (concat (map snd (push_files files (init_byType fmts []))))"
    by (simp only: grouped_def sort_by_width_stats)
  also have "\<dots> \<subseteq> set (concat (map snd (init_byType fmts []))) \<union> set files"
    by (rule push_files_stats)
  also have "\<dots> = set files" by (simp only: init_byType_stats) simp
  finally show ?thesis .
qed

lemma svg_entry_in_plan:
  assumes "svg_entry_size byType = Some (svg0, n)"
  shows "svg0 \<in> set (concat (map snd byType))"
proof -
  from assms obtain rest where "obj_get byType ''svg'' = Some (svg0 # rest)"
    by (auto simp: svg_entry_size_def split: option.splits list.splits if_splits)
  from obj_get_stats [OF this] show ?thesis by simp
qed

lemma filtered_groups_stats:
  assumes "\<And>entries. set (g entries) \<subseteq> insert svg0 (set entries)"
  shows "set (concat (map snd (map (\<lambda>(type, entries).
              if type = s then (type, entries) else (type, g entries)) byType)))
     \<subseteq> insert svg0 (set (concat (map snd byType)))"
proof (induction byType)
  case Nil
  then show ?case by simp
next
  case (Cons p byType)
  obtain k v where p: "p = (k, v)" by (cases p)
  from assms [of v] Cons show ?case by (auto simp: p)
qed

lemma transformRawFiles_stats:
  "set (concat (map snd (transformRawFiles opts files fmts))) \<subseteq> set files"
proof (cases "svg_entry_size (grouped files fmts)")
  case None
  then show ?thesis using grouped_stats [of files fmts] by (simp add: transformRawFiles_def)
next
  case (Some p)
  obtain svg0 n where p: "p = (svg0, n)" by (cases p)
  have svg: "svg0 \<in> set files"
    using svg_entry_in_plan [OF Some [unfolded p]] grouped_stats [of files fmts] by blast
  show ?thesis
  proof (cases "svgShortCircuit opts = SvgSize")
    case False
    with Some p show ?thesis using grouped_stats [of files fmts]
      by (simp add: transformRawFiles_def)
  next
    case True
    have sub: "set (filter_group svg0 n entries) \<subseteq> insert svg0 (set entries)" for entries
      using set_truthy_replace [of svg0 n False False entries] by (auto simp: filter_group_def)
    have "transformRawFiles opts files fmts
        = map (\<lambda>(type, entries). if type = ''svg'' then (type, entries)
                                     else (type, filter_group svg0 n entries))
            (grouped files fmts)"
      using True Some p by (simp add: transformRawFiles_def)
    with filtered_groups_stats [of "filter_group svg0 n" svg0 "''svg''" "grouped files fmts", OF sub]
      grouped_stats [of files fmts] svg
    show ?thesis by (simp only:) blast
  qed
qed

lemma plan_entries_stats: "snd ` set (plan_entries fullStats) = set (concat (map snd fullStats))"
  by (induction fullStats) (auto simp: plan_entries_def image_Un image_image)

lemma Promise_all_values:
  "Promise_all ps = Inr vs \<Longrightarrow> set vs = {v. Inr v \<in> set ps}"
proof (induction ps arbitrary: vs)
  case Nil
  then show ?case by auto
next
  case (Cons p ps)
  then show ?case
    by (cases p; cases "Promise_all ps") auto
qed

text \<open>
  Under \<open>dryRun\<close> a call of \<open>resize\<close> leaves the disk as it was, adds no event that
  writes, and every stat of the plan it returns has a buffer property.
\<close>

lemma resize_dryRun:
  assumes "dryRun (options img)"
  shows "disk (snd (resize x img input w)) = disk w"
    and "\<exists>es. events (snd (resize x img input w)) = events w @ es
           \<and> \<not> (\<exists>e \<in> set es. write_event e)"
    and "fst (resize x img input w) = Inr fullStats \<Longrightarrow>
           \<forall>(f, st) \<in> set (plan_entries fullStats). buffer st \<noteq> None"
proof -
  let ?sharpImage = "\<lparr>sharp_input = input,
             sharp_options = JObj (object_assign [(''failOnError'', JBool False)]
                                     (case sharpOptions (options img) of
                                        None \<Rightarrow> [] | Some so \<Rightarrow> so)),
             rotate = False, resize_to = None, toFormat = None\<rparr>"
  let ?w = "emit w [SharpConstructed, SharpMetadata]"
  have all: "disk (snd (resize x img input w)) = disk w
    \<and> (\<exists>es. events (snd (resize x img input w)) = events w @ es
           \<and> \<not> (\<exists>e \<in> set es. write_event e))
    \<and> (\<forall>plan. fst (resize x img input w) = Inr plan \<longrightarrow>
          (\<forall>(f, st) \<in> set (plan_entries plan). buffer st \<noteq> None))"
  proof (cases "sharp_metadata x (disk ?w) input (sharp_options ?sharpImage)")
    case (Inl e)
    then have "resize x img input w = (Inl e, ?w)" by (simp add: resize_def Let_def)
    then show ?thesis by (simp add: emit_def)
  next
    case (Inr md)
    show ?thesis
    proof (cases "getFullStats x (disk ?w) img md")
      case (Inl e)
      with Inr have "resize x img input w = (Inl e, ?w)" by (simp add: resize_def Let_def)
      then show ?thesis by (simp add: emit_def)
    next
      case stats: (Inr r)
      obtain plan img' md' where r: "r = (plan, img', md')" by (cases r)
      have dry: "dryRun (options img')"
        using getFullStats_options [OF stats [unfolded r]] assms by simp
      obtain a ps w' where loop:
        "materialize_all x md' ?sharpImage (plan_entries plan) ?w img' [] = (a, ps, w')"
        by (cases "materialize_all x md' ?sharpImage (plan_entries plan) ?w img' []")
      from materialize_all_dryRun [OF dry, where acc = "[]" and x = x and md = md'
          and sharpImage = ?sharpImage and entries = "plan_entries plan" and w = ?w] loop
      obtain es where d: "disk w' = disk ?w" and es: "events w' = events ?w @ es"
        "set es \<subseteq> {SharpToBuffer}"
        and ps: "\<forall>st'. Inr st' \<in> set ps \<longrightarrow> buffer st' \<noteq> None" by auto
      have world: "disk w' = disk w
        \<and> (\<exists>es'. events w' = events w @ es' \<and> \<not> (\<exists>e \<in> set es'. write_event e))"
      proof -
        have "events w' = events w @ (SharpConstructed # SharpMetadata # es)"
          using es by (simp add: emit_def)
        moreover have "\<not> (\<exists>e \<in> set (SharpConstructed # SharpMetadata # es). write_event e)"
          using es(2) by auto
        ultimately show ?thesis using d by (auto simp: emit_def)
      qed
      show ?thesis
      proof (cases a)
        case (Some e)
        with Inr stats r loop have "resize x img input w = (Inl e, w')"
          by (simp add: resize_def Let_def)
        with world show ?thesis by simp
      next
        case None
        show ?thesis
        proof (cases "Promise_all ps")
          case (Inl e)
          with None Inr stats r loop have "resize x img input w = (Inl e, w')"
            by (simp add: resize_def Let_def)
          with world show ?thesis by simp
        next
          case files: (Inr files)
          let ?result = "transformRawFiles (options img') files (map Some (object_keys plan))"
          from files None Inr stats r loop have res: "resize x img input w = (Inr ?result, w')"
            by (simp add: resize_def Let_def)
          have "\<forall>st \<in> set files. buffer st \<noteq> None"
            using Promise_all_values [OF files] ps by auto
          moreover have "snd ` set (plan_entries ?result) \<subseteq> set files"
            using transformRawFiles_stats [of "options img'" files "map Some (object_keys plan)"]
            by (simp only: plan_entries_stats)
          ultimately have "\<forall>(f, st) \<in> set (plan_entries ?result). buffer st \<noteq> None"
            by force
          with world res show ?thesis by simp
        qed
      qed
    qed
  qed
  from all show "disk (snd (resize x img input w)) = disk w" by simp
  from all show "\<exists>es. events (snd (resize x img input w)) = events w @ es
           \<and> \<not> (\<exists>e \<in> set es. write_event e)" by simp
  from all show "fst (resize x img input w) = Inr fullStats \<Longrightarrow>
           \<forall>(f, st) \<in> set (plan_entries fullStats). buffer st \<noteq> None" by simp
qed

text \<open>
  C7. Nothing is written under \<open>dryRun\<close> and every stat has a buffer, as shown above;
  but the buffer is not always the encoded output. A stat whose output file is already on
  disk (with \<open>useCache\<close>) takes its buffer from \<open>getFileContents\<close>, which reads the
  source: for an SVG source and a webp output 300 wide the stat carries the SVG text and
  the size of the old file. On a disk without that file the same call encodes, and the
  stat carries the encoder's output.
\<close>

theorem dryRun_cached_output_gives_source_bytes:
  "fst (resize example_ext
     \<lparr>src = SrcString ''logo.svg'', isRemoteUrl = False,
      options = globalOptions\<lparr>formats := FormatsArray [Some ''webp''], widths := [WNum 300],
                               dryRun := True\<rparr>,
      img_cacheOptions = None, computedHash = None, contents_memo = None\<rparr>
     (SrcString ''logo.svg'')
     \<lparr>disk = [''logo.svg'' \<mapsto> ''<svg/>'', ''img/q-Z_svgsha-300.webp'' \<mapsto> ''old''],
      memCache = [], events = []\<rparr>)
   = Inr [(''webp'',
           [\<lparr>format = ''webp'', width = 300, height = Some 300,
             url = ''/img/q-Z_svgsha-300.webp'', sourceType = Some ''image/webp'',
             srcset = ''/img/q-Z_svgsha-300.webp 300w'', stat_size = Some 3,
             filename = Some ''q-Z_svgsha-300.webp'',
             outputPath = Some ''img/q-Z_svgsha-300.webp'',
             buffer = Some (Bytes ''<svg/>'')\<rparr>])]
   \<and> fst (resize example_ext
     \<lparr>src = SrcString ''logo.svg'', isRemoteUrl = False,
      options = globalOptions\<lparr>formats := FormatsArray [Some ''webp''], widths := [WNum 300],
                               dryRun := True\<rparr>,
      img_cacheOptions = None, computedHash = None, contents_memo = None\<rparr>
     (SrcString ''logo.svg'')
     \<lparr>disk = [''logo.svg'' \<mapsto> ''<svg/>''], memCache = [], events = []\<rparr>)
   = Inr [(''webp'',
           [\<lparr>format = ''webp'', width = 300, height = Some 300,
             url = ''/img/q-Z_svgsha-300.webp'', sourceType = Some ''image/webp'',
             srcset = ''/img/q-Z_svgsha-300.webp 300w'', stat_size = Some 7,
             filename = Some ''q-Z_svgsha-300.webp'',
             outputPath = Some ''img/q-Z_svgsha-300.webp'',
             buffer = Some (Bytes ''webp300'')\<rparr>])]"
  by (simp add: run_defs)

section \<open>The size filter, end to end\<close>

lemma int_toString_600: "int_toString 600 = ''600''"
  by (simp add: int_toString_def)

lemma int_toString_1000: "int_toString 1000 = ''1000''"
  by (simp add: int_toString_def)

text \<open>
  The unsorted group of C9 as a call returns it: an SVG file 500 wide and 7 bytes long,
  the formats svg and webp, the widths 600 and 1000, svgShortCircuit "size". The webp 600
  wide has 7 bytes and is kept, the one 1000 wide has 8 and is replaced by the svg stat:
  the webp group holds the widths 600 and 500, in this order.
\<close>

lemma resize_size_filter_unsorted:
  "map_sum id (map (\<lambda>(f, st). (f, format st, width st)) \<circ> plan_entries)
     (fst (resize example_ext
       \<lparr>src = SrcString ''logo.svg'', isRemoteUrl = False,
        options = globalOptions\<lparr>formats := FormatsArray [Some ''svg'', Some ''webp''],
                                 widths := [WNum 600, WNum 1000],
                                 svgShortCircuit := SvgSize, dryRun := True\<rparr>,
        img_cacheOptions = None, computedHash = None, contents_memo = None\<rparr>
       (SrcString ''logo.svg'')
       \<lparr>disk = [''logo.svg'' \<mapsto> ''<svg />''], memCache = [], events = []\<rparr>))
   = Inr [(''svg'', ''svg'', 500), (''webp'', ''webp'', 600), (''webp'', ''svg'', 500)]"
  by (simp add: run_defs int_toString_600 int_toString_1000 truthy_replace_kept
      truthy_replace_added)

section \<open>The plans of the synchronous entry points\<close>

lemma getStat_size:
  assumes "getStat x fs img outputFormat w h = Inr (st, img')"
  shows "stat_size st = None"
proof (cases "urlFormat (options img)")
  case None
  then obtain hash i where gh: "getHash x fs img = Inr (hash, i)"
    using assms by (cases "getHash x fs img") (auto simp: getStat_def Let_def)
  with assms None show ?thesis by (auto simp: getStat_def Let_def)
next
  case (Some f)
  show ?thesis
  proof (cases "statsOnly (options img)")
    case True
    with Some assms show ?thesis by (auto simp: getStat_def Let_def)
  next
    case False
    then obtain hash i where gh: "getHash x fs img = Inr (hash, i)"
      using assms Some by (cases "getHash x fs img") (auto simp: getStat_def Let_def)
    with assms Some False show ?thesis by (auto simp: getStat_def Let_def)
  qed
qed

lemma width_stats_sizes:
  assumes "width_stats x fs md outputFormat ws img results = Inr (rs, img')"
    and "\<forall>st \<in> set results. stat_size st = None"
  shows "\<forall>st \<in> set rs. stat_size st = None"
  using assms
proof (induction ws arbitrary: img results)
  case Nil
  then show ?case by simp
next
  case (Cons w ws)
  let ?h = "if mwidth md = 0 then None else Some ((w * mheight md) div mwidth md)"
  from Cons.prems(1) obtain st i where g: "getStat x fs img outputFormat w ?h = Inr (st, i)"
    by (cases "getStat x fs img outputFormat w ?h") auto
  with Cons.prems(1) have "width_stats x fs md outputFormat ws i (results @ [st]) = Inr (rs, img')"
    by simp
  moreover have "\<forall>s \<in> set (results @ [st]). stat_size s = None"
    using Cons.prems(2) getStat_size [OF g] by simp
  ultimately show ?case by (rule Cons.IH)
qed

lemma format_stats_sizes:
  assumes "format_stats x fs md fmts img results = Inr (rs, img')"
    and "msize md = None \<or> msize md = Some 0"
    and "\<forall>st \<in> set results. stat_size st = None"
  shows "\<forall>st \<in> set rs. stat_size st = None"
  using assms(1,3)
proof (induction fmts arbitrary: img results)
  case Nil
  then show ?case by simp
next
  case (Cons f fmts)
  have ok: "\<not> (falsy_format f \<or> f = Some ''auto'')" using Cons.prems(1) by auto
  show ?case
  proof (cases "f = Some ''svg''")
    case True
    show ?thesis
    proof (cases "native_format md (options img) = Some ''svg''")
      case False
      with True ok Cons.prems(1) have "format_stats x fs md fmts img results = Inr (rs, img')"
        by (simp add: falsy_format_def)
      then show ?thesis using Cons.prems(2) by (rule Cons.IH)
    next
      case native: True
      from Cons.prems(1) True ok native obtain st i
        where g: "getStat x fs img ''svg'' (mwidth md) (Some (mheight md)) = Inr (st, i)"
        by (cases "getStat x fs img ''svg'' (mwidth md) (Some (mheight md))")
           (auto simp: falsy_format_def)
      have sized: "(if msize md \<noteq> None \<and> msize md \<noteq> Some 0
                    then st\<lparr>stat_size := msize md\<rparr> else st) = st"
        using assms(2) by auto
      have all: "\<forall>s \<in> set (results @ [st]). stat_size s = None"
        using Cons.prems(2) getStat_size [OF g] by simp
      show ?thesis
      proof (cases "svgShortCircuit (options i) = SvgTrue")
        case True
        with \<open>f = Some ''svg''\<close> ok native g
        have "format_stats x fs md (f # fmts) img results
            = Inr (results @ [if msize md \<noteq> None \<and> msize md \<noteq> Some 0
                              then st\<lparr>stat_size := msize md\<rparr> else st], i)"
          by (simp add: falsy_format_def Let_def)
        with Cons.prems(1) have "rs = results @ [st]" by (simp only: sized) simp
        with all show ?thesis by simp
      next
        case False
        with \<open>f = Some ''svg''\<close> ok native g
        have "format_stats x fs md (f # fmts) img results
            = format_stats x fs md fmts i
                (results @ [if msize md \<noteq> None \<and> msize md \<noteq> Some 0
                            then st\<lparr>stat_size := msize md\<rparr> else st])"
          by (simp add: falsy_format_def Let_def)
        with Cons.prems(1)
        have "format_stats x fs md fmts i (results @ [st]) = Inr (rs, img')"
          by (simp only: sized)
        then show ?thesis using all by (rule Cons.IH)
      qed
    qed
  next
    case False
    let ?ws = "getValidWidths (mwidth md) (widths (options img))
                 (mformat md = Some ''svg'' \<and> svgAllowUpscale (options img))
                 (minimumThreshold (options img))"
    from Cons.prems(1) False ok obtain rs1 i
      where ws: "width_stats x fs md (the f) ?ws img results = Inr (rs1, i)"
      by (cases "width_stats x fs md (the f) ?ws img results") auto
    with Cons.prems(1) False ok have "format_stats x fs md fmts i rs1 = Inr (rs, img')" by auto
    then show ?thesis using width_stats_sizes [OF ws Cons.prems(2)] by (rule Cons.IH)
  qed
qed

text \<open>
  A plan computed from metadata without a size, as \<open>statsSync\<close> and
  \<open>statsByDimensionsSync\<close> compute it, is not filtered, and each of its groups is in
  ascending order of width.
\<close>

lemma getFullStats_sorted:
  assumes "getFullStats x fs img md = Inr (fullStats, img', md')"
    and "msize md = None"
    and "(type, entries) \<in> set fullStats"
  shows "sorted (map width entries)"
proof -
  let ?fmts = "getFormatsArray (formats (options img)) (native_format md (options img))
                 (svgShortCircuit (options img))"
  obtain results i where
    loop: "format_stats x fs (corrected_metadata md) ?fmts img [] = Inr (results, i)"
    using assms(1)
    by (cases "format_stats x fs (corrected_metadata md) ?fmts img []")
       (auto simp: getFullStats_def Let_def)
  with assms(1) have plan: "fullStats = transformRawFiles (options img') results ?fmts"
    by (auto simp: getFullStats_def Let_def)
  have sizes: "\<forall>st \<in> set results. stat_size st = None"
    using format_stats_sizes [OF loop] assms(2) by (simp add: corrected_metadata_keeps)
  have "svg_entry_size (grouped results ?fmts) = None"
  proof (rule ccontr)
    assume "svg_entry_size (grouped results ?fmts) \<noteq> None"
    then obtain svg0 n where s: "svg_entry_size (grouped results ?fmts) = Some (svg0, n)"
      by auto
    then have "stat_size svg0 = Some n"
      by (auto simp: svg_entry_size_def split: option.splits list.splits if_splits)
    moreover have "svg0 \<in> set results"
      using svg_entry_in_plan [OF s] grouped_stats [of results ?fmts] by blast
    ultimately show False using sizes by auto
  qed
  then have "fullStats = grouped results ?fmts" by (simp add: plan transformRawFiles_def)
  with assms(3) show ?thesis by (simp add: grouped_sorted_by_width)
qed

lemma statsByDimensionsSync_sorted:
  assumes "statsByDimensionsSync x fs source w h opts = Inr fullStats"
    and "(type, entries) \<in> set fullStats"
  shows "sorted (map width entries)"
proof -
  let ?md = "\<lparr>mwidth = w, mheight = h, mformat = None, orientation = None,
        pageHeight = None, msize = None\<rparr>"
  obtain img where img: "new_Image x source opts = Inr img"
    using assms(1) by (cases "new_Image x source opts") (auto simp: statsByDimensionsSync_def)
  obtain r where r: "getFullStats x fs img ?md = Inr r"
    using assms(1) img by (cases "getFullStats x fs img ?md") (auto simp: statsByDimensionsSync_def)
  obtain p img' md' where "r = (p, img', md')" by (cases r)
  with r img assms(1) have "getFullStats x fs img ?md = Inr (fullStats, img', md')"
    by (simp add: statsByDimensionsSync_def)
  from getFullStats_sorted [OF this _ assms(2)] show ?thesis by simp
qed

lemma statsSync_sorted:
  assumes "statsSync x fs source opts = Inr fullStats"
    and "(type, entries) \<in> set fullStats"
  shows "sorted (map width entries)"
proof -
  have local: "\<not> (case source of SrcString s \<Rightarrow> Util_isRemoteUrl x s | SrcBuffer b \<Rightarrow> False)"
    using assms(1) by (auto simp: statsSync_def split: if_splits)
  obtain d where d: "getImageSize x fs source = Inr d"
    using assms(1) local by (cases "getImageSize x fs source") (auto simp: statsSync_def)
  obtain w h t where dims: "d = (w, h, t)" by (cases d)
  let ?md = "\<lparr>mwidth = w, mheight = h, mformat = t, orientation = None,
        pageHeight = None, msize = None\<rparr>"
  obtain img where img: "new_Image x source opts = Inr img"
    using assms(1) local d dims
    by (cases "new_Image x source opts") (auto simp: statsSync_def)
  obtain r where r: "getFullStats x fs img ?md = Inr r"
    using assms(1) local d dims img
    by (cases "getFullStats x fs img ?md") (auto simp: statsSync_def)
  obtain p img' md' where "r = (p, img', md')" by (cases r)
  with r img local d dims assms(1) have "getFullStats x fs img ?md = Inr (fullStats, img', md')"
    by (simp add: statsSync_def)
  from getFullStats_sorted [OF this _ assms(2)] show ?thesis by simp
qed

end
